theory Spec2Isabelle
  imports Main
begin

section \<open>Python strings\<close>

text \<open>
  Strings are lists of characters. The text handled by the pipeline (payer and payee
  names, currency codes, cheque numbers, file names) is modelled as ASCII: the case
  mapping and the whitespace class below are Python's, restricted to ASCII.
\<close>

definition is_space :: "char \<Rightarrow> bool" where
  \<comment> \<open>the ASCII characters for which \<open>str.isspace\<close> holds: tab, newline, vertical tab,
      form feed, carriage return, the separators 0x1C..0x1F and the blank\<close>
  "is_space c = (c \<in> set [CHR 0x09, CHR 0x0A, CHR 0x0B, CHR 0x0C, CHR 0x0D,
                            CHR 0x1C, CHR 0x1D, CHR 0x1E, CHR 0x1F, CHR 0x20])"

definition upper_char :: "char \<Rightarrow> char" where
  "upper_char c =
     (case map_of (zip ''abcdefghijklmnopqrstuvwxyz'' ''ABCDEFGHIJKLMNOPQRSTUVWXYZ'') c of
        Some u \<Rightarrow> u
      | None \<Rightarrow> c)"

definition upper :: "string \<Rightarrow> string" where
  \<comment> \<open>\<open>str.upper()\<close>\<close>
  "upper s = map upper_char s"

definition strip :: "string \<Rightarrow> string" where
  \<comment> \<open>\<open>str.strip()\<close>\<close>
  "strip s = rev (dropWhile is_space (rev (dropWhile is_space s)))"

fun split_ws :: "string \<Rightarrow> string \<Rightarrow> string list" where
  "split_ws w [] = (if w = [] then [] else [w])"
| "split_ws w (c # cs) =
     (if is_space c then (if w = [] then split_ws [] cs else w # split_ws [] cs)
      else split_ws (w @ [c]) cs)"

definition split :: "string \<Rightarrow> string list" where
  \<comment> \<open>\<open>str.split()\<close> with no argument: the maximal runs of non-whitespace\<close>
  "split s = split_ws [] s"

fun join :: "string \<Rightarrow> string list \<Rightarrow> string" where
  \<comment> \<open>\<open>sep.join(xs)\<close>\<close>
  "join sep [] = []"
| "join sep [x] = x"
| "join sep (x # y # ys) = x @ sep @ join sep (y # ys)"

fun startswith :: "string \<Rightarrow> string \<Rightarrow> bool" where
  \<comment> \<open>\<open>s.startswith(p)\<close>, the prefix first\<close>
  "startswith [] s = True"
| "startswith (p # ps) [] = False"
| "startswith (p # ps) (c # cs) = (p = c \<and> startswith ps cs)"

fun str_contains :: "string \<Rightarrow> string \<Rightarrow> bool" where
  \<comment> \<open>\<open>p in s\<close> on strings\<close>
  "str_contains p [] = (p = [])"
| "str_contains p (c # cs) = (startswith p (c # cs) \<or> str_contains p cs)"

definition re_sub_class :: "char list \<Rightarrow> char \<Rightarrow> string \<Rightarrow> string" where
  \<comment> \<open>\<open>re.sub('[...]', r, s)\<close> for a character class and a one-character replacement\<close>
  "re_sub_class cls r s = map (\<lambda>c. if c \<in> set cls then r else c) s"

section \<open>Python values read from the recognition response\<close>

text \<open>
  The fields of the parsed response are untyped. A field is a string, a boolean,
  \<open>None\<close>, or any other value (a number, a list, a dictionary), which the code only
  ever formats with \<open>str()\<close> or tests for truth: such a value is kept as what
  \<open>str()\<close> and \<open>bool()\<close> return on it.
\<close>

datatype pyval = PStr string | PBool bool | PNone | POther string bool

fun py_str :: "pyval \<Rightarrow> string" where
  "py_str (PStr s) = s"
| "py_str (PBool b) = (if b then ''True'' else ''False'')"
| "py_str PNone = ''None''"
| "py_str (POther r t) = r"

fun truthy :: "pyval \<Rightarrow> bool" where
  "truthy (PStr s) = (s \<noteq> [])"
| "truthy (PBool b) = b"
| "truthy PNone = False"
| "truthy (POther r t) = t"

datatype exn = TypeError | AttributeError

section \<open>processing\_component: file naming\<close>

definition invalid_chars :: "char list" where
  \<comment> \<open>the class \<open>[\/*?:"<>|]\<close> of \<open>processing_component.sanitize_filename\<close>: in it
      \<open>\/\<close> is an escaped slash, so the backslash itself is not a member\<close>
  "invalid_chars = [CHR ''/'', CHR ''*'', CHR ''?'', CHR '':'', CHR 0x22,
                    CHR ''<'', CHR ''>'', CHR ''|'']"

definition sanitize_filename :: "pyval \<Rightarrow> exn + string" where
  \<comment> \<open>\<open>re.sub\<close> raises \<open>TypeError\<close> on anything but a string\<close>
  "sanitize_filename filename =
     (case filename of
        PStr s \<Rightarrow> Inr (re_sub_class invalid_chars (CHR ''_'') s)
      | _ \<Rightarrow> Inl TypeError)"

abbreviation WMC_PAYER :: string where
  "WMC_PAYER \<equiv> ''WEALTH MANAGEMENT CUBE LIMITED''"

abbreviation NOMINEE_PAYER :: string where
  "NOMINEE_PAYER \<equiv> ''WMC NOMINEE LIMITED-CLIENT TRUST ACCOUNT''"

definition payee_upper_in_allow_list :: "pyval \<Rightarrow> bool" where
  \<comment> \<open>\<open>payee.upper() in ['OFS', 'OREANA FINANCIAL SERVICES LIMITED']\<close>; the payee is a
      string wherever this is evaluated, \<open>sanitize_filename\<close> having returned\<close>
  "payee_upper_in_allow_list payee =
     (case payee of
        PStr s \<Rightarrow> upper s \<in> set [''OFS'', ''OREANA FINANCIAL SERVICES LIMITED'']
      | _ \<Rightarrow> False)"

definition generate_filename ::
  "pyval \<Rightarrow> pyval \<Rightarrow> pyval \<Rightarrow> pyval \<Rightarrow> pyval \<Rightarrow> pyval \<Rightarrow> exn + string" where
  "generate_filename key_identifier payer payee currency is_trailer_fee is_management_fee =
     (case sanitize_filename payee of
        Inl e \<Rightarrow> Inl e
      | Inr sanitized_payee \<Rightarrow>
          if truthy is_trailer_fee then
            (if payer = PStr WMC_PAYER then
               Inr (py_str key_identifier @ '' WMC-'' @ sanitized_payee @ ''_T.pdf'')
             else if payer = PStr NOMINEE_PAYER then
               Inr (py_str currency @ '' '' @ py_str key_identifier @ '' '' @ sanitized_payee
                    @ ''_T.pdf'')
             else
               Inr (sanitized_payee @ ''_'' @ py_str key_identifier @ ''_'' @ py_str currency
                    @ ''_T.pdf''))
          else if truthy is_management_fee \<and> payee_upper_in_allow_list payee then
            (if payer = PStr WMC_PAYER then
               Inr (py_str key_identifier @ '' WMC-'' @ sanitized_payee @ '' MF.pdf'')
             else if payer = PStr NOMINEE_PAYER then
               Inr (py_str currency @ '' '' @ py_str key_identifier @ '' '' @ sanitized_payee
                    @ '' MF.pdf'')
             else
               Inr (sanitized_payee @ ''_'' @ py_str key_identifier @ ''_'' @ py_str currency
                    @ '' MF.pdf''))
          else
            (if payer = PStr WMC_PAYER then
               Inr (py_str key_identifier @ '' WMC-'' @ sanitized_payee @ ''.pdf'')
             else if payer = PStr NOMINEE_PAYER then
               Inr (py_str currency @ '' '' @ py_str key_identifier @ '' '' @ sanitized_payee
                    @ ''.pdf'')
             else
               Inr (sanitized_payee @ ''_'' @ py_str key_identifier @ ''_'' @ py_str currency
                    @ ''.pdf'')))"

subsection \<open>The naming rules as the specification words them\<close>

datatype fee_class = NoFee | Trailer | Management

datatype payer_class = WMC | NomineeTrust | Other

definition fee_class_of :: "bool \<Rightarrow> bool \<Rightarrow> string \<Rightarrow> fee_class" where
  \<comment> \<open>the priority of the specification: Trailer first, then Management behind the
      allow-list, compared without regard to case\<close>
  "fee_class_of isTrailerFee isManagementFee payee =
     (if isTrailerFee then Trailer
      else if isManagementFee \<and>
              (upper payee = upper ''OFS'' \<or>
               upper payee = upper ''OREANA FINANCIAL SERVICES LIMITED'')
      then Management
      else NoFee)"

definition payer_class_of :: "string \<Rightarrow> payer_class" where
  "payer_class_of payer =
     (if payer = WMC_PAYER then WMC
      else if payer = NOMINEE_PAYER then NomineeTrust
      else Other)"

fun fee_suffix :: "fee_class \<Rightarrow> string" where
  "fee_suffix NoFee = ''''"
| "fee_suffix Trailer = ''_T''"
| "fee_suffix Management = '' MF''"

fun name_stem :: "payer_class \<Rightarrow> string \<Rightarrow> string \<Rightarrow> string \<Rightarrow> string" where
  "name_stem WMC keyId currency payee = keyId @ '' WMC-'' @ payee"
| "name_stem NomineeTrust keyId currency payee = currency @ '' '' @ keyId @ '' '' @ payee"
| "name_stem Other keyId currency payee = payee @ ''_'' @ keyId @ ''_'' @ currency"

definition template :: "payer_class \<Rightarrow> fee_class \<Rightarrow> string \<Rightarrow> string \<Rightarrow> string \<Rightarrow> string" where
  \<comment> \<open>the table of the specification, one cell per payer class and fee class\<close>
  "template pc fc keyId currency payee = name_stem pc keyId currency payee @ fee_suffix fc @ ''.pdf''"

section \<open>processing\_component: the payee alias table\<close>

text \<open>
  \<open>load_mappings\<close> reads \<open>payee_mappings.csv\<close> into a pandas DataFrame with the columns
  \<open>MAPPING_COLUMNS = ['Full Name', 'Short Form']\<close>. The table is modelled as its rows,
  with text in both cells, together with the column \<open>Standardized_Name\<close>, which is
  absent (\<open>None\<close>) in a table as loaded and holds one cell per row once it is assigned.
  The DataFrame is a mutable object shared with the caller, so every function that
  receives it returns it as well.
\<close>

record mapping_row =
  full_name :: string
  short_form :: string

record dataframe =
  rows :: "mapping_row list"
  standardized_name :: "string list option"

definition empty_dataframe :: dataframe where
  \<comment> \<open>\<open>pd.DataFrame(columns=MAPPING_COLUMNS)\<close>\<close>
  "empty_dataframe = \<lparr>rows = [], standardized_name = None\<rparr>"

definition get_payee_shortform :: "pyval \<Rightarrow> dataframe \<Rightarrow> (exn + pyval) \<times> dataframe" where
  \<comment> \<open>\<open>payee.upper()\<close> raises \<open>AttributeError\<close> on a value that is not a string, before
      the table is touched; \<open>match.iloc[0]\<close> is the first matching row\<close>
  "get_payee_shortform payee mappings_df =
     (if rows mappings_df = [] then (Inr payee, mappings_df)
      else
        (case payee of
           PStr s \<Rightarrow>
             (let payee_upper = strip (upper s);
                  payee_upper = join '' '' (split payee_upper);
                  names = map (\<lambda>r. join '' '' (split (strip (upper (full_name r)))))
                            (rows mappings_df);
                  mappings_df = mappings_df\<lparr>standardized_name := Some names\<rparr>;
                  match = filter (\<lambda>(r, n). n = payee_upper) (zip (rows mappings_df) names)
              in (case match of
                    (r, n) # _ \<Rightarrow> (Inr (PStr (short_form r)), mappings_df)
                  | [] \<Rightarrow> (Inr payee, mappings_df)))
         | _ \<Rightarrow> (Inl AttributeError, mappings_df)))"

subsection \<open>The lookup as the specification words it\<close>

definition normalized_key :: "string \<Rightarrow> string" where
  \<comment> \<open>uppercased, trimmed, inner whitespace collapsed to single blanks\<close>
  "normalized_key s = join '' '' (split (strip (upper s)))"

definition alias_lookup :: "mapping_row list \<Rightarrow> string \<Rightarrow> string option" where
  \<comment> \<open>the short form of the first row whose normalized full name is the normalized key\<close>
  "alias_lookup table payee =
     map_option short_form
       (find (\<lambda>r. normalized_key (full_name r) = normalized_key payee) table)"

definition resolve_payee :: "mapping_row list \<Rightarrow> string \<Rightarrow> string \<Rightarrow> string" where
  "resolve_payee table payer payee =
     (if payer = NOMINEE_PAYER then payee
      else (case alias_lookup table payee of Some short \<Rightarrow> short | None \<Rightarrow> payee))"

section \<open>processing\_component: the recognition call and its retry controller\<close>

text \<open>
  \<open>model.generate_content\<close> is the external recognition service. One call of it either
  returns a response object with a text, returns a falsy response, or raises an
  exception (reading \<open>response.text\<close> of a blocked response raises as well); the
  exception is kept as its message \<open>str(e)\<close>.
\<close>

datatype call_outcome = Responded string | FalsyResponse | Raised string

datatype api_exn = APIRateLimitError string | OtherException string

fun exn_str :: "api_exn \<Rightarrow> string" where
  "exn_str (APIRateLimitError m) = m"
| "exn_str (OtherException m) = m"

fun is_APIRateLimitError :: "api_exn \<Rightarrow> bool" where
  "is_APIRateLimitError (APIRateLimitError m) = True"
| "is_APIRateLimitError (OtherException m) = False"

definition MAX_RETRIES :: nat where "MAX_RETRIES = 5"
definition INITIAL_WAIT :: nat where "INITIAL_WAIT = 1"
definition MAX_WAIT :: nat where "MAX_WAIT = 32"

definition except_handler :: "api_exn \<Rightarrow> api_exn" where
  \<comment> \<open>the \<open>except Exception as e\<close> clause of the decorated function: it also catches the
      \<open>APIRateLimitError\<close> raised in the \<open>try\<close> block for a falsy response\<close>
  "except_handler e =
     (if str_contains ''429'' (exn_str e)
      then APIRateLimitError (''Rate limit exceeded: '' @ exn_str e)
      else e)"

definition attempt :: "call_outcome \<Rightarrow> api_exn + string" where
  \<comment> \<open>one run of the body of \<open>call_gemini_api_with_retry\<close>\<close>
  "attempt oc =
     (case oc of
        Responded text \<Rightarrow> Inr (strip text)
      | FalsyResponse \<Rightarrow> Inl (except_handler (APIRateLimitError ''Empty response from API''))
      | Raised m \<Rightarrow> Inl (except_handler (OtherException m)))"

definition wait_exponential :: "nat \<Rightarrow> nat \<Rightarrow> nat \<Rightarrow> nat" where
  \<comment> \<open>tenacity's \<open>wait_exponential(multiplier, max)\<close> with its defaults \<open>exp_base = 2\<close>
      and \<open>min = 0\<close>, called with the number of the attempt that has just failed:
      \<open>max(0, min(multiplier * 2 ** (attempt_number - 1), max))\<close>\<close>
  "wait_exponential multiplier maxw attempt_number =
     max 0 (min (multiplier * 2 ^ (attempt_number - 1)) maxw)"

record retry_state =
  outcome :: "api_exn + string"
  attempt_number :: nat
  slept :: "nat list"

function retrying :: "(nat \<Rightarrow> call_outcome) \<Rightarrow> nat \<Rightarrow> nat list \<Rightarrow> retry_state" where
  \<comment> \<open>the loop of tenacity's \<open>@retry(retry=retry_if_exception_type(APIRateLimitError),
      wait=wait_exponential(multiplier=INITIAL_WAIT, max=MAX_WAIT),
      stop=stop_after_attempt(MAX_RETRIES), reraise=True)\<close> from attempt \<open>n\<close> on: an
      exception the retry predicate rejects is raised at once; otherwise the stop
      condition is asked, and only when it says no does the controller sleep and call
      again. \<open>model k\<close> is what the \<open>k\<close>-th call of the service does.\<close>
  "retrying model n delays =
     (case attempt (model n) of
        Inr text \<Rightarrow> \<lparr>outcome = Inr text, attempt_number = n, slept = delays\<rparr>
      | Inl e \<Rightarrow>
          if \<not> is_APIRateLimitError e then
            \<lparr>outcome = Inl e, attempt_number = n, slept = delays\<rparr>
          else if n \<ge> MAX_RETRIES then
            \<lparr>outcome = Inl e, attempt_number = n, slept = delays\<rparr>
          else
            retrying model (n + 1) (delays @ [wait_exponential INITIAL_WAIT MAX_WAIT n]))"
  by pat_completeness auto
termination
  by (relation "measure (\<lambda>(model, n, delays). MAX_RETRIES - n)") auto

declare retrying.simps [simp del]

definition rate_limited :: "call_outcome \<Rightarrow> bool" where
  \<comment> \<open>the attempt ends in an \<open>APIRateLimitError\<close>, the one exception that is retried\<close>
  "rate_limited oc = (case attempt oc of Inl e \<Rightarrow> is_APIRateLimitError e | Inr text \<Rightarrow> False)"

definition fatal_at_3 :: "nat \<Rightarrow> call_outcome" where
  \<comment> \<open>a service that returns nothing twice and then fails with a server error\<close>
  "fatal_at_3 k = (if k < 3 then FalsyResponse else Raised ''500 Internal Server Error'')"

definition always_429 :: "nat \<Rightarrow> call_outcome" where
  \<comment> \<open>a service that answers every call with HTTP 429\<close>
  "always_429 k = Raised ''429 Too Many Requests''"

definition call_gemini_api_with_retry :: "(nat \<Rightarrow> call_outcome) \<Rightarrow> retry_state" where
  "call_gemini_api_with_retry model = retrying model 1 []"

definition call_gemini_api :: "(nat \<Rightarrow> call_outcome) \<Rightarrow> string \<Rightarrow> string + string" where
  \<comment> \<open>\<open>Inl\<close> is the error text of the pair \<open>(None, error)\<close>, \<open>Inr\<close> the response text of
      \<open>(response_text, None)\<close>; the client library's configuration is taken not to raise\<close>
  "call_gemini_api model api_key =
     (if api_key = [] then Inl ''Missing Gemini API key.''
      else
        (case outcome (call_gemini_api_with_retry model) of
           Inr response_text \<Rightarrow> Inr response_text
         | Inl (APIRateLimitError m) \<Rightarrow>
             Inl (''Rate limit error after 5 retries. Last error: '' @ m
                  @ ''. Please wait a few minutes before trying again.'')
         | Inl (OtherException m) \<Rightarrow> Inl (''Unexpected error during API call: '' @ m)))"

section \<open>processing\_component: one document\<close>

type_synonym bytes = "char list"

datatype pdf_outcome = Image bytes | EmptyPdf | ConversionError string

text \<open>
  \<open>json.loads\<close> is a parameter of the model: it returns \<open>None\<close> where the library raises
  \<open>JSONDecodeError\<close>, and otherwise the parsed value. Only what the code does with the
  value is kept: a dictionary with its items, a list with its elements, a string, or a
  scalar (a number, a boolean or \<open>null\<close>) on which \<open>in\<close> raises \<open>TypeError\<close>.
\<close>

datatype json = JObject "(string \<times> pyval) list" | JArray "pyval list" | JString string | JScalar

datatype echeque_error =
    Message string    \<comment> \<open>an error text that the code builds by itself\<close>
  | JSONDecodeError   \<comment> \<open>\<open>Error parsing JSON response: ...\<close>\<close>
  | ProcessingError exn   \<comment> \<open>\<open>Error processing e-cheque: ...\<close>\<close>

record echeque_result =
  original_data :: "(string \<times> pyval) list"
  original_payee :: pyval
  mapped_payee :: pyval
  generated_filename :: string
  pdf_data :: bytes
  next_step :: pyval

definition required_fields :: "string list" where
  "required_fields = [''date'', ''payee'', ''key_identifier'', ''payer'', ''currency'',
                      ''is_trailer_fee'', ''is_management_fee'']"

fun field_in :: "string \<Rightarrow> json \<Rightarrow> exn + bool" where
  \<comment> \<open>\<open>field in parsed_json\<close>: a key of a dictionary, an element of a list, a substring
      of a string\<close>
  "field_in f (JObject kvs) = Inr (map_of kvs f \<noteq> None)"
| "field_in f (JArray xs) = Inr (PStr f \<in> set xs)"
| "field_in f (JString s) = Inr (str_contains f s)"
| "field_in f JScalar = Inl TypeError"

fun all_fields_in :: "string list \<Rightarrow> json \<Rightarrow> exn + bool" where
  \<comment> \<open>\<open>all(field in parsed_json for field in fields)\<close>, which stops at the first field
      that is not in\<close>
  "all_fields_in [] j = Inr True"
| "all_fields_in (f # fs) j =
     (case field_in f j of
        Inl e \<Rightarrow> Inl e
      | Inr False \<Rightarrow> Inr False
      | Inr True \<Rightarrow> all_fields_in fs j)"

definition missing_fields :: "json \<Rightarrow> string list" where
  \<comment> \<open>\<open>[field for field in required_fields if field not in parsed_json]\<close>, evaluated only
      after \<open>all\<close> has returned, so \<open>in\<close> does not raise here\<close>
  "missing_fields j = filter (\<lambda>f. field_in f j \<noteq> Inr True) required_fields"

definition clean_response :: "string \<Rightarrow> string" where
  \<comment> \<open>the slice \<open>[7:-3]\<close> drops the opening fence with its tag and the last three characters\<close>
  "clean_response raw_response =
     (let clean = strip raw_response
      in if startswith ''```json'' clean then drop 7 (take (length clean - 3) clean)
         else clean)"

definition get_default :: "(string \<times> pyval) list \<Rightarrow> string \<Rightarrow> pyval \<Rightarrow> pyval" where
  \<comment> \<open>\<open>d.get(key, default)\<close>\<close>
  "get_default d k v = (case map_of d k of Some x \<Rightarrow> x | None \<Rightarrow> v)"

definition name_document ::
  "(string \<times> pyval) list \<Rightarrow> bytes \<Rightarrow> dataframe \<Rightarrow> (echeque_error + echeque_result) \<times> dataframe" where
  \<comment> \<open>the rest of the \<open>try\<close> block of \<open>process_echeque\<close> once the required fields are
      there: the subscripts cannot raise, the lookup and the naming can\<close>
  "name_document parsed_json pdf mappings_df =
     (let original_payee = get_default parsed_json ''payee'' PNone;
          payer = get_default parsed_json ''payer'' PNone;
          (shortened, mappings_df) =
             (if payer \<noteq> PStr NOMINEE_PAYER then get_payee_shortform original_payee mappings_df
              else (Inr original_payee, mappings_df))
      in (case shortened of
            Inl e \<Rightarrow> (Inl (ProcessingError e), mappings_df)
          | Inr shortened_payee \<Rightarrow>
              (case generate_filename (get_default parsed_json ''key_identifier'' PNone) payer
                      shortened_payee (get_default parsed_json ''currency'' PNone)
                      (get_default parsed_json ''is_trailer_fee'' PNone)
                      (get_default parsed_json ''is_management_fee'' PNone) of
                 Inl e \<Rightarrow> (Inl (ProcessingError e), mappings_df)
               | Inr filename \<Rightarrow>
                   (Inr \<lparr>original_data = parsed_json,
                         original_payee = original_payee,
                         mapped_payee = shortened_payee,
                         generated_filename = filename,
                         pdf_data = pdf,
                         next_step = get_default parsed_json ''next_step'' (PStr ''Unknown'')\<rparr>,
                    mappings_df))))"

definition process_response ::
  "(string \<Rightarrow> json option) \<Rightarrow> string \<Rightarrow> bytes \<Rightarrow> dataframe \<Rightarrow>
   (echeque_error + echeque_result) \<times> dataframe" where
  \<comment> \<open>the \<open>try\<close> block of \<open>process_echeque\<close> with its two \<open>except\<close> clauses\<close>
  "process_response loads raw_response pdf mappings_df =
     (case loads (clean_response raw_response) of
        None \<Rightarrow> (Inl JSONDecodeError, mappings_df)
      | Some parsed_json \<Rightarrow>
          (case all_fields_in required_fields parsed_json of
             Inl e \<Rightarrow> (Inl (ProcessingError e), mappings_df)
           | Inr False \<Rightarrow>
               (Inl (Message (''Missing required fields in API response: ''
                              @ join '', '' (missing_fields parsed_json))), mappings_df)
           | Inr True \<Rightarrow>
               (case parsed_json of
                  JObject kvs \<Rightarrow> name_document kvs pdf mappings_df
                | _ \<Rightarrow> (Inl (ProcessingError TypeError), mappings_df))))"

definition process_echeque ::
  "(bytes \<Rightarrow> pdf_outcome) \<Rightarrow> (string \<Rightarrow> json option) \<Rightarrow> (nat \<Rightarrow> call_outcome) \<Rightarrow>
   bytes \<Rightarrow> string \<Rightarrow> dataframe \<Rightarrow> (echeque_error + echeque_result) \<times> dataframe" where
  \<comment> \<open>\<open>pdf_to_image\<close> (PyMuPDF), \<open>json.loads\<close> and the recognition service are parameters;
      the caller passes the table, as \<open>process_echeques\<close> does\<close>
  "process_echeque pdf_to_image loads model pdf gemini_api_key mappings_df =
     (case pdf_to_image pdf of
        EmptyPdf \<Rightarrow> (Inl (Message ''Uploaded PDF is empty.''), mappings_df)
      | ConversionError m \<Rightarrow>
          (Inl (Message (''Error converting PDF to image: '' @ m)), mappings_df)
      | Image image_bytes \<Rightarrow>
          (case call_gemini_api model gemini_api_key of
             Inl error \<Rightarrow> (Inl (Message error), mappings_df)
           | Inr raw_response \<Rightarrow> process_response loads raw_response pdf mappings_df))"

section \<open>processing\_component: the batch\<close>

record file_info =
  filename :: string
  content :: bytes
  email_subject :: "string option"
  email_date :: "string option"

record processed_file = echeque_result +
  original_filename :: string
  result_email_subject :: string
  result_email_date :: string

record failure =
  failed_filename :: string
  error :: echeque_error

definition or_unknown :: "string option \<Rightarrow> string" where
  \<comment> \<open>\<open>file_info.get(key, 'Unknown')\<close>\<close>
  "or_unknown v = (case v of Some s \<Rightarrow> s | None \<Rightarrow> ''Unknown'')"

definition add_file_info :: "file_info \<Rightarrow> echeque_result \<Rightarrow> processed_file" where
  "add_file_info fi result =
     echeque_result.extend result
       (processed_file.fields (filename fi) (or_unknown (email_subject fi))
          (or_unknown (email_date fi)))"

fun process_loop ::
  "(bytes \<Rightarrow> pdf_outcome) \<Rightarrow> (string \<Rightarrow> json option) \<Rightarrow> (nat \<Rightarrow> nat \<Rightarrow> call_outcome) \<Rightarrow>
   string \<Rightarrow> nat \<Rightarrow> file_info list \<Rightarrow> dataframe \<Rightarrow> processed_file list \<Rightarrow> failure list \<Rightarrow>
   (processed_file list \<times> failure list) \<times> dataframe" where
  \<comment> \<open>the \<open>for i, file_info in enumerate(downloaded_files)\<close> loop from index \<open>i\<close> on;
      \<open>model i\<close> is the recognition service during document \<open>i\<close>\<close>
  "process_loop pdf_to_image loads model key i [] mappings_df processed_files errors =
     ((processed_files, errors), mappings_df)"
| "process_loop pdf_to_image loads model key i (fi # rest) mappings_df processed_files errors =
     (case process_echeque pdf_to_image loads (model i) (content fi) key mappings_df of
        (Inl err, mappings_df) \<Rightarrow>
          process_loop pdf_to_image loads model key (i + 1) rest mappings_df processed_files
            (errors @ [\<lparr>failed_filename = filename fi, error = err\<rparr>])
      | (Inr result, mappings_df) \<Rightarrow>
          process_loop pdf_to_image loads model key (i + 1) rest mappings_df
            (processed_files @ [add_file_info fi result]) errors)"

definition process_echeques ::
  "(bytes \<Rightarrow> pdf_outcome) \<Rightarrow> (string \<Rightarrow> json option) \<Rightarrow> (nat \<Rightarrow> nat \<Rightarrow> call_outcome) \<Rightarrow>
   dataframe option \<Rightarrow> file_info list \<Rightarrow> string \<Rightarrow>
   (processed_file list \<times> failure list) \<times> dataframe" where
  \<comment> \<open>\<open>loaded\<close> is what \<open>load_mappings\<close> reads, \<open>None\<close> when it returns an error; the
      table the batch ends with is returned beside the two lists\<close>
  "process_echeques pdf_to_image loads model loaded downloaded_files gemini_api_key =
     (let mappings_df = (case loaded of Some df \<Rightarrow> df | None \<Rightarrow> empty_dataframe)
      in process_loop pdf_to_image loads model gemini_api_key 0 downloaded_files mappings_df [] [])"

section \<open>Two recognition responses\<close>

definition quoted :: "string \<Rightarrow> string" where
  \<comment> \<open>a JSON string literal: the text between double quotes\<close>
  "quoted s = CHR 0x22 # s @ [CHR 0x22]"

definition response_without_next_step :: string where
  \<comment> \<open>a response with the seven fields the code checks and no \<open>next_step\<close>\<close>
  "response_without_next_step =
     ''{'' @ quoted ''date'' @ '': '' @ quoted ''2024-01-05''
     @ '', '' @ quoted ''payee'' @ '': '' @ quoted ''AAM Advisory''
     @ '', '' @ quoted ''key_identifier'' @ '': '' @ quoted ''000495''
     @ '', '' @ quoted ''payer'' @ '': '' @ quoted ''WEALTH MANAGEMENT CUBE LIMITED''
     @ '', '' @ quoted ''currency'' @ '': '' @ quoted ''HKD''
     @ '', '' @ quoted ''is_trailer_fee'' @ '': false''
     @ '', '' @ quoted ''is_management_fee'' @ '': false}''"

definition fields_without_next_step :: "(string \<times> pyval) list" where
  "fields_without_next_step =
     [(''date'', PStr ''2024-01-05''), (''payee'', PStr ''AAM Advisory''),
      (''key_identifier'', PStr ''000495''), (''payer'', PStr ''WEALTH MANAGEMENT CUBE LIMITED''),
      (''currency'', PStr ''HKD''), (''is_trailer_fee'', PBool False),
      (''is_management_fee'', PBool False)]"

definition body_without_key_identifier :: string where
  \<comment> \<open>Scenario D of the specification: no \<open>key_identifier\<close>\<close>
  "body_without_key_identifier =
     ''{'' @ quoted ''date'' @ '': '' @ quoted ''2024-01-05''
     @ '', '' @ quoted ''payee'' @ '': '' @ quoted ''AAM Advisory''
     @ '', '' @ quoted ''payer'' @ '': '' @ quoted ''WEALTH MANAGEMENT CUBE LIMITED''
     @ '', '' @ quoted ''currency'' @ '': '' @ quoted ''HKD''
     @ '', '' @ quoted ''is_trailer_fee'' @ '': false''
     @ '', '' @ quoted ''is_management_fee'' @ '': false''
     @ '', '' @ quoted ''next_step'' @ '': '' @ quoted ''Process Payment'' @ ''}''"

definition response_without_key_identifier :: string where
  \<comment> \<open>the same text as the service returns it, in a fenced block\<close>
  "response_without_key_identifier = ''```json'' @ body_without_key_identifier @ ''```''"

definition fields_without_key_identifier :: "(string \<times> pyval) list" where
  "fields_without_key_identifier =
     [(''date'', PStr ''2024-01-05''), (''payee'', PStr ''AAM Advisory''),
      (''payer'', PStr ''WEALTH MANAGEMENT CUBE LIMITED''),
      (''currency'', PStr ''HKD''), (''is_trailer_fee'', PBool False),
      (''is_management_fee'', PBool False), (''next_step'', PStr ''Process Payment'')]"

definition loads_responses :: "string \<Rightarrow> json option" where
  \<comment> \<open>\<open>json.loads\<close> on the two texts above; nothing is said about any other text\<close>
  "loads_responses s =
     (if s = response_without_next_step then Some (JObject fields_without_next_step)
      else if s = body_without_key_identifier then Some (JObject fields_without_key_identifier)
      else None)"

definition one_row_table :: dataframe where
  \<comment> \<open>a table as loaded from a file with one mapping\<close>
  "one_row_table =
     \<lparr>rows = [\<lparr>full_name = ''AAM  Advisory Limited'', short_form = ''AAM''\<rparr>],
      standardized_name = None\<rparr>"

definition renders :: "bytes \<Rightarrow> pdf_outcome" where
  \<comment> \<open>a renderer that succeeds on every document; the image is not looked at\<close>
  "renders pdf = Image pdf"

definition answers :: "string \<Rightarrow> nat \<Rightarrow> call_outcome" where
  \<comment> \<open>a service that answers every call with the same text\<close>
  "answers text k = Responded text"

definition with_standardized_name :: "dataframe \<Rightarrow> dataframe" where
  \<comment> \<open>the table once the column \<open>Standardized_Name\<close> has been assigned from its rows\<close>
  "with_standardized_name df =
     df\<lparr>standardized_name := Some (map (\<lambda>r. normalized_key (full_name r)) (rows df))\<rparr>"

section \<open>teams\_component: file names and target folders\<close>

definition sharepoint_invalid_chars :: "char list" where
  \<comment> \<open>the class \<open>[\"*:<>?/\\|#%{}~]\<close>\<close>
  "sharepoint_invalid_chars =
     [CHR 0x22, CHR ''*'', CHR '':'', CHR ''<'', CHR ''>'', CHR ''?'', CHR ''/'', CHR 0x5C,
      CHR ''|'', CHR ''#'', CHR ''%'', CHR ''{'', CHR ''}'', CHR ''~'']"

fun rfind_from :: "char \<Rightarrow> string \<Rightarrow> int \<Rightarrow> int \<Rightarrow> int" where
  "rfind_from c [] i found = found"
| "rfind_from c (x # xs) i found = rfind_from c xs (i + 1) (if x = c then i else found)"

definition rfind :: "char \<Rightarrow> string \<Rightarrow> int" where
  \<comment> \<open>\<open>s.rfind(c)\<close>: the last index of \<open>c\<close>, or \<open>-1\<close>\<close>
  "rfind c s = rfind_from c s 0 (-1)"

definition splitext :: "string \<Rightarrow> string \<times> string" where
  \<comment> \<open>\<open>os.path.splitext\<close> (\<open>genericpath._splitext\<close> with the separator \<open>/\<close>): the
      extension starts at the last dot, unless that dot stands before the last separator
      or only dots stand between the separator and it\<close>
  "splitext p =
     (let sepIndex = rfind (CHR ''/'') p;
          dotIndex = rfind (CHR ''.'') p
      in if dotIndex > sepIndex \<and>
            (\<exists>c \<in> set (take (nat (dotIndex - (sepIndex + 1))) (drop (nat (sepIndex + 1)) p)).
                c \<noteq> CHR ''.'')
         then (take (nat dotIndex) p, drop (nat dotIndex) p)
         else (p, []))"

definition slice_to :: "int \<Rightarrow> 'a list \<Rightarrow> 'a list" where
  \<comment> \<open>the slice \<open>xs[:k]\<close>, where a negative \<open>k\<close> counts from the end\<close>
  "slice_to k xs = (if k \<ge> 0 then take (nat k) xs else take (nat (int (length xs) + k)) xs)"

definition teams_sanitize_filename :: "string \<Rightarrow> string" where
  \<comment> \<open>\<open>teams_component.sanitize_filename\<close>\<close>
  "teams_sanitize_filename filename' =
     (let sanitized = re_sub_class sharepoint_invalid_chars (CHR ''_'') filename';
          sanitized = strip sanitized;
          sanitized = dropWhile (\<lambda>c. c = CHR ''.'') sanitized
      in if length sanitized > 240 then
           (let (name_part, ext_part) = splitext sanitized
            in slice_to (240 - int (length ext_part)) name_part @ ext_part)
         else sanitized)"

definition is_digit :: "char \<Rightarrow> bool" where
  "is_digit c = (c \<in> set ''0123456789'')"

definition is_capital :: "char \<Rightarrow> bool" where
  "is_capital c = (c \<in> set ''ABCDEFGHIJKLMNOPQRSTUVWXYZ'')"

definition endswith :: "string \<Rightarrow> string \<Rightarrow> bool" where
  "endswith suffix s = startswith (rev suffix) (rev s)"

definition matches_any_pdf :: "string \<Rightarrow> bool" where
  \<comment> \<open>the tail \<open>.*\.pdf$\<close> of both patterns: \<open>.\<close> is any character but a newline, and
      \<open>$\<close> is the end of the string or the place before a newline that ends it\<close>
  "matches_any_pdf s =
     (let t = (if s \<noteq> [] \<and> last s = CHR 0x0A then butlast s else s)
      in endswith ''.pdf'' t \<and> CHR 0x0A \<notin> set t)"

definition matches_wmc_pattern :: "string \<Rightarrow> bool" where
  \<comment> \<open>\<open>re.match(r'^\d+ WMC-.*\.pdf$', filename)\<close>\<close>
  "matches_wmc_pattern s =
     (let digits = takeWhile is_digit s; rest = dropWhile is_digit s
      in digits \<noteq> [] \<and> startswith '' WMC-'' rest \<and> matches_any_pdf (drop 5 rest))"

definition matches_nominee_pattern :: "string \<Rightarrow> bool" where
  \<comment> \<open>\<open>re.match(r'^[A-Z]{3} \d+ .*\.pdf$', filename)\<close>\<close>
  "matches_nominee_pattern s =
     (let code = take 3 s; rest = drop 3 s;
          digits = takeWhile is_digit (drop 1 rest); tail = dropWhile is_digit (drop 1 rest)
      in length code = 3 \<and> list_all is_capital code \<and> startswith '' '' rest
         \<and> digits \<noteq> [] \<and> startswith '' '' tail \<and> matches_any_pdf (drop 1 tail))"

record target_folder =
  folder_id :: string
  folder_path :: string
  folder_name :: string

definition wmc_echeque_folder :: target_folder where
  "wmc_echeque_folder =
     \<lparr>folder_id = ''01OU6MNL3KE3XP2T5JMZC244U33CGKOAMH'',
      folder_path = ''Finance Staff/Bank/Cashflow/WMC E-cheque'',
      folder_name = ''WMC E-cheque''\<rparr>"

definition nominee_folder :: target_folder where
  "nominee_folder =
     \<lparr>folder_id = ''01OU6MNL5F3ZCFDTEACRAJDOX2G4NUMX72'',
      folder_path = ''Finance Staff/Bank/E cheque WMC Nominee'',
      folder_name = ''E cheque WMC Nominee''\<rparr>"

definition determine_target_folder :: "string \<Rightarrow> target_folder" where
  "determine_target_folder filename' =
     (if matches_wmc_pattern filename' then wmc_echeque_folder
      else if matches_nominee_pattern filename' then nominee_folder
      else wmc_echeque_folder)"

section \<open>teams\_component: delivery to the remote store\<close>

text \<open>
  The remote store is reached by HTTP requests only. A request is kept as the operation
  it asks for and the values the URL, the headers and the body carry; the bearer token,
  which every request carries, is left out. A response is its status code and what the
  code reads from its JSON body.
\<close>

datatype request =
    GetSite string
      \<comment> \<open>\<open>GET groups/{team}/sites/root\<close>\<close>
  | GetDrives string
      \<comment> \<open>\<open>GET sites/{site}/drives\<close>\<close>
  | ProbeByName string string string
      \<comment> \<open>\<open>GET drives/{drive}/items/{folder}/children?$filter=name eq '{name}'\<close>\<close>
  | PutContentById string string bytes
      \<comment> \<open>\<open>PUT drives/{drive}/items/{item}/content\<close>\<close>
  | PutContentByPath string string string bytes
      \<comment> \<open>\<open>PUT drives/{drive}/items/{folder}:/{name}:/content\<close>\<close>
  | CreateSessionById string string string
      \<comment> \<open>\<open>POST drives/{drive}/items/{item}/createUploadSession\<close> with the conflict
          behaviour of the body\<close>
  | CreateSessionByPath string string string string
      \<comment> \<open>\<open>POST drives/{drive}/items/{folder}:/{name}:/createUploadSession\<close>, likewise\<close>
  | PutChunk string nat nat nat bytes
      \<comment> \<open>\<open>PUT {uploadUrl}\<close> with \<open>Content-Range: bytes {start}-{end}/{total}\<close>\<close>

datatype response_body =
    SiteInfo "string option" "string option"
      \<comment> \<open>\<open>webUrl\<close> and \<open>id\<close> of the site\<close>
  | DriveList "string list"
      \<comment> \<open>the \<open>id\<close> of every drive under \<open>value\<close>\<close>
  | ItemList "string list"
      \<comment> \<open>the \<open>id\<close> of every item under \<open>value\<close>\<close>
  | UploadSession "string option"
      \<comment> \<open>\<open>uploadUrl\<close>\<close>
  | OtherBody

record response =
  status_code :: nat
  json_body :: response_body

datatype upload_error =
    SiteError nat          \<comment> \<open>\<open>Error getting SharePoint site: {status}\<close>\<close>
  | NoSite                 \<comment> \<open>\<open>Error: Could not determine SharePoint site URL or ID\<close>\<close>
  | DrivesError nat        \<comment> \<open>\<open>Failed to get drives: {status}\<close>\<close>
  | NoDrives               \<comment> \<open>\<open>No drives found for site\<close>\<close>
  | UpdateFailed nat       \<comment> \<open>\<open>Failed to update content: {status}\<close>\<close>
  | UploadFailed nat       \<comment> \<open>\<open>Failed to upload content: {status}\<close>\<close>
  | SessionFailed nat      \<comment> \<open>\<open>Failed to create upload session: {status}\<close>\<close>
  | NoUploadUrl            \<comment> \<open>\<open>No upload URL returned in session response\<close>\<close>
  | ChunkFailed nat nat nat   \<comment> \<open>\<open>Error uploading chunk {start}-{end}: {status}\<close>\<close>
  | UnexpectedResponse     \<comment> \<open>\<open>Upload completed but unexpected response received\<close>\<close>
  | UploadException        \<comment> \<open>\<open>SharePoint upload error: ...\<close>, a body of another shape\<close>

text \<open>
  The store is a parameter: a step function from its state and a request to a response
  and its next state. A delivery runs in a world that holds the state of the store and
  the requests sent so far.
\<close>

type_synonym 'st server = "'st \<Rightarrow> request \<Rightarrow> response \<times> 'st"

record 'st world =
  remote :: 'st
  sent :: "request list"

definition send :: "'st server \<Rightarrow> request \<Rightarrow> 'st world \<Rightarrow> response \<times> 'st world" where
  "send srv rq w =
     (let (resp, st) = srv (remote w) rq in (resp, \<lparr>remote = st, sent = sent w @ [rq]\<rparr>))"

definition small_file_limit :: nat where
  "small_file_limit = 4 * 1024 * 1024"

definition chunk_size :: nat where
  "chunk_size = 1 * 1024 * 1024"

function upload_chunks ::
  "'st server \<Rightarrow> string \<Rightarrow> bytes \<Rightarrow> nat \<Rightarrow> 'st world \<Rightarrow> (upload_error + unit) \<times> 'st world" where
  \<comment> \<open>the loop \<open>while uploaded < total_size\<close>\<close>
  "upload_chunks srv upload_url file_data uploaded w =
     (if uploaded < length file_data then
        (let chunk_data = take chunk_size (drop uploaded file_data);
             chunk_length = length chunk_data;
             start = uploaded;
             end' = uploaded + chunk_length - 1
         in case send srv (PutChunk upload_url start end' (length file_data) chunk_data) w of
              (chunk_response, w) \<Rightarrow>
                if status_code chunk_response \<notin> {200, 201, 202} then
                  (Inl (ChunkFailed start end' (status_code chunk_response)), w)
                else if status_code chunk_response \<in> {200, 201} then (Inr (), w)
                else upload_chunks srv upload_url file_data (uploaded + chunk_length) w)
      else (Inl UnexpectedResponse, w))"
  by pat_completeness auto
termination
  by (relation "measure (\<lambda>(srv, upload_url, file_data, uploaded, w). length file_data - uploaded)")
     (auto simp: chunk_size_def)

declare upload_chunks.simps [simp del]

definition truthy_id :: "string list \<Rightarrow> string option" where
  \<comment> \<open>\<open>items[0]['id']\<close> when there is an item, kept only if it passes
      \<open>if existing_file_id\<close>, which an empty string does not\<close>
  "truthy_id items = (case items of [] \<Rightarrow> None | i # _ \<Rightarrow> if i = [] then None else Some i)"

definition transfer ::
  "'st server \<Rightarrow> string \<Rightarrow> string \<Rightarrow> string \<Rightarrow> string option \<Rightarrow> bytes \<Rightarrow> 'st world \<Rightarrow>
   (upload_error + unit) \<times> 'st world" where
  \<comment> \<open>the part of \<open>upload_with_sharepoint_api\<close> after the existence check: the direct
      upload of a small file, or the upload session and its chunks\<close>
  "transfer srv drive_id folder file_to_upload existing_file_id file_data w =
     (if length file_data < small_file_limit then
        (case existing_file_id of
           Some item \<Rightarrow>
             (case send srv (PutContentById drive_id item file_data) w of
                (upload_response, w) \<Rightarrow>
                  if status_code upload_response \<in> {200, 201} then (Inr (), w)
                  else (Inl (UpdateFailed (status_code upload_response)), w))
         | None \<Rightarrow>
             (case send srv (PutContentByPath drive_id folder file_to_upload file_data) w of
                (upload_response, w) \<Rightarrow>
                  if status_code upload_response \<in> {200, 201} then (Inr (), w)
                  else (Inl (UploadFailed (status_code upload_response)), w)))
      else
        (case send srv
                (case existing_file_id of
                   Some item \<Rightarrow> CreateSessionById drive_id item ''replace''
                 | None \<Rightarrow> CreateSessionByPath drive_id folder file_to_upload ''replace'') w of
           (session_response, w) \<Rightarrow>
             if status_code session_response \<noteq> 200 then
               (Inl (SessionFailed (status_code session_response)), w)
             else
               (case json_body session_response of
                  UploadSession (Some upload_url) \<Rightarrow>
                    if upload_url = [] then (Inl NoUploadUrl, w)
                    else upload_chunks srv upload_url file_data 0 w
                | UploadSession None \<Rightarrow> (Inl NoUploadUrl, w)
                | _ \<Rightarrow> (Inl UploadException, w))))"

definition upload_with_sharepoint_api ::
  "'st server \<Rightarrow> string \<Rightarrow> bytes \<Rightarrow> string \<Rightarrow> string \<Rightarrow> 'st world \<Rightarrow>
   (upload_error + unit) \<times> 'st world" where
  \<comment> \<open>\<open>Inr ()\<close> is the pair \<open>(True, None)\<close>, \<open>Inl e\<close> the pair \<open>(False, error)\<close>\<close>
  "upload_with_sharepoint_api srv finance_team_id file_data filename' folder w =
     (case send srv (GetSite finance_team_id) w of
        (site_response, w) \<Rightarrow>
          if status_code site_response \<noteq> 200 then (Inl (SiteError (status_code site_response)), w)
          else
            (case json_body site_response of
               SiteInfo (Some site_url) (Some site_id) \<Rightarrow>
                 if site_url = [] \<or> site_id = [] then (Inl NoSite, w)
                 else
                   (case send srv (GetDrives site_id) w of
                      (drive_response, w) \<Rightarrow>
                        if status_code drive_response \<noteq> 200 then
                          (Inl (DrivesError (status_code drive_response)), w)
                        else
                          (case json_body drive_response of
                             DriveList [] \<Rightarrow> (Inl NoDrives, w)
                           | DriveList (drive_id # _) \<Rightarrow>
                               (let safe_filename = teams_sanitize_filename filename';
                                    file_to_upload = safe_filename
                                in case send srv (ProbeByName drive_id folder file_to_upload) w of
                                     (check_response, w) \<Rightarrow>
                                       (if status_code check_response = 200 then
                                          (case json_body check_response of
                                             ItemList items \<Rightarrow>
                                               transfer srv drive_id folder file_to_upload
                                                 (truthy_id items) file_data w
                                           | _ \<Rightarrow> (Inl UploadException, w))
                                        else
                                          transfer srv drive_id folder file_to_upload None
                                            file_data w))
                           | _ \<Rightarrow> (Inl UploadException, w)))
             | SiteInfo _ _ \<Rightarrow> (Inl NoSite, w)
             | _ \<Rightarrow> (Inl UploadException, w)))"

definition before_truncation :: "string \<Rightarrow> string" where
  \<comment> \<open>the name after the first three steps of \<open>teams_component.sanitize_filename\<close>\<close>
  "before_truncation s =
     dropWhile (\<lambda>c. c = CHR ''.'')
       (strip (re_sub_class sharepoint_invalid_chars (CHR ''_'') s))"

fun named :: "request \<Rightarrow> string option" where
  \<comment> \<open>the file name a request carries, if it carries one\<close>
  "named (ProbeByName drive folder name) = Some name"
| "named (PutContentByPath drive folder name file_data) = Some name"
| "named (CreateSessionByPath drive folder name behaviour) = Some name"
| "named rq = None"

subsection \<open>The byte ranges of a chunked transfer, as the specification words them\<close>

definition content_ranges :: "nat \<Rightarrow> (nat \<times> nat) list" where
  \<comment> \<open>the first and the last byte of every range of \<open>chunk_size\<close> bytes, the last range
      ending with the payload\<close>
  "content_ranges total_size =
     map (\<lambda>i. (i * chunk_size, min ((i + 1) * chunk_size) total_size - 1))
       [0 ..< (total_size + chunk_size - 1) div chunk_size]"

definition chunk_request :: "string \<Rightarrow> bytes \<Rightarrow> nat \<times> nat \<Rightarrow> request" where
  \<comment> \<open>the request that carries the bytes of one range and the descriptor
      \<open>bytes start-end/total\<close>\<close>
  "chunk_request upload_url file_data r =
     PutChunk upload_url (fst r) (snd r) (length file_data)
       (take (snd r + 1 - fst r) (drop (fst r) file_data))"

fun session_request :: "string \<Rightarrow> string \<Rightarrow> string \<Rightarrow> string option \<Rightarrow> request" where
  \<comment> \<open>the request that opens the upload session, on the existing item or by path\<close>
  "session_request drive folder name (Some item) = CreateSessionById drive item ''replace''"
| "session_request drive folder name None = CreateSessionByPath drive folder name ''replace''"

fun content_request :: "string \<Rightarrow> string \<Rightarrow> string \<Rightarrow> string option \<Rightarrow> bytes \<Rightarrow> request" where
  \<comment> \<open>the single request of a direct upload, on the existing item or by path\<close>
  "content_request drive folder name (Some item) file_data = PutContentById drive item file_data"
| "content_request drive folder name None file_data = PutContentByPath drive folder name file_data"

fun is_write :: "request \<Rightarrow> bool" where
  \<comment> \<open>the requests that create or change something in the store\<close>
  "is_write (GetSite team) = False"
| "is_write (GetDrives site) = False"
| "is_write (ProbeByName drive folder name) = False"
| "is_write rq = True"

definition accepting_server :: "unit server" where
  \<comment> \<open>a store without memory that accepts every request: it finds no item, gives out
      one upload address, and answers a chunk with 202 until the range ends the payload\<close>
  "accepting_server st rq =
     (case rq of
        GetSite team \<Rightarrow>
          (\<lparr>status_code = 200,
            json_body = SiteInfo (Some ''https://contoso.sharepoint.com/sites/finance'')
                          (Some ''site-1'')\<rparr>, ())
      | GetDrives site \<Rightarrow> (\<lparr>status_code = 200, json_body = DriveList [''drive-1'']\<rparr>, ())
      | ProbeByName drive folder name \<Rightarrow> (\<lparr>status_code = 200, json_body = ItemList []\<rparr>, ())
      | PutContentById drive item file_data \<Rightarrow> (\<lparr>status_code = 200, json_body = OtherBody\<rparr>, ())
      | PutContentByPath drive folder name file_data \<Rightarrow>
          (\<lparr>status_code = 201, json_body = OtherBody\<rparr>, ())
      | CreateSessionById drive item behaviour \<Rightarrow>
          (\<lparr>status_code = 200, json_body = UploadSession (Some ''https://upload/1'')\<rparr>, ())
      | CreateSessionByPath drive folder name behaviour \<Rightarrow>
          (\<lparr>status_code = 200, json_body = UploadSession (Some ''https://upload/1'')\<rparr>, ())
      | PutChunk url first_byte last_byte total_size chunk_data \<Rightarrow>
          (\<lparr>status_code = (if last_byte + 1 < total_size then 202 else 201),
            json_body = OtherBody\<rparr>, ()))"

definition no_requests :: "unit world" where
  "no_requests = \<lparr>remote = (), sent = []\<rparr>"

section \<open>teams\_component: the upload batch\<close>

record upload_result =
  uploaded_filename :: string
  uploaded_original_filename :: string
  success :: bool
  error_detail :: "upload_error option"
  target_folder_name :: string
  target_folder_id :: string

definition upload_file ::
  "'st server \<Rightarrow> string \<Rightarrow> string \<Rightarrow> bytes \<Rightarrow> string \<Rightarrow> 'st world \<Rightarrow>
   (upload_error + unit) \<times> 'st world" where
  \<comment> \<open>\<open>upload_file\<close> always uses \<open>upload_with_sharepoint_api\<close> with the folder id\<close>
  "upload_file srv finance_team_id folder file_data name w =
     upload_with_sharepoint_api srv finance_team_id file_data name folder w"

fun upload_loop ::
  "'st server \<Rightarrow> string \<Rightarrow> processed_file list \<Rightarrow> 'st world \<Rightarrow> upload_result list \<Rightarrow>
   upload_result list \<times> 'st world" where
  \<comment> \<open>the \<open>for i, file_info in enumerate(files_to_upload)\<close> loop\<close>
  "upload_loop srv finance_team_id [] w upload_results = (upload_results, w)"
| "upload_loop srv finance_team_id (fi # rest) w upload_results =
     (let original = generated_filename fi;
          target = determine_target_folder original
      in case upload_file srv finance_team_id (folder_id target) (pdf_data fi) original w of
           (upload_outcome, w) \<Rightarrow>
             upload_loop srv finance_team_id rest w
               (upload_results @
                [\<lparr>uploaded_filename = original,
                  uploaded_original_filename = original_filename fi,
                  success = (case upload_outcome of Inr u \<Rightarrow> True | Inl e \<Rightarrow> False),
                  error_detail = (case upload_outcome of Inr u \<Rightarrow> None | Inl e \<Rightarrow> Some e),
                  target_folder_name = folder_name target,
                  target_folder_id = folder_id target\<rparr>]))"

definition upload_files_to_teams ::
  "'st server \<Rightarrow> string + string \<Rightarrow> string \<Rightarrow> processed_file list \<Rightarrow> 'st world \<Rightarrow>
   (upload_result list option \<times> string option) \<times> 'st world" where
  \<comment> \<open>\<open>token\<close> is what \<open>ensure_valid_token\<close> returns, \<open>Inl\<close> its error text; the pair is the
      first two components of the tuple the function returns\<close>
  "upload_files_to_teams srv token finance_team_id files_to_upload w =
     (case token of
        Inl error_text \<Rightarrow> ((None, Some error_text), w)
      | Inr access_token \<Rightarrow>
          (case upload_loop srv finance_team_id files_to_upload w [] of
             (upload_results, w) \<Rightarrow> ((Some upload_results, None), w)))"

subsection \<open>The outcome of a batch, document by document\<close>

definition document_outcome ::
  "(bytes \<Rightarrow> pdf_outcome) \<Rightarrow> (string \<Rightarrow> json option) \<Rightarrow> (nat \<Rightarrow> nat \<Rightarrow> call_outcome) \<Rightarrow>
   string \<Rightarrow> dataframe \<Rightarrow> nat \<times> file_info \<Rightarrow> echeque_error + echeque_result" where
  \<comment> \<open>what \<open>process_echeque\<close> returns for document \<open>i\<close> of the batch, on the table as loaded\<close>
  "document_outcome pdf_to_image loads model key df d =
     fst (process_echeque pdf_to_image loads (model (fst d)) (content (snd d)) key df)"

definition success_records ::
  "(nat \<times> file_info \<Rightarrow> echeque_error + echeque_result) \<Rightarrow> (nat \<times> file_info) list \<Rightarrow>
   processed_file list" where
  \<comment> \<open>one record for every document that was processed, in the order of the input\<close>
  "success_records out ds =
     concat (map (\<lambda>d. case out d of Inr result \<Rightarrow> [add_file_info (snd d) result] | Inl e \<Rightarrow> []) ds)"

definition failure_records ::
  "(nat \<times> file_info \<Rightarrow> echeque_error + echeque_result) \<Rightarrow> (nat \<times> file_info) list \<Rightarrow>
   failure list" where
  \<comment> \<open>one record for every document that failed, in the order of the input\<close>
  "failure_records out ds =
     concat (map (\<lambda>d. case out d of
                          Inl e \<Rightarrow> [\<lparr>failed_filename = filename (snd d), error = e\<rparr>]
                        | Inr result \<Rightarrow> []) ds)"

definition three_files :: "file_info list" where
  \<comment> \<open>a batch of three documents, the second of which is an empty PDF\<close>
  "three_files =
     [\<lparr>filename = ''a.pdf'', content = ''%PDF-a'', email_subject = None, email_date = None\<rparr>,
      \<lparr>filename = ''b.pdf'', content = [], email_subject = None, email_date = None\<rparr>,
      \<lparr>filename = ''c.pdf'', content = ''%PDF-c'', email_subject = Some ''cheque'',
        email_date = None\<rparr>]"

definition renders_nonempty :: "bytes \<Rightarrow> pdf_outcome" where
  \<comment> \<open>a renderer that finds no page in a document without bytes\<close>
  "renders_nonempty pdf = (if pdf = [] then EmptyPdf else Image pdf)"

definition answers_each :: "string \<Rightarrow> nat \<Rightarrow> nat \<Rightarrow> call_outcome" where
  \<comment> \<open>a service that answers every call of every document with the same text\<close>
  "answers_each text i k = Responded text"

definition two_uploads :: "processed_file list" where
  \<comment> \<open>two processed documents, ready for delivery\<close>
  "two_uploads =
     [\<lparr>original_data = [], original_payee = PStr ''AAM Advisory'',
       mapped_payee = PStr ''AAM Advisory'',
       generated_filename = ''000495 WMC-AAM Advisory.pdf'', pdf_data = ''%PDF-a'',
       next_step = PStr ''Process Payment'', original_filename = ''a.pdf'',
       result_email_subject = ''Unknown'', result_email_date = ''Unknown''\<rparr>,
      \<lparr>original_data = [], original_payee = PStr ''Cheung Wilma Veronica'',
       mapped_payee = PStr ''Cheung Wilma Veronica'',
       generated_filename = ''HKD 100671 Cheung Wilma Veronica.pdf'', pdf_data = ''%PDF-c'',
       next_step = PStr ''Process Payment'', original_filename = ''c.pdf'',
       result_email_subject = ''cheque'', result_email_date = ''Unknown''\<rparr>]"

section \<open>The remote document store\<close>

text \<open>
  Modelled from the spec: the remote document store is an external service, of which the
  repository holds the client only. Section 6 of the specification gives the contract the
  delivery depends on: a listing of the children of a folder filtered by exact name, a
  single-shot content write by item id or by folder and name, the creation of an upload
  session with a declared conflict behaviour, and a range-based chunk write against the
  address of a session. The model below is a store that keeps this contract: items with
  an id, a folder, a name and a content, and the sessions that are open.
\<close>

record item =
  item_id :: string
  item_parent :: string
  item_name :: string
  item_content :: bytes




definition at_path :: "string \<Rightarrow> string \<Rightarrow> item \<Rightarrow> bool" where
  "at_path folder name x = (item_parent x = folder \<and> item_name x = name)"



definition put_by_id :: "string \<Rightarrow> bytes \<Rightarrow> item list \<Rightarrow> item list" where
  \<comment> \<open>Modelled from the spec: the content write by item id\<close>
  "put_by_id i file_data xs =
     map (\<lambda>x. if item_id x = i then x\<lparr>item_content := file_data\<rparr> else x) xs"










section \<open>Two more stores, and the uploads of a batch one by one\<close>

definition finding_server :: "unit server" where
  \<comment> \<open>a store without memory that answers as \<open>accepting_server\<close> does, but finds the item
      \<open>item-7\<close> at every name\<close>
  "finding_server st rq =
     (case rq of
        ProbeByName drive folder name \<Rightarrow>
          (\<lparr>status_code = 200, json_body = ItemList [''item-7'']\<rparr>, ())
      | _ \<Rightarrow> accepting_server st rq)"

definition failing_first_server :: "bool server" where
  \<comment> \<open>a store that answers its first request with 503 and every later one as
      \<open>accepting_server\<close> does; its state tells whether it has refused already\<close>
  "failing_first_server refused rq =
     (if refused then (fst (accepting_server () rq), True)
      else (\<lparr>status_code = 503, json_body = OtherBody\<rparr>, True))"

definition delivery ::
  "'st server \<Rightarrow> string \<Rightarrow> processed_file \<Rightarrow> 'st world \<Rightarrow> (upload_error + unit) \<times> 'st world" where
  \<comment> \<open>the upload of one file of a batch: \<open>upload_with_sharepoint_api\<close> on its bytes and its
      generated name, into the folder its name determines\<close>
  "delivery srv finance_team_id fi w =
     upload_with_sharepoint_api srv finance_team_id (pdf_data fi) (generated_filename fi)
       (folder_id (determine_target_folder (generated_filename fi))) w"

definition world_before ::
  "'st server \<Rightarrow> string \<Rightarrow> processed_file list \<Rightarrow> 'st world \<Rightarrow> nat \<Rightarrow> 'st world" where
  \<comment> \<open>the store and the requests sent once the first \<open>i\<close> files of the batch have been
      uploaded, one after the other\<close>
  "world_before srv finance_team_id files_to_upload w i =
     fold (\<lambda>fi w. snd (delivery srv finance_team_id fi w)) (take i files_to_upload) w"

definition upload_record :: "processed_file \<Rightarrow> upload_error + unit \<Rightarrow> upload_result" where
  \<comment> \<open>the record of a file whose upload had the outcome \<open>out\<close>\<close>
  "upload_record fi out =
     \<lparr>uploaded_filename = generated_filename fi,
      uploaded_original_filename = original_filename fi,
      success = (out = Inr ()),
      error_detail = (case out of Inl e \<Rightarrow> Some e | Inr u \<Rightarrow> None),
      target_folder_name = folder_name (determine_target_folder (generated_filename fi)),
      target_folder_id = folder_id (determine_target_folder (generated_filename fi))\<rparr>"

section \<open>Properties of the naming engine\<close>

lemma upper_allow_list:
  "upper ''OFS'' = ''OFS''"
  "upper ''OREANA FINANCIAL SERVICES LIMITED'' = ''OREANA FINANCIAL SERVICES LIMITED''"
  by (simp_all add: upper_def upper_char_def)

lemma generate_filename_template:
  "generate_filename (PStr k) (PStr payer) (PStr payee) (PStr cur) (PBool t) (PBool m) =
     Inr (template (payer_class_of payer) (fee_class_of t m payee) k cur
            (re_sub_class invalid_chars (CHR ''_'') payee))"
  by (auto simp add: generate_filename_def sanitize_filename_def payee_upper_in_allow_list_def
      template_def payer_class_of_def fee_class_of_def upper_allow_list)

text \<open>
  Claim C3 (fee classification). On a record with boolean fee flags the file name is the
  stem of the payer class followed by the suffix of the fee class and \<open>.pdf\<close>, where the
  fee class is Trailer whenever \<open>isTrailerFee\<close> holds, whatever \<open>isManagementFee\<close>
  is; otherwise Management when \<open>isManagementFee\<close> holds and the resolved payee is,
  ignoring case, \<open>OFS\<close> or \<open>OREANA FINANCIAL SERVICES LIMITED\<close>; otherwise none.
  Both flags set gives Trailer, and the management flag with a payee outside the
  allow-list gives no fee class.
\<close>

theorem fee_classification:
  "generate_filename (PStr k) (PStr payer) (PStr payee) (PStr cur) (PBool t) (PBool m) =
     Inr (name_stem (payer_class_of payer) k cur (re_sub_class invalid_chars (CHR ''_'') payee)
          @ fee_suffix (fee_class_of t m payee) @ ''.pdf'')
   \<and> fee_class_of True m payee = Trailer
   \<and> fee_class_of True True payee \<noteq> Management
   \<and> (upper payee \<in> {''OFS'', ''OREANA FINANCIAL SERVICES LIMITED''} \<longrightarrow>
        fee_class_of False True payee = Management)
   \<and> (upper payee \<notin> {''OFS'', ''OREANA FINANCIAL SERVICES LIMITED''} \<longrightarrow>
        fee_class_of False True payee = NoFee)
   \<and> fee_class_of False False payee = NoFee"
  using generate_filename_template [of k payer payee cur t m]
  by (auto simp add: template_def fee_class_of_def upper_allow_list)

theorem fee_classification_witness:
  "generate_filename (PStr ''000495'') (PStr WMC_PAYER) (PStr ''ofs'') (PStr ''HKD'')
       (PBool True) (PBool True) = Inr ''000495 WMC-ofs_T.pdf''
   \<and> upper ''ofs'' \<in> {''OFS'', ''OREANA FINANCIAL SERVICES LIMITED''}
   \<and> fee_class_of False True ''ofs'' = Management"
  using fee_classification [of "''000495''" WMC_PAYER "''ofs''" "''HKD''" True True]
  by (simp add: payer_class_of_def fee_class_of_def re_sub_class_def invalid_chars_def
      upper_def upper_char_def)

text \<open>
  Claim C4 (template selection). The template depends on the payer string and the fee
  class only: payer \<open>WEALTH MANAGEMENT CUBE LIMITED\<close> gives \<open>{keyId} WMC-{payee}\<close>, payer
  \<open>WMC NOMINEE LIMITED-CLIENT TRUST ACCOUNT\<close> gives \<open>{currency} {keyId} {payee}\<close>, any
  other payer gives \<open>{payee}_{keyId}_{currency}\<close>, each followed by the suffix of the fee
  class (\<open>_T\<close>, \<open> MF\<close> or nothing) and \<open>.pdf\<close>, with the sanitized resolved payee for
  \<open>{payee}\<close>. Scenarios A and B of the specification give \<open>000495 WMC-AAM Advisory.pdf\<close>
  and \<open>HKD 100671 Cheung Wilma Veronica.pdf\<close>.
\<close>

theorem template_selection:
  "generate_filename (PStr k) (PStr payer) (PStr payee) (PStr cur) (PBool t) (PBool m) =
     Inr ((if payer = ''WEALTH MANAGEMENT CUBE LIMITED'' then
             k @ '' WMC-'' @ re_sub_class invalid_chars (CHR ''_'') payee
           else if payer = ''WMC NOMINEE LIMITED-CLIENT TRUST ACCOUNT'' then
             cur @ '' '' @ k @ '' '' @ re_sub_class invalid_chars (CHR ''_'') payee
           else
             re_sub_class invalid_chars (CHR ''_'') payee @ ''_'' @ k @ ''_'' @ cur)
          @ (case fee_class_of t m payee of
               NoFee \<Rightarrow> [] | Trailer \<Rightarrow> ''_T'' | Management \<Rightarrow> '' MF'')
          @ ''.pdf'')
   \<and> generate_filename (PStr ''000495'') (PStr ''WEALTH MANAGEMENT CUBE LIMITED'')
         (PStr ''AAM Advisory'') (PStr ''HKD'') (PBool False) (PBool False) =
       Inr ''000495 WMC-AAM Advisory.pdf''
   \<and> generate_filename (PStr ''100671'') (PStr ''WMC NOMINEE LIMITED-CLIENT TRUST ACCOUNT'')
         (PStr ''Cheung Wilma Veronica'') (PStr ''HKD'') (PBool False) (PBool False) =
       Inr ''HKD 100671 Cheung Wilma Veronica.pdf''"
proof -
  have general:
    "generate_filename (PStr k) (PStr payer) (PStr payee) (PStr cur) (PBool t) (PBool m) =
     Inr ((if payer = ''WEALTH MANAGEMENT CUBE LIMITED'' then
             k @ '' WMC-'' @ re_sub_class invalid_chars (CHR ''_'') payee
           else if payer = ''WMC NOMINEE LIMITED-CLIENT TRUST ACCOUNT'' then
             cur @ '' '' @ k @ '' '' @ re_sub_class invalid_chars (CHR ''_'') payee
           else
             re_sub_class invalid_chars (CHR ''_'') payee @ ''_'' @ k @ ''_'' @ cur)
          @ (case fee_class_of t m payee of
               NoFee \<Rightarrow> [] | Trailer \<Rightarrow> ''_T'' | Management \<Rightarrow> '' MF'')
          @ ''.pdf'')"
    by (cases "fee_class_of t m payee")
       (simp_all add: generate_filename_template template_def payer_class_of_def)
  have a: "generate_filename (PStr ''000495'') (PStr ''WEALTH MANAGEMENT CUBE LIMITED'')
         (PStr ''AAM Advisory'') (PStr ''HKD'') (PBool False) (PBool False) =
       Inr ''000495 WMC-AAM Advisory.pdf''"
    by (simp add: generate_filename_def sanitize_filename_def re_sub_class_def
        invalid_chars_def)
  have b: "generate_filename (PStr ''100671'') (PStr ''WMC NOMINEE LIMITED-CLIENT TRUST ACCOUNT'')
         (PStr ''Cheung Wilma Veronica'') (PStr ''HKD'') (PBool False) (PBool False) =
       Inr ''HKD 100671 Cheung Wilma Veronica.pdf''"
    by (simp add: generate_filename_def sanitize_filename_def re_sub_class_def
        invalid_chars_def)
  from general a b show ?thesis by blast
qed

theorem template_selection_witness:
  "generate_filename (PStr ''000495'') (PStr ''ACME'') (PStr ''A/B'') (PStr ''USD'')
       (PBool False) (PBool True) = Inr ''A_B_000495_USD.pdf''"
  using template_selection [of "''000495''" "''ACME''" "''A/B''" "''USD''" False True]
  by (simp add: fee_class_of_def re_sub_class_def invalid_chars_def upper_def upper_char_def)

section \<open>Properties of the retry controller\<close>

lemma retrying_general:
  "n \<le> MAX_RETRIES \<Longrightarrow>
   (let r = retrying model n d in
       n \<le> attempt_number r \<and> attempt_number r \<le> MAX_RETRIES
       \<and> slept r = d @ map (wait_exponential INITIAL_WAIT MAX_WAIT) [n ..< attempt_number r]
       \<and> outcome r = attempt (model (attempt_number r))
       \<and> (\<forall>k. n \<le> k \<and> k < attempt_number r \<longrightarrow> rate_limited (model k))
       \<and> (rate_limited (model (attempt_number r)) \<longrightarrow> attempt_number r = MAX_RETRIES))"
  unfolding Let_def
proof (induction model n d rule: retrying.induct)
  case (1 model n delays)
  show ?case
  proof (cases "rate_limited (model n) \<and> n < MAX_RETRIES")
    case False
    then have "retrying model n delays =
        \<lparr>outcome = attempt (model n), attempt_number = n, slept = delays\<rparr>"
      using "1.prems"
      by (subst retrying.simps) (auto simp: rate_limited_def split: sum.splits)
    then show ?thesis using False "1.prems" by auto
  next
    case True
    then obtain e where e: "attempt (model n) = Inl e" "is_APIRateLimitError e"
      by (auto simp: rate_limited_def split: sum.splits)
    have step: "retrying model n delays =
        retrying model (n + 1) (delays @ [wait_exponential INITIAL_WAIT MAX_WAIT n])"
      using True e by (subst retrying.simps) simp
    have ih: "n + 1 \<le> attempt_number (retrying model (n + 1) (delays @ [wait_exponential INITIAL_WAIT MAX_WAIT n])) \<and>
      attempt_number (retrying model (n + 1) (delays @ [wait_exponential INITIAL_WAIT MAX_WAIT n])) \<le> MAX_RETRIES \<and>
      slept (retrying model (n + 1) (delays @ [wait_exponential INITIAL_WAIT MAX_WAIT n])) =
        (delays @ [wait_exponential INITIAL_WAIT MAX_WAIT n]) @ map (wait_exponential INITIAL_WAIT MAX_WAIT)
          [n + 1 ..< attempt_number (retrying model (n + 1) (delays @ [wait_exponential INITIAL_WAIT MAX_WAIT n]))] \<and>
      outcome (retrying model (n + 1) (delays @ [wait_exponential INITIAL_WAIT MAX_WAIT n])) =
        attempt (model (attempt_number (retrying model (n + 1) (delays @ [wait_exponential INITIAL_WAIT MAX_WAIT n])))) \<and>
      (\<forall>k. n + 1 \<le> k \<and> k < attempt_number (retrying model (n + 1) (delays @ [wait_exponential INITIAL_WAIT MAX_WAIT n])) \<longrightarrow> rate_limited (model k)) \<and>
      (rate_limited (model (attempt_number (retrying model (n + 1) (delays @ [wait_exponential INITIAL_WAIT MAX_WAIT n])))) \<longrightarrow>
         attempt_number (retrying model (n + 1) (delays @ [wait_exponential INITIAL_WAIT MAX_WAIT n])) = MAX_RETRIES)"
      using "1.IH"[OF e(1)] e(2) True by simp
    define j where "j = attempt_number (retrying model (n + 1) (delays @ [wait_exponential INITIAL_WAIT MAX_WAIT n]))"
    have nj: "n < j" using ih by (simp add: j_def)
    have upt: "[n ..< j] = n # [n + 1 ..< j]" using nj by (simp add: upt_conv_Cons)
    have cover: "\<forall>k. n \<le> k \<and> k < j \<longrightarrow> rate_limited (model k)"
    proof (intro allI impI)
      fix k assume k: "n \<le> k \<and> k < j"
      show "rate_limited (model k)"
      proof (cases "k = n")
        case True with \<open>rate_limited (model n) \<and> n < MAX_RETRIES\<close> show ?thesis by simp
      next
        case False
        with k have "n + 1 \<le> k \<and> k < j" by simp
        with ih show ?thesis by (simp add: j_def)
      qed
    qed
    show ?thesis
      unfolding step using ih nj upt cover unfolding j_def[symmetric] by simp
  qed
qed


lemma rate_limited_iff:
  "rate_limited oc \<longleftrightarrow> (oc = FalsyResponse \<or> (\<exists>m. oc = Raised m \<and> str_contains ''429'' m))"
  by (cases oc) (auto simp: rate_limited_def attempt_def except_handler_def)

lemma rate_limited_attempt:
  "rate_limited oc \<longleftrightarrow> (\<exists>m. attempt oc = Inl (APIRateLimitError m))"
proof -
  have "is_APIRateLimitError e \<longleftrightarrow> (\<exists>m. e = APIRateLimitError m)" for e
    by (cases e) auto
  then show ?thesis
    by (cases "attempt oc") (auto simp: rate_limited_def)
qed

lemma four_delays: "map (\<lambda>k. min (2 ^ (k - 1)) (32::nat)) [1 ..< 5] = [1, 2, 4, 8]"
  by code_simp

lemma retry_summary:
  "(let r = call_gemini_api_with_retry model in
       1 \<le> attempt_number r \<and> attempt_number r \<le> 5
       \<and> slept r = map (\<lambda>k. min (2 ^ (k - 1)) 32) [1 ..< attempt_number r]
       \<and> outcome r = attempt (model (attempt_number r))
       \<and> (\<forall>k. 1 \<le> k \<and> k < attempt_number r \<longrightarrow> rate_limited (model k))
       \<and> (rate_limited (model (attempt_number r)) \<longrightarrow> attempt_number r = 5))"
  using retrying_general [of 1 model "[]"]
  by (simp add: call_gemini_api_with_retry_def Let_def MAX_RETRIES_def wait_exponential_def
      INITIAL_WAIT_def MAX_WAIT_def)

lemma retry_exhausted:
  assumes "\<forall>k. 1 \<le> k \<and> k \<le> 5 \<longrightarrow> rate_limited (model k)"
  shows "attempt_number (call_gemini_api_with_retry model) = 5"
    and "slept (call_gemini_api_with_retry model) = [1, 2, 4, 8]"
    and "outcome (call_gemini_api_with_retry model) = attempt (model 5)"
proof -
  define a where "a = attempt_number (call_gemini_api_with_retry model)"
  have s: "1 \<le> a" "a \<le> 5" "rate_limited (model a) \<longrightarrow> a = 5"
    "slept (call_gemini_api_with_retry model) = map (\<lambda>k. min (2 ^ (k - 1)) 32) [1 ..< a]"
    "outcome (call_gemini_api_with_retry model) = attempt (model a)"
    using retry_summary [of model] by (simp_all add: Let_def a_def)
  from s(1,2) assms have "rate_limited (model a)" by blast
  with s(3) have a5: "a = 5" by simp
  show "attempt_number (call_gemini_api_with_retry model) = 5" using a5 by (simp add: a_def)
  show "slept (call_gemini_api_with_retry model) = [1, 2, 4, 8]"
    using s(4) a5 four_delays by simp
  show "outcome (call_gemini_api_with_retry model) = attempt (model 5)"
    using s(5) a5 by simp
qed

lemma retry_stops_at:
  assumes "1 \<le> j" "j \<le> 5" "\<forall>k. 1 \<le> k \<and> k < j \<longrightarrow> rate_limited (model k)"
    "\<not> rate_limited (model j)"
  shows "attempt_number (call_gemini_api_with_retry model) = j"
    and "outcome (call_gemini_api_with_retry model) = attempt (model j)"
    and "slept (call_gemini_api_with_retry model) = map (\<lambda>k. min (2 ^ (k - 1)) 32) [1 ..< j]"
proof -
  define a where "a = attempt_number (call_gemini_api_with_retry model)"
  have s: "1 \<le> a" "a \<le> 5" "rate_limited (model a) \<longrightarrow> a = 5"
    "\<forall>k. 1 \<le> k \<and> k < a \<longrightarrow> rate_limited (model k)"
    "slept (call_gemini_api_with_retry model) = map (\<lambda>k. min (2 ^ (k - 1)) 32) [1 ..< a]"
    "outcome (call_gemini_api_with_retry model) = attempt (model a)"
    using retry_summary [of model] by (simp_all add: Let_def a_def)
  have "\<not> a < j"
  proof
    assume "a < j"
    with assms(3) s(1) have "rate_limited (model a)" by blast
    with s(3) have "a = 5" by simp
    with \<open>a < j\<close> assms(2) show False by simp
  qed
  moreover have "\<not> j < a"
  proof
    assume "j < a"
    with s(4) assms(1) have "rate_limited (model j)" by blast
    with assms(4) show False by simp
  qed
  ultimately have aj: "a = j" by simp
  show "attempt_number (call_gemini_api_with_retry model) = j" using aj by (simp add: a_def)
  show "outcome (call_gemini_api_with_retry model) = attempt (model j)" using s(6) aj by simp
  show "slept (call_gemini_api_with_retry model) = map (\<lambda>k. min (2 ^ (k - 1)) 32) [1 ..< j]"
    using s(5) aj by simp
qed

lemma exhausted_message:
  assumes "\<forall>k. 1 \<le> k \<and> k \<le> 5 \<longrightarrow> rate_limited (model k)" "key \<noteq> []"
  shows "\<exists>m. attempt (model 5) = Inl (APIRateLimitError m) \<and>
           call_gemini_api model key =
             Inl (''Rate limit error after 5 retries. Last error: '' @ m
                  @ ''. Please wait a few minutes before trying again.'')"
proof -
  from assms(1) have "rate_limited (model 5)" by simp
  then obtain m where m: "attempt (model 5) = Inl (APIRateLimitError m)"
    using rate_limited_attempt by blast
  have "call_gemini_api model key =
             Inl (''Rate limit error after 5 retries. Last error: '' @ m
                  @ ''. Please wait a few minutes before trying again.'')"
    using retry_exhausted(3) [OF assms(1)] m assms(2) by (simp add: call_gemini_api_def)
  with m show ?thesis by blast
qed

lemma always_429_rate_limited: "rate_limited (always_429 k)"
  by (simp add: rate_limited_iff always_429_def)


text \<open>
  Claim C5 (retry controller), as amended. An attempt is rate-limited exactly when the
  call raised an exception whose text contains \<open>429\<close> or returned a falsy (empty)
  response, and only such attempts are followed by another one. The controller makes at
  most 5 attempts; after the failed attempt \<open>k < 5\<close> it sleeps \<open>min (2 ^ (k - 1)) 32\<close>
  time units, and it does not sleep after the attempt it returns from. When every attempt
  is rate-limited exactly 5 attempts are made, with the four delays 1, 2, 4, 8 between
  them, the error of the fifth attempt is raised, and \<open>call_gemini_api\<close> returns the
  rate-limit text that quotes it. The first attempt that is not rate-limited, a success
  or any other error, ends the call with that attempt's outcome.
\<close>

theorem retry_controller:
  "(rate_limited oc \<longleftrightarrow> (\<exists>m. attempt oc = Inl (APIRateLimitError m)))
   \<and> (rate_limited oc \<longleftrightarrow>
        (oc = FalsyResponse \<or> (\<exists>m. oc = Raised m \<and> str_contains ''429'' m)))
   \<and> (let r = call_gemini_api_with_retry model in
         1 \<le> attempt_number r \<and> attempt_number r \<le> 5
         \<and> slept r = map (\<lambda>k. min (2 ^ (k - 1)) 32) [1 ..< attempt_number r]
         \<and> outcome r = attempt (model (attempt_number r))
         \<and> (\<forall>k. 1 \<le> k \<and> k < attempt_number r \<longrightarrow> rate_limited (model k))
         \<and> (rate_limited (model (attempt_number r)) \<longrightarrow> attempt_number r = 5))
   \<and> ((\<forall>k. 1 \<le> k \<and> k \<le> 5 \<longrightarrow> rate_limited (model k)) \<longrightarrow>
         attempt_number (call_gemini_api_with_retry model) = 5
         \<and> slept (call_gemini_api_with_retry model) = [1, 2, 4, 8]
         \<and> outcome (call_gemini_api_with_retry model) = attempt (model 5)
         \<and> (key \<noteq> [] \<longrightarrow>
              (\<exists>m. attempt (model 5) = Inl (APIRateLimitError m) \<and>
                   call_gemini_api model key =
                     Inl (''Rate limit error after 5 retries. Last error: '' @ m
                          @ ''. Please wait a few minutes before trying again.''))))
   \<and> (\<forall>j. 1 \<le> j \<and> j \<le> 5 \<and> (\<forall>k. 1 \<le> k \<and> k < j \<longrightarrow> rate_limited (model k))
            \<and> \<not> rate_limited (model j) \<longrightarrow>
         attempt_number (call_gemini_api_with_retry model) = j
         \<and> outcome (call_gemini_api_with_retry model) = attempt (model j)
         \<and> slept (call_gemini_api_with_retry model) =
             map (\<lambda>k. min (2 ^ (k - 1)) 32) [1 ..< j])"
proof (intro conjI)
  show "rate_limited oc \<longleftrightarrow> (\<exists>m. attempt oc = Inl (APIRateLimitError m))"
    by (rule rate_limited_attempt)
  show "rate_limited oc \<longleftrightarrow>
        (oc = FalsyResponse \<or> (\<exists>m. oc = Raised m \<and> str_contains ''429'' m))"
    by (rule rate_limited_iff)
  show "let r = call_gemini_api_with_retry model in
         1 \<le> attempt_number r \<and> attempt_number r \<le> 5
         \<and> slept r = map (\<lambda>k. min (2 ^ (k - 1)) 32) [1 ..< attempt_number r]
         \<and> outcome r = attempt (model (attempt_number r))
         \<and> (\<forall>k. 1 \<le> k \<and> k < attempt_number r \<longrightarrow> rate_limited (model k))
         \<and> (rate_limited (model (attempt_number r)) \<longrightarrow> attempt_number r = 5)"
    by (rule retry_summary)
  show "(\<forall>k. 1 \<le> k \<and> k \<le> 5 \<longrightarrow> rate_limited (model k)) \<longrightarrow>
         attempt_number (call_gemini_api_with_retry model) = 5
         \<and> slept (call_gemini_api_with_retry model) = [1, 2, 4, 8]
         \<and> outcome (call_gemini_api_with_retry model) = attempt (model 5)
         \<and> (key \<noteq> [] \<longrightarrow>
              (\<exists>m. attempt (model 5) = Inl (APIRateLimitError m) \<and>
                   call_gemini_api model key =
                     Inl (''Rate limit error after 5 retries. Last error: '' @ m
                          @ ''. Please wait a few minutes before trying again.'')))"
    using retry_exhausted [of model] exhausted_message [of model key] by blast
  show "\<forall>j. 1 \<le> j \<and> j \<le> 5 \<and> (\<forall>k. 1 \<le> k \<and> k < j \<longrightarrow> rate_limited (model k))
            \<and> \<not> rate_limited (model j) \<longrightarrow>
         attempt_number (call_gemini_api_with_retry model) = j
         \<and> outcome (call_gemini_api_with_retry model) = attempt (model j)
         \<and> slept (call_gemini_api_with_retry model) =
             map (\<lambda>k. min (2 ^ (k - 1)) 32) [1 ..< j]"
    using retry_stops_at [of _ model] by blast
qed

theorem retry_controller_witness:
  "(\<forall>k. rate_limited (always_429 k))
   \<and> attempt_number (call_gemini_api_with_retry always_429) = 5
   \<and> slept (call_gemini_api_with_retry always_429) = [1, 2, 4, 8]
   \<and> call_gemini_api always_429 ''key'' =
       Inl (''Rate limit error after 5 retries. Last error: ''
            @ ''Rate limit exceeded: 429 Too Many Requests''
            @ ''. Please wait a few minutes before trying again.'')
   \<and> \<not> rate_limited (fatal_at_3 3)
   \<and> attempt_number (call_gemini_api_with_retry fatal_at_3) = 3
   \<and> slept (call_gemini_api_with_retry fatal_at_3) = [1, 2]
   \<and> outcome (call_gemini_api_with_retry fatal_at_3) =
       Inl (OtherException ''500 Internal Server Error'')"
proof -
  have a: "\<forall>k. rate_limited (always_429 k)"
    by (simp add: always_429_rate_limited)
  have a5: "attempt (always_429 5) =
      Inl (APIRateLimitError ''Rate limit exceeded: 429 Too Many Requests'')"
    by (simp add: always_429_def attempt_def except_handler_def)
  have f: "\<forall>k. 1 \<le> k \<and> k < 3 \<longrightarrow> rate_limited (fatal_at_3 k)" "\<not> rate_limited (fatal_at_3 3)"
    by (simp_all add: rate_limited_iff fatal_at_3_def)
  have f3: "attempt (fatal_at_3 3) = Inl (OtherException ''500 Internal Server Error'')"
    by (simp add: fatal_at_3_def attempt_def except_handler_def)
  have d: "map (\<lambda>k. min (2 ^ (k - 1)) (32::nat)) [1 ..< 3] = [1, 2]"
    by code_simp
  have all: "(\<forall>k. 1 \<le> k \<and> k \<le> 5 \<longrightarrow> rate_limited (always_429 k)) \<longrightarrow>
         attempt_number (call_gemini_api_with_retry always_429) = 5
         \<and> slept (call_gemini_api_with_retry always_429) = [1, 2, 4, 8]
         \<and> outcome (call_gemini_api_with_retry always_429) = attempt (always_429 5)
         \<and> (''key'' \<noteq> [] \<longrightarrow>
              (\<exists>m. attempt (always_429 5) = Inl (APIRateLimitError m) \<and>
                   call_gemini_api always_429 ''key'' =
                     Inl (''Rate limit error after 5 retries. Last error: '' @ m
                          @ ''. Please wait a few minutes before trying again.'')))"
    using retry_controller [of FalsyResponse always_429 "''key''"] by blast
  have one: "\<forall>j. 1 \<le> j \<and> j \<le> 5 \<and> (\<forall>k. 1 \<le> k \<and> k < j \<longrightarrow> rate_limited (fatal_at_3 k))
            \<and> \<not> rate_limited (fatal_at_3 j) \<longrightarrow>
         attempt_number (call_gemini_api_with_retry fatal_at_3) = j
         \<and> outcome (call_gemini_api_with_retry fatal_at_3) = attempt (fatal_at_3 j)
         \<and> slept (call_gemini_api_with_retry fatal_at_3) =
             map (\<lambda>k. min (2 ^ (k - 1)) 32) [1 ..< j]"
    using retry_controller [of FalsyResponse fatal_at_3 "''key''"] by blast
  from all a have p: "attempt_number (call_gemini_api_with_retry always_429) = 5"
    "slept (call_gemini_api_with_retry always_429) = [1, 2, 4, 8]"
    "\<exists>m. attempt (always_429 5) = Inl (APIRateLimitError m) \<and>
                   call_gemini_api always_429 ''key'' =
                     Inl (''Rate limit error after 5 retries. Last error: '' @ m
                          @ ''. Please wait a few minutes before trying again.'')"
    by simp_all
  from p(3) a5 have q: "call_gemini_api always_429 ''key'' =
       Inl (''Rate limit error after 5 retries. Last error: ''
            @ ''Rate limit exceeded: 429 Too Many Requests''
            @ ''. Please wait a few minutes before trying again.'')"
    by auto
  have "1 \<le> (3::nat) \<and> (3::nat) \<le> 5 \<and> (\<forall>k. 1 \<le> k \<and> k < 3 \<longrightarrow> rate_limited (fatal_at_3 k))
            \<and> \<not> rate_limited (fatal_at_3 3)"
    using f by simp
  with one have r: "attempt_number (call_gemini_api_with_retry fatal_at_3) = 3
         \<and> outcome (call_gemini_api_with_retry fatal_at_3) = attempt (fatal_at_3 3)
         \<and> slept (call_gemini_api_with_retry fatal_at_3) =
             map (\<lambda>k. min (2 ^ (k - 1)) 32) [1 ..< 3]"
    by blast
  show ?thesis
    using a p(1,2) q f(2) r f3 d by simp
qed

text \<open>
  Claim C5 as stated fails: with HTTP 429 at every attempt the five attempts are separated
  by four delays, 1, 2, 4 and 8 (15 time units in all); no fifth delay of 16 follows.
\<close>

theorem retry_delays_counterexample:
  "attempt_number (call_gemini_api_with_retry always_429) = 5
   \<and> slept (call_gemini_api_with_retry always_429) = [1, 2, 4, 8]
   \<and> slept (call_gemini_api_with_retry always_429) \<noteq> [1, 2, 4, 8, 16]
   \<and> sum_list (slept (call_gemini_api_with_retry always_429)) \<noteq> 1 + 2 + 4 + 8 + 16"
  using retry_exhausted [of always_429] always_429_rate_limited by simp

section \<open>Properties of the required-field gate\<close>

lemma field_in_object: "field_in f (JObject kvs) = Inr (f \<in> fst ` set kvs)"
  by (simp add: map_of_eq_None_iff)

lemma all_fields_in_object:
  "all_fields_in fs (JObject kvs) = Inr (set fs \<subseteq> fst ` set kvs)"
  by (induction fs) (auto simp: map_of_eq_None_iff split: bool.splits)

lemma all_fields_in_array: "\<exists>b. all_fields_in fs (JArray xs) = Inr b"
  by (induction fs) (auto split: bool.splits)

lemma all_fields_in_string: "\<exists>b. all_fields_in fs (JString s) = Inr b"
  by (induction fs) (auto split: bool.splits)

lemma all_fields_in_scalar: "all_fields_in required_fields JScalar = Inl TypeError"
  by (simp add: required_fields_def)

lemma missing_fields_object:
  "missing_fields (JObject kvs) = filter (\<lambda>f. f \<notin> fst ` set kvs) required_fields"
  by (simp add: missing_fields_def map_of_eq_None_iff)

lemma not_object_error:
  assumes "loads (clean_response raw) = Some j" "\<forall>kvs. j \<noteq> JObject kvs"
  shows "\<exists>e. process_response loads raw pdf df = (Inl e, df)"
proof (cases j)
  case (JObject kvs)
  with assms(2) show ?thesis by simp
next
  case (JArray xs)
  obtain b where "all_fields_in required_fields (JArray xs) = Inr b"
    using all_fields_in_array by blast
  with assms(1) JArray show ?thesis
    by (cases b) (simp_all add: process_response_def)
next
  case (JString s)
  obtain b where "all_fields_in required_fields (JString s) = Inr b"
    using all_fields_in_string by blast
  with assms(1) JString show ?thesis
    by (cases b) (simp_all add: process_response_def)
next
  case JScalar
  with assms(1) show ?thesis
    by (simp add: process_response_def all_fields_in_scalar)
qed

lemma clean_response_fenced:
  "strip raw = ''```json'' @ body @ ''```'' \<Longrightarrow> clean_response raw = body"
  by (simp add: clean_response_def Let_def)

lemma strip_id: "s \<noteq> [] \<Longrightarrow> \<not> is_space (hd s) \<Longrightarrow> \<not> is_space (last s) \<Longrightarrow> strip s = s"
proof -
  assume a: "s \<noteq> []" "\<not> is_space (hd s)" "\<not> is_space (last s)"
  then have 1: "dropWhile is_space s = s" by (cases s) auto
  from a have "rev s \<noteq> []" "\<not> is_space (hd (rev s))" by (simp_all add: hd_rev)
  then have "dropWhile is_space (rev s) = rev s" by (cases "rev s") auto
  with 1 show ?thesis by (simp add: strip_def)
qed

lemma call_answers: "key \<noteq> [] \<Longrightarrow> call_gemini_api (answers text) key = Inr (strip text)"
  by (simp add: call_gemini_api_def call_gemini_api_with_retry_def retrying.simps attempt_def
      answers_def)


lemma process_echeque_response:
  "pdf_to_image pdf = Image img \<Longrightarrow> call_gemini_api model key = Inr raw \<Longrightarrow>
   process_echeque pdf_to_image loads model pdf key df = process_response loads raw pdf df"
  by (simp add: process_echeque_def)

lemma missing_fields_error:
  assumes "loads (clean_response raw) = Some (JObject kvs)" "\<not> set required_fields \<subseteq> fst ` set kvs"
  shows "process_response loads raw pdf df =
      (Inl (Message (''Missing required fields in API response: ''
                     @ join '', '' (filter (\<lambda>f. f \<notin> fst ` set kvs) required_fields))), df)"
  using assms by (simp add: process_response_def all_fields_in_object missing_fields_object)

text \<open>
  Claim C6 (required-field gate), as amended. When \<open>json.loads\<close> fails on the response
  (after the fence of a \<open>```json\<close> block has been cut off) \<open>process_echeque\<close> returns the
  parse error; when the parsed value is an object that lacks any of \<open>date\<close>, \<open>payee\<close>,
  \<open>key_identifier\<close>, \<open>payer\<close>, \<open>currency\<close>, \<open>is_trailer_fee\<close>, \<open>is_management_fee\<close> it
  returns the missing-fields error that lists exactly the missing ones, in that order;
  when the parsed value is not an object it returns an error as well. In each case no
  result record is produced and the alias table is returned untouched: the lookup and
  the naming are not reached.
\<close>

theorem required_field_gate:
  "(pdf_to_image pdf = Image img \<and> call_gemini_api model key = Inr raw \<longrightarrow>
      process_echeque pdf_to_image loads model pdf key df = process_response loads raw pdf df)
   \<and> (strip raw = ''```json'' @ body @ ''```'' \<longrightarrow> clean_response raw = body)
   \<and> (loads (clean_response raw) = None \<longrightarrow>
        process_response loads raw pdf df = (Inl JSONDecodeError, df))
   \<and> (\<forall>kvs. loads (clean_response raw) = Some (JObject kvs)
              \<and> \<not> set [''date'', ''payee'', ''key_identifier'', ''payer'', ''currency'',
                         ''is_trailer_fee'', ''is_management_fee''] \<subseteq> fst ` set kvs \<longrightarrow>
        process_response loads raw pdf df =
          (Inl (Message (''Missing required fields in API response: ''
                 @ join '', '' (filter (\<lambda>f. f \<notin> fst ` set kvs)
                     [''date'', ''payee'', ''key_identifier'', ''payer'', ''currency'',
                      ''is_trailer_fee'', ''is_management_fee'']))), df))
   \<and> (\<forall>j. loads (clean_response raw) = Some j \<and> (\<forall>kvs. j \<noteq> JObject kvs) \<longrightarrow>
        (\<exists>e. process_response loads raw pdf df = (Inl e, df)))"
proof (intro conjI allI impI)
  show "process_echeque pdf_to_image loads model pdf key df = process_response loads raw pdf df"
    if "pdf_to_image pdf = Image img \<and> call_gemini_api model key = Inr raw"
    using that process_echeque_response by blast
  show "clean_response raw = body" if "strip raw = ''```json'' @ body @ ''```''"
    using that by (rule clean_response_fenced)
  show "process_response loads raw pdf df = (Inl JSONDecodeError, df)"
    if "loads (clean_response raw) = None"
    using that by (simp add: process_response_def)
  show "process_response loads raw pdf df =
          (Inl (Message (''Missing required fields in API response: ''
                 @ join '', '' (filter (\<lambda>f. f \<notin> fst ` set kvs)
                     [''date'', ''payee'', ''key_identifier'', ''payer'', ''currency'',
                      ''is_trailer_fee'', ''is_management_fee'']))), df)"
    if "loads (clean_response raw) = Some (JObject kvs)
              \<and> \<not> set [''date'', ''payee'', ''key_identifier'', ''payer'', ''currency'',
                         ''is_trailer_fee'', ''is_management_fee''] \<subseteq> fst ` set kvs" for kvs
    using that missing_fields_error [of loads raw kvs pdf df]
    unfolding required_fields_def by blast
  show "\<exists>e. process_response loads raw pdf df = (Inl e, df)"
    if "loads (clean_response raw) = Some j \<and> (\<forall>kvs. j \<noteq> JObject kvs)" for j
    using that not_object_error by blast
qed

lemma body_without_key_identifier_ends:
  "body_without_key_identifier \<noteq> []" "hd body_without_key_identifier = CHR ''{''"
  "last body_without_key_identifier = CHR ''}''"
  by (simp_all add: body_without_key_identifier_def quoted_def)

lemma strip_response_without_key_identifier:
  "strip response_without_key_identifier = response_without_key_identifier"
  by (rule strip_id) (simp_all add: response_without_key_identifier_def is_space_def)

lemma loads_body_without_key_identifier:
  "loads_responses body_without_key_identifier = Some (JObject fields_without_key_identifier)"
  by (simp add: loads_responses_def body_without_key_identifier_def
      response_without_next_step_def quoted_def)

theorem required_field_gate_witness:
  "renders ''%PDF'' = Image ''%PDF''
   \<and> call_gemini_api (answers response_without_key_identifier) ''key'' =
       Inr response_without_key_identifier
   \<and> strip response_without_key_identifier = ''```json'' @ body_without_key_identifier @ ''```''
   \<and> loads_responses body_without_key_identifier = Some (JObject fields_without_key_identifier)
   \<and> process_echeque renders loads_responses (answers response_without_key_identifier)
         ''%PDF'' ''key'' one_row_table =
       (Inl (Message ''Missing required fields in API response: key_identifier''), one_row_table)"
proof -
  have 1: "renders ''%PDF'' = Image ''%PDF''" by (simp add: renders_def)
  have 2: "call_gemini_api (answers response_without_key_identifier) ''key'' =
       Inr response_without_key_identifier"
    by (simp add: call_answers strip_response_without_key_identifier)
  have 3: "strip response_without_key_identifier =
       ''```json'' @ body_without_key_identifier @ ''```''"
    using strip_response_without_key_identifier
    by (simp add: response_without_key_identifier_def)
  note g = required_field_gate [of renders "''%PDF''" "''%PDF''"
      "answers response_without_key_identifier" "''key''" response_without_key_identifier
      loads_responses one_row_table body_without_key_identifier]
  from g 1 2 have 4: "process_echeque renders loads_responses
        (answers response_without_key_identifier) ''%PDF'' ''key'' one_row_table =
      process_response loads_responses response_without_key_identifier ''%PDF'' one_row_table"
    by blast
  from g 3 have 5: "clean_response response_without_key_identifier = body_without_key_identifier"
    by blast
  have 6: "\<not> set [''date'', ''payee'', ''key_identifier'', ''payer'', ''currency'',
                         ''is_trailer_fee'', ''is_management_fee'']
         \<subseteq> fst ` set fields_without_key_identifier"
    by (simp add: fields_without_key_identifier_def)
  have 7: "filter (\<lambda>f. f \<notin> fst ` set fields_without_key_identifier)
                     [''date'', ''payee'', ''key_identifier'', ''payer'', ''currency'',
                      ''is_trailer_fee'', ''is_management_fee''] = [''key_identifier'']"
    by (simp add: fields_without_key_identifier_def)
  from g 5 6 loads_body_without_key_identifier
  have "process_response loads_responses response_without_key_identifier ''%PDF'' one_row_table =
          (Inl (Message (''Missing required fields in API response: ''
                 @ join '', '' (filter (\<lambda>f. f \<notin> fst ` set fields_without_key_identifier)
                     [''date'', ''payee'', ''key_identifier'', ''payer'', ''currency'',
                      ''is_trailer_fee'', ''is_management_fee'']))), one_row_table)"
    by simp
  with 7 have 8: "process_response loads_responses response_without_key_identifier ''%PDF''
        one_row_table =
      (Inl (Message ''Missing required fields in API response: key_identifier''), one_row_table)"
    by simp
  from 1 2 3 loads_body_without_key_identifier 4 8 show ?thesis by simp
qed

section \<open>Properties of the payee lookup\<close>

lemma filter_zip_map:
  "filter (\<lambda>(r, n). n = k) (zip xs (map f xs)) = map (\<lambda>r. (r, f r)) (filter (\<lambda>r. f r = k) xs)"
  by (induction xs) auto

lemma find_as_filter: "find P xs = (case filter P xs of [] \<Rightarrow> None | x # _ \<Rightarrow> Some x)"
  by (induction xs) auto

lemma get_payee_shortform_str:
  "get_payee_shortform (PStr p) df =
     (Inr (PStr (case alias_lookup (rows df) p of Some short \<Rightarrow> short | None \<Rightarrow> p)),
      if rows df = [] then df
      else df\<lparr>standardized_name := Some (map (\<lambda>r. normalized_key (full_name r)) (rows df))\<rparr>)"
proof (cases "rows df = []")
  case True
  then show ?thesis by (simp add: get_payee_shortform_def alias_lookup_def)
next
  case False
  show ?thesis
  proof (cases "filter (\<lambda>r. normalized_key (full_name r) = normalized_key p) (rows df)")
    case Nil
    with False show ?thesis
      by (simp add: get_payee_shortform_def alias_lookup_def find_as_filter Let_def
          filter_zip_map normalized_key_def)
  next
    case (Cons r rs)
    with False show ?thesis
      by (simp add: get_payee_shortform_def alias_lookup_def find_as_filter Let_def
          filter_zip_map normalized_key_def)
  qed
qed

lemma get_payee_shortform_frame:
  "snd (get_payee_shortform payee df) = df \<or>
   snd (get_payee_shortform payee df) =
     df\<lparr>standardized_name := Some (map (\<lambda>r. normalized_key (full_name r)) (rows df))\<rparr>"
proof (cases payee)
  case (PStr p)
  then show ?thesis by (simp add: get_payee_shortform_str)
qed (simp_all add: get_payee_shortform_def)

lemma upper_char_idem: "upper_char (upper_char c) = upper_char c"
  by (auto simp: upper_char_def)


lemma split_ws_words:
  "\<forall>c\<in>set acc. \<not> is_space c \<Longrightarrow>
   \<forall>w\<in>set (split_ws acc s). w \<noteq> [] \<and> (\<forall>c\<in>set w. \<not> is_space c)"
proof (induction s arbitrary: acc)
  case Nil
  then show ?case by auto
next
  case (Cons a s)
  show ?case
  proof (cases "is_space a")
    case True
    have "\<forall>w\<in>set (split_ws [] s). w \<noteq> [] \<and> (\<forall>c\<in>set w. \<not> is_space c)"
      by (rule Cons.IH) simp
    with True Cons.prems show ?thesis by auto
  next
    case False
    have "\<forall>w\<in>set (split_ws (acc @ [a]) s). w \<noteq> [] \<and> (\<forall>c\<in>set w. \<not> is_space c)"
      by (rule Cons.IH) (use False Cons.prems in auto)
    with False show ?thesis by simp
  qed
qed

lemma split_ws_chars: "\<forall>w\<in>set (split_ws acc s). set w \<subseteq> set acc \<union> set s"
proof (induction s arbitrary: acc)
  case Nil
  then show ?case by auto
next
  case (Cons a s)
  show ?case
  proof (cases "is_space a")
    case True
    with Cons.IH [of "[]"] show ?thesis by auto
  next
    case False
    with Cons.IH [of "acc @ [a]"] show ?thesis by auto
  qed
qed

lemma split_words: "\<forall>w\<in>set (split s). w \<noteq> [] \<and> (\<forall>c\<in>set w. \<not> is_space c)"
  using split_ws_words [of "[]" s] by (simp add: split_def)

lemma split_chars: "\<forall>w\<in>set (split s). set w \<subseteq> set s"
  using split_ws_chars [of "[]" s] by (simp add: split_def)

lemma set_strip: "set (strip s) \<subseteq> set s"
proof -
  have "set (dropWhile is_space (rev (dropWhile is_space s))) \<subseteq> set (rev (dropWhile is_space s))"
    by (meson set_dropWhileD subsetI)
  also have "\<dots> \<subseteq> set s"
    using set_dropWhileD by fastforce
  finally show ?thesis by (simp add: strip_def)
qed

lemma join_chars: "set (join sep ws) \<subseteq> set sep \<union> (\<Union>w\<in>set ws. set w)"
  by (induction sep ws rule: join.induct) auto

lemma join_ends:
  "ws \<noteq> [] \<Longrightarrow> \<forall>w\<in>set ws. w \<noteq> [] \<Longrightarrow>
   join sep ws \<noteq> [] \<and> hd (join sep ws) = hd (hd ws) \<and> last (join sep ws) = last (last ws)"
  by (induction sep ws rule: join.induct) auto

lemma no_double_blank_append:
  "\<forall>c\<in>set x. c \<noteq> CHR '' '' \<Longrightarrow> rest \<noteq> [] \<Longrightarrow> hd rest \<noteq> CHR '' '' \<Longrightarrow>
   \<not> str_contains ''  '' rest \<Longrightarrow> \<not> str_contains ''  '' (x @ CHR '' '' # rest)"
proof (induction x)
  case Nil
  then show ?case by (cases rest) auto
next
  case (Cons a x)
  then show ?case by auto
qed

lemma no_double_blank_word: "\<forall>c\<in>set x. c \<noteq> CHR '' '' \<Longrightarrow> \<not> str_contains ''  '' x"
  by (induction x) auto

lemma join_no_double_blank:
  "\<forall>w\<in>set ws. w \<noteq> [] \<and> (\<forall>c\<in>set w. c \<noteq> CHR '' '') \<Longrightarrow> \<not> str_contains ''  '' (join '' '' ws)"
proof (induction "'' ''" ws rule: join.induct)
  case 1
  then show ?case by simp
next
  case (2 x)
  then show ?case by (simp add: no_double_blank_word)
next
  case (3 x y ys)
  have e: "join '' '' (y # ys) \<noteq> [] \<and> hd (join '' '' (y # ys)) = hd y"
    using join_ends [of "y # ys" "'' ''"] 3 by simp
  have "hd y \<in> set y" using 3 by simp
  then have "hd y \<noteq> CHR '' ''" using 3 by auto
  with e 3 have "\<not> str_contains ''  '' (x @ CHR '' '' # join '' '' (y # ys))"
    by (intro no_double_blank_append) auto
  then show ?case by simp
qed

lemma blank_is_space: "is_space (CHR '' '')"
  by (simp add: is_space_def)

lemma normalized_key_whitespace:
  "\<forall>c\<in>set (normalized_key s). is_space c \<longrightarrow> c = CHR '' ''"
proof
  fix c assume c: "c \<in> set (normalized_key s)"
  then have "c \<in> set '' '' \<union> (\<Union>w\<in>set (split (strip (upper s))). set w)"
    using join_chars unfolding normalized_key_def by blast
  then show "is_space c \<longrightarrow> c = CHR '' ''"
    using split_words [of "strip (upper s)"] by auto
qed

lemma normalized_key_trimmed:
  "normalized_key s \<noteq> [] \<Longrightarrow>
   \<not> is_space (hd (normalized_key s)) \<and> \<not> is_space (last (normalized_key s))"
proof -
  assume ne: "normalized_key s \<noteq> []"
  let ?ws = "split (strip (upper s))"
  have w: "\<forall>w\<in>set ?ws. w \<noteq> [] \<and> (\<forall>c\<in>set w. \<not> is_space c)" by (rule split_words)
  from ne have wne: "?ws \<noteq> []" by (auto simp: normalized_key_def)
  then have e: "hd (normalized_key s) = hd (hd ?ws)" "last (normalized_key s) = last (last ?ws)"
    using join_ends [of ?ws "'' ''"] w by (simp_all add: normalized_key_def)
  from wne w have "hd ?ws \<in> set ?ws" "last ?ws \<in> set ?ws" by simp_all
  with w have "hd (hd ?ws) \<in> set (hd ?ws)" "last (last ?ws) \<in> set (last ?ws)"
    "\<forall>c\<in>set (hd ?ws). \<not> is_space c" "\<forall>c\<in>set (last ?ws). \<not> is_space c"
    by simp_all
  with e show ?thesis by simp
qed

lemma normalized_key_collapsed: "\<not> str_contains ''  '' (normalized_key s)"
proof -
  have "\<forall>w\<in>set (split (strip (upper s))). w \<noteq> [] \<and> (\<forall>c\<in>set w. c \<noteq> CHR '' '')"
    using split_words [of "strip (upper s)"] blank_is_space by auto
  then show ?thesis unfolding normalized_key_def by (rule join_no_double_blank)
qed

lemma normalized_key_upper: "upper (normalized_key s) = normalized_key s"
proof -
  have "upper_char c = c" if "c \<in> set (normalized_key s)" for c
  proof -
    from that have "c \<in> set '' '' \<union> (\<Union>w\<in>set (split (strip (upper s))). set w)"
      using join_chars unfolding normalized_key_def by blast
    then consider "c = CHR '' ''" | "c \<in> set (upper s)"
      using split_chars [of "strip (upper s)"] set_strip [of "upper s"] by auto
    then show ?thesis
    proof cases
      case 1
      then show ?thesis by (simp add: upper_char_def)
    next
      case 2
      then show ?thesis by (auto simp: upper_def upper_char_idem)
    qed
  qed
  then show ?thesis by (simp add: upper_def map_idI)
qed

lemma upper_idem: "upper (upper s) = upper s"
  by (simp add: upper_def upper_char_idem)

lemma normalized_key_case: "normalized_key (upper s) = normalized_key s"
  by (simp add: normalized_key_def upper_idem)


lemma find_first:
  "find P xs = Some r \<Longrightarrow> \<exists>pre post. xs = pre @ r # post \<and> (\<forall>x\<in>set pre. \<not> P x) \<and> P r"
proof (induction xs)
  case Nil
  then show ?case by simp
next
  case (Cons a xs)
  show ?case
  proof (cases "P a")
    case True
    with Cons.prems have "a = r" by simp
    with True have "a # xs = [] @ r # xs \<and> (\<forall>x\<in>set []. \<not> P x) \<and> P r" by simp
    then show ?thesis by blast
  next
    case False
    with Cons obtain pre post where "xs = pre @ r # post" "\<forall>x\<in>set pre. \<not> P x" "P r"
      by auto
    with False have "a # xs = (a # pre) @ r # post \<and> (\<forall>x\<in>set (a # pre). \<not> P x) \<and> P r"
      by simp
    then show ?thesis by blast
  qed
qed

lemma generate_filename_str_ok: "\<exists>fn. generate_filename k payer (PStr p) c t m = Inr fn"
  by (simp add: generate_filename_def sanitize_filename_def)

lemma name_document_str:
  assumes "map_of kvs ''payee'' = Some (PStr p)" "map_of kvs ''payer'' = Some (PStr q)"
  shows "\<exists>res df'. name_document kvs pdf df = (Inr res, df') \<and> original_payee res = PStr p
           \<and> mapped_payee res = PStr (resolve_payee (rows df) q p)
           \<and> (df' = df \<or> df' = with_standardized_name df)"
proof -
  obtain fn where fn: "generate_filename (get_default kvs ''key_identifier'' PNone) (PStr q)
      (PStr (resolve_payee (rows df) q p)) (get_default kvs ''currency'' PNone)
      (get_default kvs ''is_trailer_fee'' PNone) (get_default kvs ''is_management_fee'' PNone)
      = Inr fn"
    using generate_filename_str_ok by blast
  show ?thesis
  proof (cases "q = NOMINEE_PAYER")
    case True
    with assms fn show ?thesis
      by (simp add: name_document_def get_default_def resolve_payee_def Let_def)
  next
    case False
    with assms fn show ?thesis
      by (simp add: name_document_def get_default_def resolve_payee_def Let_def
          get_payee_shortform_str with_standardized_name_def)
  qed
qed


lemma resolve_payee_miss:
  "\<forall>r\<in>set table. normalized_key (full_name r) \<noteq> normalized_key p \<Longrightarrow>
   resolve_payee table q p = p"
proof -
  assume "\<forall>r\<in>set table. normalized_key (full_name r) \<noteq> normalized_key p"
  then have "find (\<lambda>r. normalized_key (full_name r) = normalized_key p) table = None"
    by (simp add: find_None_iff)
  then show ?thesis by (simp add: resolve_payee_def alias_lookup_def)
qed

lemma resolve_payee_match:
  assumes "q \<noteq> NOMINEE_PAYER" "\<exists>r\<in>set table. normalized_key (full_name r) = normalized_key p"
  shows "\<exists>pre r post. table = pre @ r # post
           \<and> (\<forall>x\<in>set pre. normalized_key (full_name x) \<noteq> normalized_key p)
           \<and> normalized_key (full_name r) = normalized_key p
           \<and> resolve_payee table q p = short_form r"
proof -
  from assms(2) have "find (\<lambda>r. normalized_key (full_name r) = normalized_key p) table \<noteq> None"
    by (auto simp add: find_None_iff)
  then obtain r where r: "find (\<lambda>r. normalized_key (full_name r) = normalized_key p) table = Some r"
    by blast
  from find_first [OF r] obtain pre post where
    "table = pre @ r # post" "\<forall>x\<in>set pre. normalized_key (full_name x) \<noteq> normalized_key p"
    "normalized_key (full_name r) = normalized_key p"
    by blast
  moreover from r assms(1) have "resolve_payee table q p = short_form r"
    by (simp add: resolve_payee_def alias_lookup_def)
  ultimately show ?thesis by blast
qed

lemma get_payee_shortform_resolves:
  "q \<noteq> NOMINEE_PAYER \<Longrightarrow>
   fst (get_payee_shortform (PStr p) df) = Inr (PStr (resolve_payee (rows df) q p))"
  by (simp add: get_payee_shortform_str resolve_payee_def)

text \<open>
  Claim C8 (payee resolution). For a record whose payee and payer are strings the lookup
  and the naming do not fail, and the payee written into the result is the extracted one
  verbatim when the payer is \<open>WMC NOMINEE LIMITED-CLIENT TRUST ACCOUNT\<close>; otherwise it is
  the short form of the first table row whose normalized full name equals the normalized
  payee, and the extracted payee unchanged when no row matches. The normalized key is
  in upper case, does not depend on the case of the name, has no whitespace but single
  blanks between words, and neither begins nor ends with one.
\<close>

theorem payee_resolution:
  "(map_of kvs ''payee'' = Some (PStr p) \<and> map_of kvs ''payer'' = Some (PStr q) \<longrightarrow>
      (\<exists>res df'. name_document kvs pdf df = (Inr res, df') \<and> original_payee res = PStr p
           \<and> mapped_payee res = PStr (resolve_payee (rows df) q p)))
   \<and> (q \<noteq> ''WMC NOMINEE LIMITED-CLIENT TRUST ACCOUNT'' \<longrightarrow>
        fst (get_payee_shortform (PStr p) df) = Inr (PStr (resolve_payee (rows df) q p)))
   \<and> resolve_payee table ''WMC NOMINEE LIMITED-CLIENT TRUST ACCOUNT'' p = p
   \<and> ((\<forall>r\<in>set table. normalized_key (full_name r) \<noteq> normalized_key p) \<longrightarrow>
        resolve_payee table q p = p)
   \<and> (q \<noteq> ''WMC NOMINEE LIMITED-CLIENT TRUST ACCOUNT''
        \<and> (\<exists>r\<in>set table. normalized_key (full_name r) = normalized_key p) \<longrightarrow>
        (\<exists>pre r post. table = pre @ r # post
           \<and> (\<forall>x\<in>set pre. normalized_key (full_name x) \<noteq> normalized_key p)
           \<and> normalized_key (full_name r) = normalized_key p
           \<and> resolve_payee table q p = short_form r))
   \<and> upper (normalized_key p) = normalized_key p
   \<and> normalized_key (upper p) = normalized_key p
   \<and> (\<forall>c\<in>set (normalized_key p). is_space c \<longrightarrow> c = CHR '' '')
   \<and> \<not> str_contains ''  '' (normalized_key p)
   \<and> (normalized_key p \<noteq> [] \<longrightarrow>
        \<not> is_space (hd (normalized_key p)) \<and> \<not> is_space (last (normalized_key p)))"
proof (intro conjI impI)
  show "\<exists>res df'. name_document kvs pdf df = (Inr res, df') \<and> original_payee res = PStr p
           \<and> mapped_payee res = PStr (resolve_payee (rows df) q p)"
    if "map_of kvs ''payee'' = Some (PStr p) \<and> map_of kvs ''payer'' = Some (PStr q)"
    using that name_document_str [of kvs p q pdf df] by blast
  show "fst (get_payee_shortform (PStr p) df) = Inr (PStr (resolve_payee (rows df) q p))"
    if "q \<noteq> ''WMC NOMINEE LIMITED-CLIENT TRUST ACCOUNT''"
    using that by (rule get_payee_shortform_resolves)
  show "resolve_payee table ''WMC NOMINEE LIMITED-CLIENT TRUST ACCOUNT'' p = p"
    by (simp add: resolve_payee_def)
  show "resolve_payee table q p = p"
    if "\<forall>r\<in>set table. normalized_key (full_name r) \<noteq> normalized_key p"
    using that by (rule resolve_payee_miss)
  show "\<exists>pre r post. table = pre @ r # post
           \<and> (\<forall>x\<in>set pre. normalized_key (full_name x) \<noteq> normalized_key p)
           \<and> normalized_key (full_name r) = normalized_key p
           \<and> resolve_payee table q p = short_form r"
    if "q \<noteq> ''WMC NOMINEE LIMITED-CLIENT TRUST ACCOUNT''
        \<and> (\<exists>r\<in>set table. normalized_key (full_name r) = normalized_key p)"
    using that resolve_payee_match [of q table p] by blast
  show "upper (normalized_key p) = normalized_key p" by (rule normalized_key_upper)
  show "normalized_key (upper p) = normalized_key p" by (rule normalized_key_case)
  show "\<forall>c\<in>set (normalized_key p). is_space c \<longrightarrow> c = CHR '' ''"
    by (rule normalized_key_whitespace)
  show "\<not> str_contains ''  '' (normalized_key p)" by (rule normalized_key_collapsed)
  show "\<not> is_space (hd (normalized_key p))" if "normalized_key p \<noteq> []"
    using that normalized_key_trimmed by blast
  show "\<not> is_space (last (normalized_key p))" if "normalized_key p \<noteq> []"
    using that normalized_key_trimmed by blast
qed

lemma normalized_key_examples:
  "normalized_key ''AAM  Advisory Limited'' = ''AAM ADVISORY LIMITED''"
  "normalized_key '' aam advisory   limited '' = ''AAM ADVISORY LIMITED''"
  "normalized_key ''AAM Advisory'' = ''AAM ADVISORY''"
  by (simp_all add: normalized_key_def split_def strip_def upper_def upper_char_def is_space_def)


theorem payee_resolution_witness:
  "map_of fields_without_next_step ''payee'' = Some (PStr ''AAM Advisory'')
   \<and> map_of fields_without_next_step ''payer'' = Some (PStr ''WEALTH MANAGEMENT CUBE LIMITED'')
   \<and> normalized_key ''AAM  Advisory Limited'' \<noteq> normalized_key ''AAM Advisory''
   \<and> (\<exists>res df'. name_document fields_without_next_step ''%PDF'' one_row_table = (Inr res, df')
          \<and> mapped_payee res = PStr ''AAM Advisory'')
   \<and> normalized_key ''AAM  Advisory Limited'' = normalized_key '' aam advisory   limited ''
   \<and> normalized_key '' aam advisory   limited '' \<noteq> []
   \<and> fst (get_payee_shortform (PStr '' aam advisory   limited '') one_row_table) =
       Inr (PStr ''AAM'')"
proof -
  let ?row = "\<lparr>full_name = ''AAM  Advisory Limited'', short_form = ''AAM''\<rparr>"
  have rows: "rows one_row_table = [?row]" by (simp add: one_row_table_def)
  have h1: "map_of fields_without_next_step ''payee'' = Some (PStr ''AAM Advisory'')"
    "map_of fields_without_next_step ''payer'' = Some (PStr ''WEALTH MANAGEMENT CUBE LIMITED'')"
    by (simp_all add: fields_without_next_step_def)
  have h2: "normalized_key ''AAM  Advisory Limited'' \<noteq> normalized_key ''AAM Advisory''"
    by (simp add: normalized_key_examples)
  have h3: "normalized_key ''AAM  Advisory Limited'' = normalized_key '' aam advisory   limited ''"
    "normalized_key '' aam advisory   limited '' \<noteq> []"
    by (simp_all add: normalized_key_examples)
  note miss = payee_resolution [of fields_without_next_step "''AAM Advisory''"
      "''WEALTH MANAGEMENT CUBE LIMITED''" "''%PDF''" one_row_table "rows one_row_table"]
  from miss h1 obtain res df' where
    r: "name_document fields_without_next_step ''%PDF'' one_row_table = (Inr res, df')"
      "mapped_payee res = PStr (resolve_payee (rows one_row_table)
          ''WEALTH MANAGEMENT CUBE LIMITED'' ''AAM Advisory'')"
    by blast
  have "\<forall>r\<in>set (rows one_row_table). normalized_key (full_name r) \<noteq> normalized_key ''AAM Advisory''"
    using h2 by (simp add: rows)
  with miss have "resolve_payee (rows one_row_table) ''WEALTH MANAGEMENT CUBE LIMITED''
      ''AAM Advisory'' = ''AAM Advisory''"
    by blast
  with r have c1: "\<exists>res df'. name_document fields_without_next_step ''%PDF'' one_row_table
      = (Inr res, df') \<and> mapped_payee res = PStr ''AAM Advisory''"
    by simp
  note match = payee_resolution [of fields_without_next_step "'' aam advisory   limited ''"
      "''WEALTH MANAGEMENT CUBE LIMITED''" "''%PDF''" one_row_table "rows one_row_table"]
  have q: "''WEALTH MANAGEMENT CUBE LIMITED'' \<noteq> ''WMC NOMINEE LIMITED-CLIENT TRUST ACCOUNT''"
    by simp
  have "\<exists>r\<in>set (rows one_row_table).
      normalized_key (full_name r) = normalized_key '' aam advisory   limited ''"
    using h3 by (simp add: rows)
  with match q obtain pre r post where
    m: "rows one_row_table = pre @ r # post"
      "resolve_payee (rows one_row_table) ''WEALTH MANAGEMENT CUBE LIMITED''
         '' aam advisory   limited '' = short_form r"
    by blast
  from m(1) have "r = ?row" by (simp add: rows Cons_eq_append_conv)
  with m(2) have "resolve_payee (rows one_row_table) ''WEALTH MANAGEMENT CUBE LIMITED''
         '' aam advisory   limited '' = ''AAM''"
    by simp
  moreover from match q have "fst (get_payee_shortform (PStr '' aam advisory   limited '')
      one_row_table) = Inr (PStr (resolve_payee (rows one_row_table)
        ''WEALTH MANAGEMENT CUBE LIMITED'' '' aam advisory   limited ''))"
    by blast
  ultimately have c2: "fst (get_payee_shortform (PStr '' aam advisory   limited '') one_row_table)
      = Inr (PStr ''AAM'')"
    by simp
  from h1 h2 c1 h3 c2 show ?thesis by blast
qed

section \<open>The optional next step\<close>

text \<open>
  Claim C6 as stated fails for \<open>next_step\<close>: a response with the seven checked fields and no
  \<open>next_step\<close> is named and returned as a result, with \<open>Unknown\<close> for the missing field.
\<close>

theorem next_step_not_required_counterexample:
  "map_of fields_without_next_step ''next_step'' = None
   \<and> process_echeque renders loads_responses (answers response_without_next_step)
         ''%PDF'' ''key'' one_row_table =
       (Inr \<lparr>original_data = fields_without_next_step,
             original_payee = PStr ''AAM Advisory'',
             mapped_payee = PStr ''AAM Advisory'',
             generated_filename = ''000495 WMC-AAM Advisory.pdf'',
             pdf_data = ''%PDF'',
             next_step = PStr ''Unknown''\<rparr>,
        with_standardized_name one_row_table)"
proof -
  have 0: "map_of fields_without_next_step ''next_step'' = None"
    by (simp add: fields_without_next_step_def)
  have s: "strip response_without_next_step = response_without_next_step"
    by (rule strip_id) (simp_all add: response_without_next_step_def is_space_def quoted_def)
  have 1: "call_gemini_api (answers response_without_next_step) ''key'' =
       Inr response_without_next_step"
    by (simp add: call_answers s)
  have 2: "clean_response response_without_next_step = response_without_next_step"
    by (simp add: clean_response_def s) (simp add: response_without_next_step_def)
  have 3: "all_fields_in required_fields (JObject fields_without_next_step) = Inr True"
    by (simp add: all_fields_in_object required_fields_def fields_without_next_step_def)
  have 4: "resolve_payee (rows one_row_table) ''WEALTH MANAGEMENT CUBE LIMITED''
      ''AAM Advisory'' = ''AAM Advisory''"
    by (rule resolve_payee_miss) (simp add: one_row_table_def normalized_key_examples)
  have 5: "name_document fields_without_next_step ''%PDF'' one_row_table =
       (Inr \<lparr>original_data = fields_without_next_step,
             original_payee = PStr ''AAM Advisory'',
             mapped_payee = PStr ''AAM Advisory'',
             generated_filename = ''000495 WMC-AAM Advisory.pdf'',
             pdf_data = ''%PDF'',
             next_step = PStr ''Unknown''\<rparr>,
        with_standardized_name one_row_table)"
    using 4
    by (simp add: name_document_def get_default_def Let_def get_payee_shortform_str
        resolve_payee_def fields_without_next_step_def generate_filename_def
        sanitize_filename_def re_sub_class_def invalid_chars_def with_standardized_name_def
        one_row_table_def)
  show ?thesis
    using 0 1 2 3 5
    by (simp add: process_echeque_def renders_def process_response_def loads_responses_def)
qed

section \<open>Properties of the alias table\<close>

lemma with_standardized_name_rows [simp]: "rows (with_standardized_name df) = rows df"
  by (simp add: with_standardized_name_def)

lemma with_standardized_name_idem [simp]:
  "with_standardized_name (with_standardized_name df) = with_standardized_name df"
  by (simp add: with_standardized_name_def)

lemma get_payee_shortform_table:
  "snd (get_payee_shortform payee df) = df \<or>
   snd (get_payee_shortform payee df) = with_standardized_name df"
  using get_payee_shortform_frame [of payee df] by (simp add: with_standardized_name_def)

lemma get_payee_shortform_empty: "rows df = [] \<Longrightarrow> snd (get_payee_shortform payee df) = df"
  by (simp add: get_payee_shortform_def)

lemma get_payee_shortform_assigns:
  "rows df \<noteq> [] \<Longrightarrow> snd (get_payee_shortform (PStr p) df) = with_standardized_name df"
  by (simp add: get_payee_shortform_str with_standardized_name_def)

lemma get_payee_shortform_again:
  "snd (get_payee_shortform payee (with_standardized_name df)) = with_standardized_name df"
  using get_payee_shortform_table [of payee "with_standardized_name df"] by auto

lemma name_document_table:
  "snd (name_document kvs pdf df) = df \<or> snd (name_document kvs pdf df) = with_standardized_name df"
proof (cases "get_default kvs ''payer'' PNone \<noteq> PStr NOMINEE_PAYER")
  case True
  obtain r d where g: "get_payee_shortform (get_default kvs ''payee'' PNone) df = (r, d)"
    by (cases "get_payee_shortform (get_default kvs ''payee'' PNone) df")
  then have "d = df \<or> d = with_standardized_name df"
    using get_payee_shortform_table [of "get_default kvs ''payee'' PNone" df] by simp
  moreover have "snd (name_document kvs pdf df) = d"
    using True g by (simp add: name_document_def Let_def split: sum.splits)
  ultimately show ?thesis by simp
next
  case False
  then have "snd (name_document kvs pdf df) = df"
    by (simp add: name_document_def Let_def split: sum.splits)
  then show ?thesis by simp
qed

lemma process_response_table:
  "snd (process_response loads raw pdf df) = df \<or>
   snd (process_response loads raw pdf df) = with_standardized_name df"
  using name_document_table
  by (auto simp: process_response_def split: option.splits sum.splits bool.splits json.splits)

lemma process_echeque_table:
  "snd (process_echeque pdf_to_image loads model pdf key df) = df \<or>
   snd (process_echeque pdf_to_image loads model pdf key df) = with_standardized_name df"
  using process_response_table
  by (auto simp: process_echeque_def split: pdf_outcome.splits sum.splits)

lemma process_loop_table:
  "snd (process_loop pdf_to_image loads model key i files df done errs) = df \<or>
   snd (process_loop pdf_to_image loads model key i files df done errs) = with_standardized_name df"
proof (induction files arbitrary: i df "done" errs)
  case Nil
  then show ?case by simp
next
  case (Cons fi rest)
  obtain r d where p: "process_echeque pdf_to_image loads (model i) (content fi) key df = (r, d)"
    by (cases "process_echeque pdf_to_image loads (model i) (content fi) key df")
  then have d: "d = df \<or> d = with_standardized_name df"
    using process_echeque_table [of pdf_to_image loads "model i" "content fi" key df] by simp
  show ?case
  proof (cases r)
    case (Inl err)
    with p have "process_loop pdf_to_image loads model key i (fi # rest) df done errs =
        process_loop pdf_to_image loads model key (i + 1) rest d done
          (errs @ [\<lparr>failed_filename = filename fi, error = err\<rparr>])"
      by simp
    with d Cons.IH [of "i + 1" d "done" "errs @ [\<lparr>failed_filename = filename fi, error = err\<rparr>]"]
    show ?thesis by auto
  next
    case (Inr result)
    with p have "process_loop pdf_to_image loads model key i (fi # rest) df done errs =
        process_loop pdf_to_image loads model key (i + 1) rest d
          (done @ [add_file_info fi result]) errs"
      by simp
    with d Cons.IH [of "i + 1" d "done @ [add_file_info fi result]" errs]
    show ?thesis by auto
  qed
qed


text \<open>
  Claim C10 (the alias table during processing), as amended. A lookup never adds,
  removes or changes a row, nor a cell of \<open>Full Name\<close> or \<open>Short Form\<close>; what it does to
  the table passed in is to assign the column \<open>Standardized_Name\<close>, holding the normalized
  full name of every row: an empty table is left as it is, a string payee on a table with
  rows assigns the column, and a lookup on a table that has the column leaves it the
  same. Hence after \<open>process_echeque\<close>, and after a whole \<open>process_echeques\<close> batch, the
  table is either the one passed in (or loaded) or that table with the column assigned.
\<close>

theorem alias_table_frame:
  "rows (snd (get_payee_shortform payee df)) = rows df
   \<and> (snd (get_payee_shortform payee df) = df
        \<or> snd (get_payee_shortform payee df) = with_standardized_name df)
   \<and> (rows df = [] \<longrightarrow> snd (get_payee_shortform payee df) = df)
   \<and> (rows df \<noteq> [] \<longrightarrow> snd (get_payee_shortform (PStr p) df) = with_standardized_name df)
   \<and> snd (get_payee_shortform payee (with_standardized_name df)) = with_standardized_name df
   \<and> rows (with_standardized_name df) = rows df
   \<and> standardized_name (with_standardized_name df) =
       Some (map (\<lambda>r. normalized_key (full_name r)) (rows df))
   \<and> (snd (process_echeque pdf_to_image loads model pdf key df) = df
        \<or> snd (process_echeque pdf_to_image loads model pdf key df) = with_standardized_name df)
   \<and> (snd (process_echeques pdf_to_image loads models loaded files key) =
          (case loaded of Some d \<Rightarrow> d | None \<Rightarrow> empty_dataframe)
        \<or> snd (process_echeques pdf_to_image loads models loaded files key) =
          with_standardized_name (case loaded of Some d \<Rightarrow> d | None \<Rightarrow> empty_dataframe))"
proof (intro conjI)
  show "rows (snd (get_payee_shortform payee df)) = rows df"
    using get_payee_shortform_table [of payee df] by auto
  show "snd (get_payee_shortform payee df) = df
        \<or> snd (get_payee_shortform payee df) = with_standardized_name df"
    by (rule get_payee_shortform_table)
  show "rows df = [] \<longrightarrow> snd (get_payee_shortform payee df) = df"
    by (simp add: get_payee_shortform_empty)
  show "rows df \<noteq> [] \<longrightarrow> snd (get_payee_shortform (PStr p) df) = with_standardized_name df"
    by (simp add: get_payee_shortform_assigns)
  show "snd (get_payee_shortform payee (with_standardized_name df)) = with_standardized_name df"
    by (rule get_payee_shortform_again)
  show "rows (with_standardized_name df) = rows df" by simp
  show "standardized_name (with_standardized_name df) =
       Some (map (\<lambda>r. normalized_key (full_name r)) (rows df))"
    by (simp add: with_standardized_name_def)
  show "snd (process_echeque pdf_to_image loads model pdf key df) = df
        \<or> snd (process_echeque pdf_to_image loads model pdf key df) = with_standardized_name df"
    by (rule process_echeque_table)
  show "snd (process_echeques pdf_to_image loads models loaded files key) =
          (case loaded of Some d \<Rightarrow> d | None \<Rightarrow> empty_dataframe)
        \<or> snd (process_echeques pdf_to_image loads models loaded files key) =
          with_standardized_name (case loaded of Some d \<Rightarrow> d | None \<Rightarrow> empty_dataframe)"
    unfolding process_echeques_def Let_def by (rule process_loop_table)
qed

theorem alias_table_frame_witness:
  "rows one_row_table \<noteq> []
   \<and> snd (get_payee_shortform (PStr ''AAM Advisory'') one_row_table) =
       \<lparr>rows = [\<lparr>full_name = ''AAM  Advisory Limited'', short_form = ''AAM''\<rparr>],
        standardized_name = Some [''AAM ADVISORY LIMITED'']\<rparr>
   \<and> rows empty_dataframe = []
   \<and> snd (get_payee_shortform (PStr ''AAM Advisory'') empty_dataframe) = empty_dataframe"
proof -
  have 1: "rows one_row_table \<noteq> []" by (simp add: one_row_table_def)
  have 2: "rows empty_dataframe = []" by (simp add: empty_dataframe_def)
  have 3: "with_standardized_name one_row_table =
       \<lparr>rows = [\<lparr>full_name = ''AAM  Advisory Limited'', short_form = ''AAM''\<rparr>],
        standardized_name = Some [''AAM ADVISORY LIMITED'']\<rparr>"
    by (simp add: with_standardized_name_def one_row_table_def normalized_key_examples)
  from alias_table_frame [of "PStr ''AAM Advisory''" one_row_table "''AAM Advisory''"] 1
  have "snd (get_payee_shortform (PStr ''AAM Advisory'') one_row_table) =
      with_standardized_name one_row_table"
    by blast
  moreover from alias_table_frame [of "PStr ''AAM Advisory''" empty_dataframe] 2
  have "snd (get_payee_shortform (PStr ''AAM Advisory'') empty_dataframe) = empty_dataframe"
    by blast
  ultimately show ?thesis using 1 2 3 by simp
qed

text \<open>
  Claim C10 as stated fails: a lookup on a loaded table with one row returns the table
  with a column more than it had.
\<close>

theorem alias_table_counterexample:
  "standardized_name one_row_table = None
   \<and> standardized_name (snd (get_payee_shortform (PStr ''AAM Advisory'') one_row_table)) =
       Some [''AAM ADVISORY LIMITED'']
   \<and> snd (get_payee_shortform (PStr ''AAM Advisory'') one_row_table) \<noteq> one_row_table"
proof -
  have 1: "standardized_name one_row_table = None" by (simp add: one_row_table_def)
  have "snd (get_payee_shortform (PStr ''AAM Advisory'') one_row_table) =
      with_standardized_name one_row_table"
    by (rule get_payee_shortform_assigns) (simp add: one_row_table_def)
  then have 2: "standardized_name (snd (get_payee_shortform (PStr ''AAM Advisory'')
      one_row_table)) = Some [''AAM ADVISORY LIMITED'']"
    by (simp add: with_standardized_name_def one_row_table_def normalized_key_examples)
  from 1 2 show ?thesis by auto
qed

section \<open>Properties of the delivery protocol\<close>

lemma re_sub_class_free:
  "r \<notin> set cls \<Longrightarrow> \<forall>c\<in>set (re_sub_class cls r s). c \<notin> set cls"
  by (auto simp: re_sub_class_def)

lemma re_sub_class_id: "\<forall>c\<in>set s. c \<notin> set cls \<Longrightarrow> re_sub_class cls r s = s"
  by (simp add: re_sub_class_def map_idI)

lemma splitext_append: "fst (splitext p) @ snd (splitext p) = p"
  by (simp add: splitext_def Let_def)

lemma set_slice_to: "set (slice_to k xs) \<subseteq> set xs"
  by (auto simp: slice_to_def dest: in_set_takeD)

lemma before_truncation_chars:
  "\<forall>c\<in>set (before_truncation s). c \<notin> set sharepoint_invalid_chars"
proof -
  have "CHR ''_'' \<notin> set sharepoint_invalid_chars"
    by (simp add: sharepoint_invalid_chars_def)
  then have "\<forall>c\<in>set (re_sub_class sharepoint_invalid_chars (CHR ''_'') s).
      c \<notin> set sharepoint_invalid_chars"
    by (rule re_sub_class_free)
  moreover have "set (before_truncation s)
      \<subseteq> set (re_sub_class sharepoint_invalid_chars (CHR ''_'') s)"
    unfolding before_truncation_def
    using set_strip [of "re_sub_class sharepoint_invalid_chars (CHR ''_'') s"]
    by (meson set_dropWhileD subsetD subsetI)
  ultimately show ?thesis by blast
qed

lemma teams_sanitize_filename_stages:
  "teams_sanitize_filename s =
     (if length (before_truncation s) > 240 then
        slice_to (240 - int (length (snd (splitext (before_truncation s)))))
          (fst (splitext (before_truncation s))) @ snd (splitext (before_truncation s))
      else before_truncation s)"
  by (simp add: teams_sanitize_filename_def before_truncation_def Let_def split: prod.splits)

lemma teams_sanitize_filename_chars:
  "\<forall>c\<in>set (teams_sanitize_filename s). c \<notin> set sharepoint_invalid_chars"
proof -
  let ?b = "before_truncation s"
  have "set (fst (splitext ?b)) \<union> set (snd (splitext ?b)) = set ?b"
    using splitext_append [of ?b] by (metis set_append)
  then have "set (teams_sanitize_filename s) \<subseteq> set ?b"
    using set_slice_to [of "240 - int (length (snd (splitext ?b)))" "fst (splitext ?b)"]
    by (auto simp: teams_sanitize_filename_stages)
  with before_truncation_chars [of s] show ?thesis by blast
qed

lemma last_dropWhile: "dropWhile P xs \<noteq> [] \<Longrightarrow> last (dropWhile P xs) = last xs"
  by (induction xs) auto

lemma strip_ends:
  "strip x \<noteq> [] \<Longrightarrow> \<not> is_space (hd (strip x)) \<and> \<not> is_space (last (strip x))"
proof -
  assume ne: "strip x \<noteq> []"
  define z where "z = dropWhile is_space x"
  define ys where "ys = dropWhile is_space (rev z)"
  have s: "strip x = rev ys" by (simp add: strip_def ys_def z_def)
  with ne have y: "ys \<noteq> []" by simp
  then have 1: "\<not> is_space (hd ys)" unfolding ys_def by (simp add: hd_dropWhile)
  from y have zne: "z \<noteq> []" unfolding ys_def by auto
  have "last ys = last (rev z)"
    using y unfolding ys_def by (rule last_dropWhile)
  also have "\<dots> = hd z" using zne by (simp add: last_rev)
  finally have "last ys = hd z" .
  moreover have "\<not> is_space (hd z)" using zne unfolding z_def by (simp add: hd_dropWhile)
  ultimately have 2: "\<not> is_space (last ys)" by simp
  from y 1 2 show ?thesis by (simp add: s hd_rev last_rev)
qed

lemma before_truncation_ends:
  assumes "before_truncation s \<noteq> []"
  shows "hd (before_truncation s) \<noteq> CHR ''.''" "\<not> is_space (last (before_truncation s))"
proof -
  let ?a = "strip (re_sub_class sharepoint_invalid_chars (CHR ''_'') s)"
  have b: "before_truncation s = dropWhile (\<lambda>c. c = CHR ''.'') ?a"
    by (simp add: before_truncation_def)
  from assms show "hd (before_truncation s) \<noteq> CHR ''.''"
    unfolding b using hd_dropWhile [of "\<lambda>c. c = CHR ''.''" ?a] by simp
  from assms have ane: "?a \<noteq> []" unfolding b by auto
  have "last (before_truncation s) = last ?a"
    using assms unfolding b by (rule last_dropWhile)
  with strip_ends [OF ane] show "\<not> is_space (last (before_truncation s))" by simp
qed

lemma truncated_length:
  assumes "length (before_truncation s) > 240"
    "length (snd (splitext (before_truncation s))) \<le> 240"
  shows "teams_sanitize_filename s =
           take (240 - length (snd (splitext (before_truncation s)))) (before_truncation s)
           @ snd (splitext (before_truncation s))"
    and "length (teams_sanitize_filename s) = 240"
proof -
  let ?b = "before_truncation s"
  let ?n = "fst (splitext ?b)" and ?e = "snd (splitext ?b)"
  have ne: "?n @ ?e = ?b" by (rule splitext_append)
  then have len: "length ?n + length ?e = length ?b" by (metis length_append)
  have k: "slice_to (240 - int (length ?e)) ?n = take (240 - length ?e) ?n"
    using assms(2) by (simp add: slice_to_def nat_diff_distrib')
  have "take (240 - length ?e) ?n = take (240 - length ?e) ?b"
    using len assms(1) by (subst ne [symmetric]) simp
  with k assms(1) show "teams_sanitize_filename s = take (240 - length ?e) ?b @ ?e"
    by (simp add: teams_sanitize_filename_stages)
  then show "length (teams_sanitize_filename s) = 240"
    using assms len by simp
qed


lemma send_sent:
  "send srv rq w = (r, w') \<Longrightarrow> sent w' = sent w @ [rq] \<and> srv (remote w) rq = (r, remote w')"
  by (auto simp: send_def Let_def split: prod.splits)

lemma ceil_div_less: "0 < c \<Longrightarrow> (k * c < t) = (k < (t + c - 1) div (c::nat))"
proof -
  assume c: "0 < c"
  have "k < (t + c - 1) div c \<longleftrightarrow> Suc k \<le> (t + c - 1) div c" by auto
  also have "\<dots> \<longleftrightarrow> Suc k * c \<le> t + c - 1"
    using c by (simp add: less_eq_div_iff_mult_less_eq)
  also have "\<dots> \<longleftrightarrow> k * c < t" using c by auto
  finally show ?thesis by simp
qed

lemma chunk_size_pos: "0 < chunk_size"
  by (simp add: chunk_size_def)

lemma drop_content_ranges:
  assumes "k * chunk_size < total_size"
  shows "drop k (content_ranges total_size) =
           (k * chunk_size, min ((k + 1) * chunk_size) total_size - 1)
           # drop (k + 1) (content_ranges total_size)"
proof -
  let ?n = "(total_size + chunk_size - 1) div chunk_size"
  from assms have k: "k < ?n" using ceil_div_less [OF chunk_size_pos] by simp
  have "drop k [0 ..< ?n] = [k ..< ?n]" "drop (k + 1) [0 ..< ?n] = [Suc k ..< ?n]"
    by (simp_all only: drop_upt add_0 Suc_eq_plus1)
  with k have "drop k [0 ..< ?n] = k # drop (k + 1) [0 ..< ?n]"
    by (simp only: upt_conv_Cons)
  then show ?thesis
    unfolding content_ranges_def drop_map by simp
qed

lemma drop_content_ranges_end:
  "total_size \<le> k * chunk_size \<Longrightarrow> drop k (content_ranges total_size) = []"
  using ceil_div_less [OF chunk_size_pos, of k total_size] by (simp add: content_ranges_def)

lemma chunk_request_at:
  assumes "k * chunk_size < length file_data"
  shows "chunk_request url file_data
           (k * chunk_size, min ((k + 1) * chunk_size) (length file_data) - 1) =
         PutChunk url (k * chunk_size)
           (k * chunk_size + length (take chunk_size (drop (k * chunk_size) file_data)) - 1)
           (length file_data) (take chunk_size (drop (k * chunk_size) file_data))"
proof -
  let ?u = "k * chunk_size" and ?t = "length file_data"
  have e: "min ((k + 1) * chunk_size) ?t - 1 = ?u + min chunk_size (?t - ?u) - 1"
    using assms by (simp add: min_def algebra_simps)
  have l: "length (take chunk_size (drop ?u file_data)) = min chunk_size (?t - ?u)"
    by (simp add: min.commute)
  have "?u + min chunk_size (?t - ?u) - 1 + 1 - ?u = min chunk_size (?t - ?u)"
    using assms chunk_size_pos by (simp add: min_def)
  then have "take (min ((k + 1) * chunk_size) ?t - 1 + 1 - ?u) (drop ?u file_data) =
      take chunk_size (drop ?u file_data)"
    unfolding e by (simp add: min_def)
  then show ?thesis
    unfolding chunk_request_def fst_conv snd_conv using e l by simp
qed

lemma upload_chunks_done:
  "length file_data \<le> uploaded \<Longrightarrow>
   upload_chunks srv url file_data uploaded w = (Inl UnexpectedResponse, w)"
  by (subst upload_chunks.simps) simp


lemma upload_chunks_step:
  assumes "k * chunk_size < length file_data"
    and "send srv (chunk_request url file_data
           (k * chunk_size, min ((k + 1) * chunk_size) (length file_data) - 1)) w = (resp, w1)"
  shows "upload_chunks srv url file_data (k * chunk_size) w =
     (if status_code resp \<notin> {200, 201, 202} then
        (Inl (ChunkFailed (k * chunk_size)
               (min ((k + 1) * chunk_size) (length file_data) - 1) (status_code resp)), w1)
      else if status_code resp \<in> {200, 201} then (Inr (), w1)
      else if (k + 1) * chunk_size < length file_data then
        upload_chunks srv url file_data ((k + 1) * chunk_size) w1
      else (Inl UnexpectedResponse, w1))"
proof -
  let ?u = "k * chunk_size" and ?t = "length file_data"
  let ?cd = "take chunk_size (drop ?u file_data)"
  have rq: "chunk_request url file_data (?u, min ((k + 1) * chunk_size) ?t - 1) =
      PutChunk url ?u (?u + length ?cd - 1) ?t ?cd"
    using assms(1) by (rule chunk_request_at)
  have e: "min ((k + 1) * chunk_size) ?t - 1 = ?u + length ?cd - 1"
    using assms(1) by (auto simp: min_def algebra_simps)
  have next_u: "upload_chunks srv url file_data (?u + length ?cd) w1 =
      (if (k + 1) * chunk_size < ?t then upload_chunks srv url file_data ((k + 1) * chunk_size) w1
       else (Inl UnexpectedResponse, w1))"
  proof (cases "(k + 1) * chunk_size < ?t")
    case True
    then have "length ?cd = chunk_size" by simp
    then have "?u + length ?cd = (k + 1) * chunk_size" by simp
    with True show ?thesis by (simp only: if_True)
  next
    case False
    then have "?t \<le> ?u + length ?cd" using assms(1) by (simp add: min_def)
    with False show ?thesis by (simp add: upload_chunks_done)
  qed
  from assms(2) have s': "send srv (PutChunk url ?u (?u + length ?cd - 1) ?t ?cd) w = (resp, w1)"
    by (simp only: rq)
  show ?thesis
    by (subst upload_chunks.simps)
       (simp only: assms(1) if_True Let_def s' prod.case e next_u)
qed

lemma upload_chunks_trace:
  "upload_chunks srv url file_data (k * chunk_size) w = (res, w') \<Longrightarrow>
   \<exists>n. sent w' = sent w @ map (chunk_request url file_data)
                            (take n (drop k (content_ranges (length file_data))))"
proof (induction "length file_data - k * chunk_size" arbitrary: k w rule: less_induct)
  case less
  let ?R = "content_ranges (length file_data)"
  let ?cr = "chunk_request url file_data"
  show ?case
  proof (cases "k * chunk_size < length file_data")
    case False
    with less.prems have "w' = w" by (simp add: upload_chunks_done)
    then have "sent w' = sent w @ map ?cr (take 0 (drop k ?R))" by simp
    then show ?thesis by blast
  next
    case True
    let ?r = "(k * chunk_size, min ((k + 1) * chunk_size) (length file_data) - 1)"
    obtain resp w1 where s: "send srv (?cr ?r) w = (resp, w1)"
      by (cases "send srv (?cr ?r) w")
    have w1: "sent w1 = sent w @ [?cr ?r]" using send_sent [OF s] by simp
    have dr: "drop k ?R = ?r # drop (k + 1) ?R" using True by (rule drop_content_ranges)
    have one: "sent w1 = sent w @ map ?cr (take 1 (drop k ?R))"
      using w1 dr by simp
    note st = upload_chunks_step [OF True s]
    show ?thesis
    proof (cases "status_code resp \<in> {200, 201, 202} \<and> status_code resp \<notin> {200, 201}
        \<and> (k + 1) * chunk_size < length file_data")
      case False
      with st less.prems have "w' = w1" by (auto split: if_splits)
      with one show ?thesis by blast
    next
      case go: True
      with st less.prems have rec: "upload_chunks srv url file_data ((k + 1) * chunk_size) w1 = (res, w')"
        by (auto split: if_splits)
      have "length file_data - (k + 1) * chunk_size < length file_data - k * chunk_size"
        using True chunk_size_pos by simp
      from less.hyps [OF this rec] obtain n where
        n: "sent w' = sent w1 @ map ?cr (take n (drop (k + 1) ?R))"
        by blast
      have "sent w' = sent w @ map ?cr (take (Suc n) (drop k ?R))"
        using n w1 dr by simp
      then show ?thesis by blast
    qed
  qed
qed

lemma upload_chunks_accepted:
  assumes step: "\<And>k st. I k st \<Longrightarrow> k * chunk_size < length file_data \<Longrightarrow>
      (case srv st (chunk_request url file_data
                      (k * chunk_size, min ((k + 1) * chunk_size) (length file_data) - 1)) of
         (r, st') \<Rightarrow>
           if (k + 1) * chunk_size < length file_data then status_code r = 202 \<and> I (k + 1) st'
           else status_code r \<in> {200, 201} \<and> F st')"
    and "I k (remote w)" "k * chunk_size < length file_data"
  shows "fst (upload_chunks srv url file_data (k * chunk_size) w) = Inr ()
     \<and> sent (snd (upload_chunks srv url file_data (k * chunk_size) w)) =
         sent w @ map (chunk_request url file_data) (drop k (content_ranges (length file_data)))
     \<and> F (remote (snd (upload_chunks srv url file_data (k * chunk_size) w)))"
  using assms(2,3)
proof (induction "length file_data - k * chunk_size" arbitrary: k w rule: less_induct)
  case less
  let ?R = "content_ranges (length file_data)"
  let ?cr = "chunk_request url file_data"
  let ?r = "(k * chunk_size, min ((k + 1) * chunk_size) (length file_data) - 1)"
  obtain resp w1 where s: "send srv (?cr ?r) w = (resp, w1)"
    by (cases "send srv (?cr ?r) w")
  have w1: "sent w1 = sent w @ [?cr ?r]" "srv (remote w) (?cr ?r) = (resp, remote w1)"
    using send_sent [OF s] by simp_all
  have dr: "drop k ?R = ?r # drop (k + 1) ?R" using less.prems(2) by (rule drop_content_ranges)
  note st = upload_chunks_step [OF less.prems(2) s]
  from step [OF less.prems] w1(2)
  have resp: "if (k + 1) * chunk_size < length file_data
      then status_code resp = 202 \<and> I (k + 1) (remote w1)
      else status_code resp \<in> {200, 201} \<and> F (remote w1)"
    by simp
  show ?case
  proof (cases "(k + 1) * chunk_size < length file_data")
    case True
    with resp have r: "status_code resp = 202" "I (k + 1) (remote w1)" by simp_all
    have m: "length file_data - (k + 1) * chunk_size < length file_data - k * chunk_size"
      using less.prems(2) chunk_size_pos by simp
    from st r True have "upload_chunks srv url file_data (k * chunk_size) w =
        upload_chunks srv url file_data ((k + 1) * chunk_size) w1"
      by simp
    with less.hyps [OF m r(2) True] w1(1) dr show ?thesis by simp
  next
    case False
    with resp have r: "status_code resp \<in> {200, 201}" "F (remote w1)" by simp_all
    from False have "drop (k + 1) ?R = []" by (simp add: drop_content_ranges_end)
    moreover from st r have "upload_chunks srv url file_data (k * chunk_size) w = (Inr (), w1)"
      by auto
    ultimately show ?thesis using w1(1) dr r(2) by simp
  qed
qed


lemma transfer_small:
  assumes "length file_data < small_file_limit"
    and "send srv (content_request drive folder name ex file_data) w = (resp, w1)"
  shows "transfer srv drive folder name ex file_data w =
     (if status_code resp \<in> {200, 201} then Inr ()
      else Inl ((case ex of Some item \<Rightarrow> UpdateFailed | None \<Rightarrow> UploadFailed) (status_code resp)),
      w1)"
  using assms by (cases ex) (simp_all add: transfer_def)

lemma transfer_small_sent:
  "length file_data < small_file_limit \<Longrightarrow>
   sent (snd (transfer srv drive folder name ex file_data w)) =
     sent w @ [content_request drive folder name ex file_data]"
proof -
  assume a: "length file_data < small_file_limit"
  obtain resp w1 where s: "send srv (content_request drive folder name ex file_data) w = (resp, w1)"
    by (cases "send srv (content_request drive folder name ex file_data) w")
  from transfer_small [OF a s] send_sent [OF s] show ?thesis by simp
qed

lemma transfer_large:
  assumes "\<not> length file_data < small_file_limit"
    and "send srv (session_request drive folder name ex) w = (resp, w1)"
  shows "transfer srv drive folder name ex file_data w =
     (if status_code resp \<noteq> 200 then (Inl (SessionFailed (status_code resp)), w1)
      else
        (case json_body resp of
           UploadSession (Some upload_url) \<Rightarrow>
             if upload_url = [] then (Inl NoUploadUrl, w1)
             else upload_chunks srv upload_url file_data 0 w1
         | UploadSession None \<Rightarrow> (Inl NoUploadUrl, w1)
         | _ \<Rightarrow> (Inl UploadException, w1)))"
  using assms by (cases ex) (simp_all add: transfer_def)

lemma transfer_large_sent:
  assumes "\<not> length file_data < small_file_limit"
  shows "\<exists>url n. sent (snd (transfer srv drive folder name ex file_data w)) =
     sent w @ session_request drive folder name ex
       # map (chunk_request url file_data) (take n (content_ranges (length file_data)))"
proof -
  obtain resp w1 where s: "send srv (session_request drive folder name ex) w = (resp, w1)"
    by (cases "send srv (session_request drive folder name ex) w")
  have w1: "sent w1 = sent w @ [session_request drive folder name ex]"
    using send_sent [OF s] by simp
  note t = transfer_large [OF assms s]
  have none: "sent w1 = sent w @ session_request drive folder name ex
       # map (chunk_request [] file_data) (take 0 (content_ranges (length file_data)))"
    using w1 by simp
  show ?thesis
  proof (cases "status_code resp = 200 \<and>
      (\<exists>url. json_body resp = UploadSession (Some url) \<and> url \<noteq> [])")
    case True
    then obtain url where u: "json_body resp = UploadSession (Some url)" "url \<noteq> []"
      by blast
    with t True have e: "transfer srv drive folder name ex file_data w =
        upload_chunks srv url file_data 0 w1"
      by simp
    obtain res w' where r: "upload_chunks srv url file_data (0 * chunk_size) w1 = (res, w')"
      by (cases "upload_chunks srv url file_data (0 * chunk_size) w1")
    from upload_chunks_trace [OF r] obtain n where
      "sent w' = sent w1 @ map (chunk_request url file_data)
         (take n (drop 0 (content_ranges (length file_data))))"
      by blast
    with e r w1 have "sent (snd (transfer srv drive folder name ex file_data w)) =
        sent w @ session_request drive folder name ex
          # map (chunk_request url file_data) (take n (content_ranges (length file_data)))"
      by simp
    then show ?thesis by blast
  next
    case False
    with t have "snd (transfer srv drive folder name ex file_data w) = w1"
      by (auto split: response_body.splits option.splits)
    with none show ?thesis by metis
  qed
qed

lemma transfer_large_accepted:
  assumes "\<not> length file_data < small_file_limit"
    and "srv (remote w) (session_request drive folder name ex) =
           (\<lparr>status_code = 200, json_body = UploadSession (Some url)\<rparr>, st1)"
    and "url \<noteq> []"
    and "\<forall>st a b d. status_code (fst (srv st (PutChunk url a b (length file_data) d))) =
           (if b + 1 < length file_data then 202 else 201)"
  shows "fst (transfer srv drive folder name ex file_data w) = Inr ()"
    and "sent (snd (transfer srv drive folder name ex file_data w)) =
           sent w @ session_request drive folder name ex
             # map (chunk_request url file_data) (content_ranges (length file_data))"
proof -
  let ?w1 = "\<lparr>remote = st1, sent = sent w @ [session_request drive folder name ex]\<rparr>"
  have s: "send srv (session_request drive folder name ex) w =
      (\<lparr>status_code = 200, json_body = UploadSession (Some url)\<rparr>, ?w1)"
    using assms(2) by (simp add: send_def)
  have e: "transfer srv drive folder name ex file_data w =
      upload_chunks srv url file_data (0 * chunk_size) ?w1"
    using transfer_large [OF assms(1) s] assms(3) by simp
  have pos: "0 * chunk_size < length file_data"
    using assms(1) by (auto simp: small_file_limit_def)
  have step: "\<And>k st. True \<Longrightarrow> k * chunk_size < length file_data \<Longrightarrow>
      (case srv st (chunk_request url file_data
                      (k * chunk_size, min ((k + 1) * chunk_size) (length file_data) - 1)) of
         (r, st') \<Rightarrow>
           if (k + 1) * chunk_size < length file_data then status_code r = 202 \<and> True
           else status_code r \<in> {200, 201} \<and> True)"
  proof -
    fix k st assume k: "k * chunk_size < length file_data"
    have "min ((k + 1) * chunk_size) (length file_data) - 1 + 1 < length file_data
        \<longleftrightarrow> (k + 1) * chunk_size < length file_data"
      using k chunk_size_pos by (auto simp: min_def)
    with assms(4) show "(case srv st (chunk_request url file_data
                      (k * chunk_size, min ((k + 1) * chunk_size) (length file_data) - 1)) of
         (r, st') \<Rightarrow>
           if (k + 1) * chunk_size < length file_data then status_code r = 202 \<and> True
           else status_code r \<in> {200, 201} \<and> True)"
      by (auto simp: chunk_request_def split: prod.splits dest!: spec [where x = st])
         (metis fst_conv)+
  qed
  from upload_chunks_accepted [where I = "\<lambda>k st. True" and F = "\<lambda>st. True", OF step TrueI pos]
  have "fst (upload_chunks srv url file_data (0 * chunk_size) ?w1) = Inr ()"
    "sent (snd (upload_chunks srv url file_data (0 * chunk_size) ?w1)) =
       sent ?w1 @ map (chunk_request url file_data) (drop 0 (content_ranges (length file_data)))"
    by simp_all
  with e show "fst (transfer srv drive folder name ex file_data w) = Inr ()"
    and "sent (snd (transfer srv drive folder name ex file_data w)) =
           sent w @ session_request drive folder name ex
             # map (chunk_request url file_data) (content_ranges (length file_data))"
    by simp_all
qed


lemma upload_reaches_transfer:
  assumes "send srv (GetSite team) w =
             (\<lparr>status_code = 200, json_body = SiteInfo (Some url) (Some site)\<rparr>, w1)"
    and "url \<noteq> []" "site \<noteq> []"
    and "send srv (GetDrives site) w1 =
           (\<lparr>status_code = 200, json_body = DriveList (drive # drives)\<rparr>, w2)"
    and "send srv (ProbeByName drive folder (teams_sanitize_filename name)) w2 = (resp, w3)"
  shows "upload_with_sharepoint_api srv team file_data name folder w =
     (if status_code resp = 200 then
        (case json_body resp of
           ItemList items \<Rightarrow>
             transfer srv drive folder (teams_sanitize_filename name) (truthy_id items)
               file_data w3
         | _ \<Rightarrow> (Inl UploadException, w3))
      else transfer srv drive folder (teams_sanitize_filename name) None file_data w3)"
  using assms by (simp add: upload_with_sharepoint_api_def Let_def)

lemma transfer_sent:
  "\<exists>tr. sent (snd (transfer srv drive folder name ex file_data w)) = sent w @ tr \<and>
     (if length file_data < small_file_limit
      then tr = [content_request drive folder name ex file_data]
      else \<exists>url n. tr = session_request drive folder name ex
             # map (chunk_request url file_data) (take n (content_ranges (length file_data))))"
proof (cases "length file_data < small_file_limit")
  case True
  then show ?thesis using transfer_small_sent by simp
next
  case False
  from transfer_large_sent [OF False, of srv drive folder name ex w]
  obtain url n where "sent (snd (transfer srv drive folder name ex file_data w)) =
     sent w @ session_request drive folder name ex
       # map (chunk_request url file_data) (take n (content_ranges (length file_data)))"
    by blast
  with False show ?thesis by auto
qed

lemma response_eq:
  "status_code (r::response) = c \<Longrightarrow> json_body r = b \<Longrightarrow> r = \<lparr>status_code = c, json_body = b\<rparr>"
  by (cases r) simp

lemma upload_trace:
  "\<exists>site drive ex tr.
     sent (snd (upload_with_sharepoint_api srv team file_data name folder w)) =
       sent w @ [GetSite team]
   \<or> sent (snd (upload_with_sharepoint_api srv team file_data name folder w)) =
       sent w @ [GetSite team, GetDrives site]
   \<or> sent (snd (upload_with_sharepoint_api srv team file_data name folder w)) =
       sent w @ [GetSite team, GetDrives site,
                 ProbeByName drive folder (teams_sanitize_filename name)]
   \<or> (sent (snd (upload_with_sharepoint_api srv team file_data name folder w)) =
         sent w @ [GetSite team, GetDrives site,
                   ProbeByName drive folder (teams_sanitize_filename name)] @ tr
       \<and> (if length file_data < small_file_limit
           then tr = [content_request drive folder (teams_sanitize_filename name) ex file_data]
           else \<exists>url n. tr = session_request drive folder (teams_sanitize_filename name) ex
                  # map (chunk_request url file_data)
                      (take n (content_ranges (length file_data)))))"
proof -
  let ?up = "upload_with_sharepoint_api srv team file_data name folder w"
  let ?name = "teams_sanitize_filename name"
  obtain r1 w1 where s1: "send srv (GetSite team) w = (r1, w1)"
    by (cases "send srv (GetSite team) w")
  have w1: "sent w1 = sent w @ [GetSite team]" using send_sent [OF s1] by simp
  show ?thesis
  proof (cases "status_code r1 = 200 \<and>
      (\<exists>url site. json_body r1 = SiteInfo (Some url) (Some site) \<and> url \<noteq> [] \<and> site \<noteq> [])")
    case False
    with s1 have "snd ?up = w1"
      by (auto simp: upload_with_sharepoint_api_def split: response_body.splits option.splits)
    with w1 show ?thesis by simp
  next
    case True
    then obtain url site where site: "json_body r1 = SiteInfo (Some url) (Some site)"
      "url \<noteq> []" "site \<noteq> []" "status_code r1 = 200"
      by blast
    then have r1: "r1 = \<lparr>status_code = 200, json_body = SiteInfo (Some url) (Some site)\<rparr>"
      by (simp add: response_eq)
    obtain r2 w2 where s2: "send srv (GetDrives site) w1 = (r2, w2)"
      by (cases "send srv (GetDrives site) w1")
    have w2: "sent w2 = sent w @ [GetSite team, GetDrives site]"
      using send_sent [OF s2] w1 by simp
    show ?thesis
    proof (cases "status_code r2 = 200 \<and> (\<exists>drive drives. json_body r2 = DriveList (drive # drives))")
      case False
      with s1 s2 r1 site(2,3) have "snd ?up = w2"
        by (auto simp: upload_with_sharepoint_api_def
            split: response_body.splits option.splits list.splits)
      with w2 show ?thesis by auto
    next
      case True
      then obtain drive drives where "json_body r2 = DriveList (drive # drives)"
        "status_code r2 = 200"
        by blast
      then have r2: "r2 = \<lparr>status_code = 200, json_body = DriveList (drive # drives)\<rparr>"
        by (simp add: response_eq)
      obtain r3 w3 where s3: "send srv (ProbeByName drive folder ?name) w2 = (r3, w3)"
        by (cases "send srv (ProbeByName drive folder ?name) w2")
      have w3: "sent w3 = sent w @ [GetSite team, GetDrives site, ProbeByName drive folder ?name]"
        using send_sent [OF s3] w2 by simp
      note up = upload_reaches_transfer [OF s1 [unfolded r1] site(2,3) s2 [unfolded r2] s3,
          of file_data]
      show ?thesis
      proof (cases "status_code r3 = 200 \<and> (\<forall>items. json_body r3 \<noteq> ItemList items)")
        case True
        with up have "snd ?up = w3" by (auto split: response_body.splits)
        with w3 show ?thesis by auto
      next
        case False
        have "\<exists>ex. ?up = transfer srv drive folder ?name ex file_data w3"
        proof (cases "status_code r3 = 200")
          case True
          with False obtain items where "json_body r3 = ItemList items" by blast
          with up True show ?thesis by auto
        next
          case False
          with up show ?thesis by auto
        qed
        then obtain ex where "?up = transfer srv drive folder ?name ex file_data w3"
          by blast
        moreover from transfer_sent [of srv drive folder ?name ex file_data w3]
        obtain tr where "sent (snd (transfer srv drive folder ?name ex file_data w3)) = sent w3 @ tr"
          "if length file_data < small_file_limit
           then tr = [content_request drive folder ?name ex file_data]
           else \<exists>url n. tr = session_request drive folder ?name ex
                  # map (chunk_request url file_data) (take n (content_ranges (length file_data)))"
          by blast
        ultimately have "sent (snd ?up) =
            sent w @ [GetSite team, GetDrives site, ProbeByName drive folder ?name] @ tr
          \<and> (if length file_data < small_file_limit
           then tr = [content_request drive folder ?name ex file_data]
           else \<exists>url n. tr = session_request drive folder ?name ex
                  # map (chunk_request url file_data) (take n (content_ranges (length file_data))))"
          using w3 by simp
        then show ?thesis by blast
      qed
    qed
  qed
qed

section \<open>Properties of the delivery-side sanitization\<close>

lemma rfind_from_absent: "c \<notin> set xs \<Longrightarrow> rfind_from c xs i found = found"
  by (induction xs arbitrary: i found) auto

lemma rfind_from_last:
  "c \<notin> set post \<Longrightarrow> rfind_from c (pre @ c # post) i found = i + int (length pre)"
  by (induction pre arbitrary: i found) (auto simp: rfind_from_absent)

lemma rfind_absent: "c \<notin> set s \<Longrightarrow> rfind c s = - 1"
  by (simp add: rfind_def rfind_from_absent)

lemma rfind_last: "c \<notin> set post \<Longrightarrow> rfind c (pre @ c # post) = int (length pre)"
  by (simp add: rfind_def rfind_from_last)

lemma splitext_simple:
  assumes "CHR ''/'' \<notin> set pre" "CHR ''/'' \<notin> set post" "CHR ''.'' \<notin> set post"
    "\<exists>c\<in>set pre. c \<noteq> CHR ''.''"
  shows "splitext (pre @ CHR ''.'' # post) = (pre, CHR ''.'' # post)"
proof -
  have sep: "rfind (CHR ''/'') (pre @ CHR ''.'' # post) = - 1"
    using assms(1,2) by (intro rfind_absent) simp
  have dot: "rfind (CHR ''.'') (pre @ CHR ''.'' # post) = int (length pre)"
    using assms(3) by (rule rfind_last)
  from assms(4) have "pre \<noteq> []" by auto
  then show ?thesis
    using assms(4) by (simp add: splitext_def sep dot)
qed

lemma before_truncation_clean:
  assumes "\<forall>c\<in>set s. c \<notin> set sharepoint_invalid_chars" "strip s = s" "s = [] \<or> hd s \<noteq> CHR ''.''"
  shows "before_truncation s = s"
proof -
  have "re_sub_class sharepoint_invalid_chars (CHR ''_'') s = s"
    using assms(1) by (rule re_sub_class_id)
  moreover have "dropWhile (\<lambda>c. c = CHR ''.'') s = s"
    using assms(3) by (cases s) auto
  ultimately show ?thesis using assms(2) by (simp add: before_truncation_def)
qed

lemma long_extension:
  "teams_sanitize_filename (CHR ''a'' # CHR ''.'' # replicate 300 (CHR ''b'')) =
     CHR ''.'' # replicate 300 (CHR ''b'')"
proof -
  let ?s = "CHR ''a'' # CHR ''.'' # replicate 300 (CHR ''b'')"
  have "strip ?s = ?s" by (rule strip_id) (simp_all add: is_space_def)
  then have b: "before_truncation ?s = ?s"
    by (intro before_truncation_clean) (auto simp: sharepoint_invalid_chars_def)
  have "splitext ([CHR ''a''] @ CHR ''.'' # replicate 300 (CHR ''b'')) =
      ([CHR ''a''], CHR ''.'' # replicate 300 (CHR ''b''))"
    by (rule splitext_simple) simp_all
  then have sp: "splitext ?s = ([CHR ''a''], CHR ''.'' # replicate 300 (CHR ''b''))" by simp
  show ?thesis
    by (simp add: teams_sanitize_filename_stages b sp slice_to_def)
qed

lemma long_name:
  "before_truncation (replicate 300 (CHR ''a'') @ ''.pdf'') = replicate 300 (CHR ''a'') @ ''.pdf''"
  "splitext (replicate 300 (CHR ''a'') @ ''.pdf'') = (replicate 300 (CHR ''a''), ''.pdf'')"
proof -
  let ?s = "replicate 300 (CHR ''a'') @ ''.pdf''"
  have "strip ?s = ?s" by (rule strip_id) (simp_all add: is_space_def)
  then show "before_truncation ?s = ?s"
    by (intro before_truncation_clean) (auto simp: sharepoint_invalid_chars_def)
  have "splitext (replicate 300 (CHR ''a'') @ CHR ''.'' # ''pdf'') =
      (replicate 300 (CHR ''a''), CHR ''.'' # ''pdf'')"
    by (rule splitext_simple) simp_all
  then show "splitext ?s = (replicate 300 (CHR ''a''), ''.pdf'')" by simp
qed


lemma upload_names:
  "\<forall>rq\<in>set (drop (length (sent w))
        (sent (snd (upload_with_sharepoint_api srv team file_data name folder w)))).
     named rq = None \<or> named rq = Some (teams_sanitize_filename name)"
proof -
  let ?n = "teams_sanitize_filename name"
  have c: "named (content_request drive folder ?n ex file_data) = None
      \<or> named (content_request drive folder ?n ex file_data) = Some ?n" for drive ex
    by (cases ex) simp_all
  have s: "named (session_request drive folder ?n ex) = None
      \<or> named (session_request drive folder ?n ex) = Some ?n" for drive ex
    by (cases ex) simp_all
  have k: "\<forall>rq\<in>set (map (chunk_request url file_data) rs). named rq = None" for url rs
    by (simp add: chunk_request_def)
  from upload_trace [of srv team file_data name folder w]
  obtain site drive ex tr where t:
    "sent (snd (upload_with_sharepoint_api srv team file_data name folder w)) =
       sent w @ [GetSite team]
   \<or> sent (snd (upload_with_sharepoint_api srv team file_data name folder w)) =
       sent w @ [GetSite team, GetDrives site]
   \<or> sent (snd (upload_with_sharepoint_api srv team file_data name folder w)) =
       sent w @ [GetSite team, GetDrives site, ProbeByName drive folder ?n]
   \<or> (sent (snd (upload_with_sharepoint_api srv team file_data name folder w)) =
         sent w @ [GetSite team, GetDrives site, ProbeByName drive folder ?n] @ tr
       \<and> (if length file_data < small_file_limit
           then tr = [content_request drive folder ?n ex file_data]
           else \<exists>url n. tr = session_request drive folder ?n ex
                  # map (chunk_request url file_data)
                      (take n (content_ranges (length file_data)))))"
    by blast
  have tr: "\<forall>rq\<in>set tr. named rq = None \<or> named rq = Some ?n"
    if "if length file_data < small_file_limit
           then tr = [content_request drive folder ?n ex file_data]
           else \<exists>url n. tr = session_request drive folder ?n ex
                  # map (chunk_request url file_data)
                      (take n (content_ranges (length file_data)))"
  proof (cases "length file_data < small_file_limit")
    case True
    with that c [of drive ex] show ?thesis by simp
  next
    case False
    with that obtain url n where "tr = session_request drive folder ?n ex
                  # map (chunk_request url file_data)
                      (take n (content_ranges (length file_data)))"
      by auto
    with s [of drive ex] k [of url "take n (content_ranges (length file_data))"]
    show ?thesis by auto
  qed
  from t show ?thesis
  proof (elim disjE conjE)
    assume "sent (snd (upload_with_sharepoint_api srv team file_data name folder w)) =
         sent w @ [GetSite team, GetDrives site, ProbeByName drive folder ?n] @ tr"
      and "if length file_data < small_file_limit
           then tr = [content_request drive folder ?n ex file_data]
           else \<exists>url n. tr = session_request drive folder ?n ex
                  # map (chunk_request url file_data)
                      (take n (content_ranges (length file_data)))"
    then show ?thesis using tr by auto
  qed auto
qed

lemma untruncated:
  "length (before_truncation s) \<le> 240 \<Longrightarrow> teams_sanitize_filename s = before_truncation s"
  by (simp add: teams_sanitize_filename_stages)

lemma no_leading_dot_case:
  assumes "strip (re_sub_class sharepoint_invalid_chars (CHR ''_'') s) = []
      \<or> hd (strip (re_sub_class sharepoint_invalid_chars (CHR ''_'') s)) \<noteq> CHR ''.''"
  shows "before_truncation s = strip (re_sub_class sharepoint_invalid_chars (CHR ''_'') s)"
  using assms unfolding before_truncation_def
  by (cases "strip (re_sub_class sharepoint_invalid_chars (CHR ''_'') s)") auto

text \<open>
  Claim C7 (delivery-side sanitization), as amended. \<open>sanitize_filename\<close> replaces each of
  the characters \<open>" * : < > ? / \ | # % { } ~\<close> by an underscore, then strips leading and
  trailing whitespace, then strips leading dots, and a name that is then longer than 240
  characters is cut to the first characters of its name part followed by its extension.
  The result never contains one of the listed characters. A name of at most 240
  characters after the first three steps is returned as it is then: it does not begin
  with a dot nor end with whitespace, and when the stripped name did not begin with a dot
  it does not begin with whitespace either. A longer name whose extension has at most
  240 characters comes out with exactly 240 characters, ending with its extension. A name
  that needs none of the steps is returned unchanged. Every request of one delivery that
  carries a file name, the existence probe and the uploads by path, carries the sanitized
  name.
\<close>

theorem delivery_sanitization:
  "(\<forall>c\<in>set (teams_sanitize_filename s). c \<notin> set sharepoint_invalid_chars)
   \<and> (length (before_truncation s) \<le> 240 \<longrightarrow>
        teams_sanitize_filename s = before_truncation s
        \<and> length (teams_sanitize_filename s) \<le> 240
        \<and> (teams_sanitize_filename s \<noteq> [] \<longrightarrow>
             hd (teams_sanitize_filename s) \<noteq> CHR ''.''
             \<and> \<not> is_space (last (teams_sanitize_filename s))))
   \<and> (length (before_truncation s) \<le> 240
        \<and> (strip (re_sub_class sharepoint_invalid_chars (CHR ''_'') s) = []
             \<or> hd (strip (re_sub_class sharepoint_invalid_chars (CHR ''_'') s)) \<noteq> CHR ''.'') \<longrightarrow>
        teams_sanitize_filename s = strip (re_sub_class sharepoint_invalid_chars (CHR ''_'') s)
        \<and> (teams_sanitize_filename s \<noteq> [] \<longrightarrow> \<not> is_space (hd (teams_sanitize_filename s))))
   \<and> (length (before_truncation s) > 240
        \<and> length (snd (splitext (before_truncation s))) \<le> 240 \<longrightarrow>
        length (teams_sanitize_filename s) = 240
        \<and> teams_sanitize_filename s =
            take (240 - length (snd (splitext (before_truncation s)))) (before_truncation s)
            @ snd (splitext (before_truncation s)))
   \<and> ((\<forall>c\<in>set s. c \<notin> set sharepoint_invalid_chars) \<and> strip s = s
        \<and> (s = [] \<or> hd s \<noteq> CHR ''.'') \<and> length s \<le> 240 \<longrightarrow>
        teams_sanitize_filename s = s)
   \<and> (\<forall>rq\<in>set (drop (length (sent w))
            (sent (snd (upload_with_sharepoint_api srv team file_data s folder w)))).
         named rq = None \<or> named rq = Some (teams_sanitize_filename s))"
proof (intro conjI impI)
  show "\<forall>c\<in>set (teams_sanitize_filename s). c \<notin> set sharepoint_invalid_chars"
    by (rule teams_sanitize_filename_chars)
  show "teams_sanitize_filename s = before_truncation s"
    if "length (before_truncation s) \<le> 240"
    using that by (rule untruncated)
  show "length (teams_sanitize_filename s) \<le> 240" if "length (before_truncation s) \<le> 240"
    using that by (simp add: untruncated)
  show "hd (teams_sanitize_filename s) \<noteq> CHR ''.''"
    if "length (before_truncation s) \<le> 240" "teams_sanitize_filename s \<noteq> []"
    using that before_truncation_ends(1) [of s] by (simp add: untruncated)
  show "\<not> is_space (last (teams_sanitize_filename s))"
    if "length (before_truncation s) \<le> 240" "teams_sanitize_filename s \<noteq> []"
    using that before_truncation_ends(2) [of s] by (simp add: untruncated)
  show "teams_sanitize_filename s = strip (re_sub_class sharepoint_invalid_chars (CHR ''_'') s)"
    if "length (before_truncation s) \<le> 240
        \<and> (strip (re_sub_class sharepoint_invalid_chars (CHR ''_'') s) = []
             \<or> hd (strip (re_sub_class sharepoint_invalid_chars (CHR ''_'') s)) \<noteq> CHR ''.'')"
    using that no_leading_dot_case [of s] by (simp add: untruncated)
  show "\<not> is_space (hd (teams_sanitize_filename s))"
    if "length (before_truncation s) \<le> 240
        \<and> (strip (re_sub_class sharepoint_invalid_chars (CHR ''_'') s) = []
             \<or> hd (strip (re_sub_class sharepoint_invalid_chars (CHR ''_'') s)) \<noteq> CHR ''.'')"
      "teams_sanitize_filename s \<noteq> []"
    using that no_leading_dot_case [of s]
      strip_ends [of "re_sub_class sharepoint_invalid_chars (CHR ''_'') s"]
    by (simp add: untruncated)
  show "length (teams_sanitize_filename s) = 240"
    if "length (before_truncation s) > 240
        \<and> length (snd (splitext (before_truncation s))) \<le> 240"
    using that truncated_length(2) [of s] by simp
  show "teams_sanitize_filename s =
            take (240 - length (snd (splitext (before_truncation s)))) (before_truncation s)
            @ snd (splitext (before_truncation s))"
    if "length (before_truncation s) > 240
        \<and> length (snd (splitext (before_truncation s))) \<le> 240"
    using that truncated_length(1) [of s] by simp
  show "teams_sanitize_filename s = s"
    if "(\<forall>c\<in>set s. c \<notin> set sharepoint_invalid_chars) \<and> strip s = s
        \<and> (s = [] \<or> hd s \<noteq> CHR ''.'') \<and> length s \<le> 240"
    using that before_truncation_clean [of s] by (simp add: untruncated)
  show "\<forall>rq\<in>set (drop (length (sent w))
            (sent (snd (upload_with_sharepoint_api srv team file_data s folder w)))).
         named rq = None \<or> named rq = Some (teams_sanitize_filename s)"
    by (rule upload_names)
qed


lemma sanitize_example:
  "before_truncation ''  report: Q1?.pdf '' = ''report_ Q1_.pdf''"
  "strip (re_sub_class sharepoint_invalid_chars (CHR ''_'') ''  report: Q1?.pdf '') =
     ''report_ Q1_.pdf''"
  by (simp_all add: before_truncation_def re_sub_class_def sharepoint_invalid_chars_def
      strip_def is_space_def)

lemma small_upload_example:
  "sent (snd (upload_with_sharepoint_api accepting_server ''team'' ''%PDF'' ''a:b.pdf''
                ''folder'' no_requests)) =
     [GetSite ''team'', GetDrives ''site-1'', ProbeByName ''drive-1'' ''folder'' ''a_b.pdf'',
      PutContentByPath ''drive-1'' ''folder'' ''a_b.pdf'' ''%PDF'']"
proof -
  have n: "teams_sanitize_filename ''a:b.pdf'' = ''a_b.pdf''"
    by (simp add: teams_sanitize_filename_def re_sub_class_def sharepoint_invalid_chars_def
        strip_def is_space_def)
  show ?thesis
    by (simp add: upload_with_sharepoint_api_def send_def accepting_server_def no_requests_def
        n transfer_def truthy_id_def small_file_limit_def Let_def)
qed

theorem delivery_sanitization_witness:
  "length (before_truncation ''  report: Q1?.pdf '') \<le> 240
   \<and> hd (strip (re_sub_class sharepoint_invalid_chars (CHR ''_'') ''  report: Q1?.pdf ''))
       \<noteq> CHR ''.''
   \<and> teams_sanitize_filename ''  report: Q1?.pdf '' = ''report_ Q1_.pdf''
   \<and> length (before_truncation (replicate 300 (CHR ''a'') @ ''.pdf'')) > 240
   \<and> length (snd (splitext (before_truncation (replicate 300 (CHR ''a'') @ ''.pdf'')))) \<le> 240
   \<and> teams_sanitize_filename (replicate 300 (CHR ''a'') @ ''.pdf'') =
       replicate 236 (CHR ''a'') @ ''.pdf''
   \<and> strip ''000495 WMC-AAM Advisory.pdf'' = ''000495 WMC-AAM Advisory.pdf''
   \<and> teams_sanitize_filename ''000495 WMC-AAM Advisory.pdf'' = ''000495 WMC-AAM Advisory.pdf''
   \<and> list_all (\<lambda>rq. named rq = None \<or> named rq = Some ''a_b.pdf'')
        (sent (snd (upload_with_sharepoint_api accepting_server ''team'' ''%PDF'' ''a:b.pdf''
                      ''folder'' no_requests)))"
proof -
  let ?a = "''  report: Q1?.pdf ''"
  have a1: "length (before_truncation ?a) \<le> 240"
    "hd (strip (re_sub_class sharepoint_invalid_chars (CHR ''_'') ?a)) \<noteq> CHR ''.''"
    by (simp_all add: sanitize_example)
  from delivery_sanitization [of ?a] a1
  have "teams_sanitize_filename ?a = strip (re_sub_class sharepoint_invalid_chars (CHR ''_'') ?a)"
    by blast
  then have a2: "teams_sanitize_filename ?a = ''report_ Q1_.pdf''"
    by (simp add: sanitize_example)
  let ?b = "replicate 300 (CHR ''a'') @ ''.pdf''"
  have b1: "length (before_truncation ?b) > 240"
    "length (snd (splitext (before_truncation ?b))) \<le> 240"
    by (simp_all add: long_name)
  from delivery_sanitization [of ?b] b1
  have "teams_sanitize_filename ?b =
      take (240 - length (snd (splitext (before_truncation ?b)))) (before_truncation ?b)
      @ snd (splitext (before_truncation ?b))"
    by blast
  then have b2: "teams_sanitize_filename ?b = replicate 236 (CHR ''a'') @ ''.pdf''"
    by (simp add: long_name)
  let ?c = "''000495 WMC-AAM Advisory.pdf''"
  have c1: "strip ?c = ?c" by (rule strip_id) (simp_all add: is_space_def)
  have "(\<forall>c\<in>set ?c. c \<notin> set sharepoint_invalid_chars) \<and> strip ?c = ?c
      \<and> (?c = [] \<or> hd ?c \<noteq> CHR ''.'') \<and> length ?c \<le> 240"
    using c1 by (simp add: sharepoint_invalid_chars_def)
  with delivery_sanitization [of ?c] have c2: "teams_sanitize_filename ?c = ?c"
    by blast
  have n: "teams_sanitize_filename ''a:b.pdf'' = ''a_b.pdf''"
    by (simp add: teams_sanitize_filename_def re_sub_class_def sharepoint_invalid_chars_def
        strip_def is_space_def)
  from delivery_sanitization [of "''a:b.pdf''" no_requests accepting_server "''team''"
      "''%PDF''" "''folder''"]
  have "\<forall>rq\<in>set (drop (length (sent no_requests))
            (sent (snd (upload_with_sharepoint_api accepting_server ''team'' ''%PDF''
                          ''a:b.pdf'' ''folder'' no_requests)))).
         named rq = None \<or> named rq = Some (teams_sanitize_filename ''a:b.pdf'')"
    by blast
  then have d: "list_all (\<lambda>rq. named rq = None \<or> named rq = Some ''a_b.pdf'')
        (sent (snd (upload_with_sharepoint_api accepting_server ''team'' ''%PDF'' ''a:b.pdf''
                      ''folder'' no_requests)))"
    by (simp add: n no_requests_def list_all_iff)
  from a1 a2 b1 b2 c1 c2 d show ?thesis by blast
qed

text \<open>
  Claim C7 as stated fails. The listed characters are replaced, not stripped; the leading
  dots are stripped after the whitespace, so a name may come out with leading whitespace;
  and a name whose extension is longer than 240 characters comes out longer than 240
  characters, beginning with a dot.
\<close>

theorem delivery_sanitization_counterexample:
  "teams_sanitize_filename ''. a:b.pdf'' = '' a_b.pdf''
   \<and> is_space (hd (teams_sanitize_filename ''. a:b.pdf''))
   \<and> length (teams_sanitize_filename (CHR ''a'' # CHR ''.'' # replicate 300 (CHR ''b''))) = 301
   \<and> hd (teams_sanitize_filename (CHR ''a'' # CHR ''.'' # replicate 300 (CHR ''b''))) = CHR ''.''"
proof -
  have "teams_sanitize_filename ''. a:b.pdf'' = '' a_b.pdf''"
    by (simp add: teams_sanitize_filename_def re_sub_class_def sharepoint_invalid_chars_def
        strip_def is_space_def)
  then show ?thesis by (simp add: long_extension is_space_def)
qed

section \<open>Properties of the transfer strategy\<close>

lemma length_content_ranges:
  "length (content_ranges t) = (t + chunk_size - 1) div chunk_size"
  by (simp add: content_ranges_def)

lemma content_ranges_index: "i < length (content_ranges t) \<longleftrightarrow> i * chunk_size < t"
  using ceil_div_less [OF chunk_size_pos, of i t] by (simp add: length_content_ranges)

lemma content_ranges_nth:
  "i < length (content_ranges t) \<Longrightarrow>
   content_ranges t ! i = (i * chunk_size, min ((i + 1) * chunk_size) t - 1)"
  by (simp add: content_ranges_def)

lemma content_ranges_first:
  assumes "0 < t"
  shows "content_ranges t \<noteq> []" "fst (hd (content_ranges t)) = 0"
proof -
  have l: "0 < length (content_ranges t)" using assms content_ranges_index [of 0 t] by simp
  then show "content_ranges t \<noteq> []" by auto
  with l show "fst (hd (content_ranges t)) = 0"
    by (simp add: hd_conv_nth content_ranges_nth)
qed

lemma content_ranges_last:
  assumes "0 < t"
  shows "snd (last (content_ranges t)) = t - 1"
proof -
  let ?R = "content_ranges t"
  have ne: "?R \<noteq> []" using assms by (rule content_ranges_first)
  let ?i = "length ?R - 1"
  have i: "?i < length ?R" using ne by simp
  have "\<not> Suc ?i < length ?R" by simp
  then have "\<not> (?i + 1) * chunk_size < t"
    using content_ranges_index [of "Suc ?i" t] by simp
  then have "min ((?i + 1) * chunk_size) t = t" by (simp add: min_def)
  then show ?thesis
    using ne i by (simp add: last_conv_nth content_ranges_nth)
qed

lemma content_ranges_contiguous:
  assumes "Suc i < length (content_ranges t)"
  shows "fst (content_ranges t ! Suc i) = snd (content_ranges t ! i) + 1"
    and "snd (content_ranges t ! i) + 1 - fst (content_ranges t ! i) = chunk_size"
proof -
  from assms have lt: "Suc i * chunk_size < t" by (simp add: content_ranges_index)
  from assms have i: "i < length (content_ranges t)" by simp
  have a: "content_ranges t ! i = (i * chunk_size, Suc i * chunk_size - 1)"
    using content_ranges_nth [OF i] lt by (simp add: min_def)
  have b: "fst (content_ranges t ! Suc i) = Suc i * chunk_size"
    using content_ranges_nth [OF assms] by simp
  have pos: "0 < Suc i * chunk_size" using chunk_size_pos by simp
  show "fst (content_ranges t ! Suc i) = snd (content_ranges t ! i) + 1"
    unfolding a b using pos by (simp del: mult_Suc)
  show "snd (content_ranges t ! i) + 1 - fst (content_ranges t ! i) = chunk_size"
    unfolding a using pos by simp
qed

lemma content_ranges_sizes:
  assumes "i < length (content_ranges t)"
  shows "fst (content_ranges t ! i) \<le> snd (content_ranges t ! i)"
    and "snd (content_ranges t ! i) + 1 - fst (content_ranges t ! i) \<le> chunk_size"
proof -
  from assms have lt: "i * chunk_size < t" by (simp add: content_ranges_index)
  show "fst (content_ranges t ! i) \<le> snd (content_ranges t ! i)"
    using assms lt chunk_size_pos by (auto simp: content_ranges_nth min_def)
  show "snd (content_ranges t ! i) + 1 - fst (content_ranges t ! i) \<le> chunk_size"
    using assms lt chunk_size_pos by (auto simp: content_ranges_nth min_def)
qed

lemma content_ranges_cover_from:
  "concat (map (\<lambda>r. take (snd r + 1 - fst r) (drop (fst r) file_data))
            (drop k (content_ranges (length file_data)))) = drop (k * chunk_size) file_data"
proof (induction "length file_data - k * chunk_size" arbitrary: k rule: less_induct)
  case less
  show ?case
  proof (cases "k * chunk_size < length file_data")
    case False
    then show ?thesis by (simp add: drop_content_ranges_end)
  next
    case True
    have m: "length file_data - (k + 1) * chunk_size < length file_data - k * chunk_size"
      using True chunk_size_pos by simp
    have sz: "min ((k + 1) * chunk_size) (length file_data) - 1 + 1 - k * chunk_size =
        min chunk_size (length file_data - k * chunk_size)"
      using True chunk_size_pos by (auto simp: min_def)
    have "take (min chunk_size (length file_data - k * chunk_size)) (drop (k * chunk_size) file_data)
        = take chunk_size (drop (k * chunk_size) file_data)"
      by (simp add: min_def)
    moreover have "drop ((k + 1) * chunk_size) file_data =
        drop chunk_size (drop (k * chunk_size) file_data)"
      by (simp add: add.commute)
    moreover have "take chunk_size (drop (k * chunk_size) file_data)
        @ drop chunk_size (drop (k * chunk_size) file_data) = drop (k * chunk_size) file_data"
      by (rule append_take_drop_id)
    ultimately have "take (min ((k + 1) * chunk_size) (length file_data) - 1 + 1 - k * chunk_size)
          (drop (k * chunk_size) file_data)
        @ drop ((k + 1) * chunk_size) file_data = drop (k * chunk_size) file_data"
      unfolding sz by (simp only:)
    then show ?thesis
      using less.hyps [OF m] by (simp only: drop_content_ranges [OF True] list.map concat.simps
          fst_conv snd_conv)
  qed
qed

lemma content_ranges_cover:
  "concat (map (\<lambda>r. take (snd r + 1 - fst r) (drop (fst r) file_data))
            (content_ranges (length file_data))) = file_data"
  using content_ranges_cover_from [of file_data 0] by simp

lemma five_mib_ranges:
  "content_ranges (5 * 1024 * 1024) =
   [(0, 1048575), (1048576, 2097151), (2097152, 3145727), (3145728, 4194303),
    (4194304, 5242879)]"
  by (simp add: content_ranges_def chunk_size_def upt_conv_Cons)


lemma limit_value: "small_file_limit = 4 * 1024 * 1024" "chunk_size = 1024 * 1024"
  by (simp_all add: small_file_limit_def chunk_size_def)

section \<open>Properties of the batch\<close>

lemma get_payee_shortform_rows:
  "rows df = rows df' \<Longrightarrow> fst (get_payee_shortform payee df) = fst (get_payee_shortform payee df')"
proof (cases payee)
  case (PStr p)
  assume "rows df = rows df'"
  with PStr show ?thesis by (simp add: get_payee_shortform_str)
qed (simp_all add: get_payee_shortform_def)

lemma name_document_rows:
  assumes "rows df = rows df'"
  shows "fst (name_document kvs pdf df) = fst (name_document kvs pdf df')"
proof -
  obtain r d where g: "get_payee_shortform (get_default kvs ''payee'' PNone) df = (r, d)"
    by (cases "get_payee_shortform (get_default kvs ''payee'' PNone) df")
  obtain r' d' where g': "get_payee_shortform (get_default kvs ''payee'' PNone) df' = (r', d')"
    by (cases "get_payee_shortform (get_default kvs ''payee'' PNone) df'")
  from get_payee_shortform_rows [OF assms, of "get_default kvs ''payee'' PNone"] g g'
  have "r = r'" by simp
  with g g' show ?thesis
    by (simp add: name_document_def Let_def split: sum.splits)
qed

lemma process_response_rows:
  "rows df = rows df' \<Longrightarrow>
   fst (process_response loads raw pdf df) = fst (process_response loads raw pdf df')"
  using name_document_rows [of df df']
  by (auto simp: process_response_def split: option.splits sum.splits bool.splits json.splits)

lemma process_echeque_rows:
  "rows df = rows df' \<Longrightarrow>
   fst (process_echeque pdf_to_image loads model pdf key df) =
   fst (process_echeque pdf_to_image loads model pdf key df')"
  using process_response_rows [of df df']
  by (auto simp: process_echeque_def split: pdf_outcome.splits sum.splits)

lemma process_echeque_keeps_rows:
  "rows (snd (process_echeque pdf_to_image loads model pdf key df)) = rows df"
  using process_echeque_table [of pdf_to_image loads model pdf key df] by auto

lemma process_loop_records:
  "rows df = rows df0 \<Longrightarrow>
   fst (process_loop pdf_to_image loads model key i files df processed errs) =
     (processed @ success_records (document_outcome pdf_to_image loads model key df0)
                    (enumerate i files),
      errs @ failure_records (document_outcome pdf_to_image loads model key df0)
               (enumerate i files))"
proof (induction files arbitrary: i df processed errs)
  case Nil
  then show ?case by (simp add: success_records_def failure_records_def)
next
  case (Cons fi rest)
  obtain r d where p: "process_echeque pdf_to_image loads (model i) (content fi) key df = (r, d)"
    by (cases "process_echeque pdf_to_image loads (model i) (content fi) key df")
  have d: "rows d = rows df0"
    using process_echeque_keeps_rows [of pdf_to_image loads "model i" "content fi" key df] p
      Cons.prems by simp
  have out: "document_outcome pdf_to_image loads model key df0 (i, fi) = r"
    using process_echeque_rows [OF Cons.prems, of pdf_to_image loads "model i" "content fi" key] p
    by (simp add: document_outcome_def)
  show ?case
  proof (cases r)
    case (Inl err)
    with p out Cons.IH [OF d, of "Suc i" processed
        "errs @ [\<lparr>failed_filename = filename fi, error = err\<rparr>]"]
    show ?thesis by (simp add: success_records_def failure_records_def)
  next
    case (Inr result)
    with p out Cons.IH [OF d, of "Suc i" "processed @ [add_file_info fi result]" errs]
    show ?thesis by (simp add: success_records_def failure_records_def)
  qed
qed

lemma records_length:
  "length (success_records out ds) + length (failure_records out ds) = length ds"
  by (induction ds) (auto simp: success_records_def failure_records_def split: sum.splits)


lemma add_file_info_name [simp]: "original_filename (add_file_info fi r) = filename fi"
  by (simp add: add_file_info_def echeque_result.defs processed_file.defs)

lemma success_records_names:
  "map original_filename (success_records out ds) =
     map (\<lambda>d. filename (snd d)) (filter (\<lambda>d. \<not> isl (out d)) ds)"
  by (induction ds) (auto simp: success_records_def split: sum.splits)

lemma failure_records_names:
  "map failed_filename (failure_records out ds) =
     map (\<lambda>d. filename (snd d)) (filter (\<lambda>d. isl (out d)) ds)"
  by (induction ds) (auto simp: failure_records_def split: sum.splits)

lemma failure_records_errors:
  "map (\<lambda>f. Inl (error f)) (failure_records out ds) = map out (filter (\<lambda>d. isl (out d)) ds)"
  by (induction ds) (auto simp: failure_records_def split: sum.splits)

lemma upload_loop_records:
  "\<exists>rs. fst (upload_loop srv team ups w acc) = acc @ rs
        \<and> length rs = length ups
        \<and> map uploaded_filename rs = map generated_filename ups
        \<and> map uploaded_original_filename rs = map original_filename ups
        \<and> map target_folder_id rs =
            map (\<lambda>u. folder_id (determine_target_folder (generated_filename u))) ups
        \<and> (\<forall>r\<in>set rs. success r \<longleftrightarrow> error_detail r = None)"
proof (induction ups arbitrary: w acc)
  case Nil
  then show ?case by simp
next
  case (Cons fi rest)
  let ?t = "determine_target_folder (generated_filename fi)"
  obtain r w1 where u: "upload_file srv team (folder_id ?t) (pdf_data fi) (generated_filename fi) w
      = (r, w1)"
    by (cases "upload_file srv team (folder_id ?t) (pdf_data fi) (generated_filename fi) w")
  let ?rec = "\<lparr>uploaded_filename = generated_filename fi,
                  uploaded_original_filename = original_filename fi,
                  success = (case r of Inr u \<Rightarrow> True | Inl e \<Rightarrow> False),
                  error_detail = (case r of Inr u \<Rightarrow> None | Inl e \<Rightarrow> Some e),
                  target_folder_name = folder_name ?t,
                  target_folder_id = folder_id ?t\<rparr>"
  have step: "upload_loop srv team (fi # rest) w acc = upload_loop srv team rest w1 (acc @ [?rec])"
    using u by (simp add: Let_def)
  from Cons.IH [of w1 "acc @ [?rec]"] obtain rs where
    rs: "fst (upload_loop srv team rest w1 (acc @ [?rec])) = (acc @ [?rec]) @ rs"
      "length rs = length rest"
      "map uploaded_filename rs = map generated_filename rest"
      "map uploaded_original_filename rs = map original_filename rest"
      "map target_folder_id rs =
         map (\<lambda>u. folder_id (determine_target_folder (generated_filename u))) rest"
      "\<forall>r\<in>set rs. success r \<longleftrightarrow> error_detail r = None"
    by blast
  have ok: "success ?rec \<longleftrightarrow> error_detail ?rec = None" by (cases r) simp_all
  have "fst (upload_loop srv team (fi # rest) w acc) = acc @ (?rec # rs)
        \<and> length (?rec # rs) = length (fi # rest)
        \<and> map uploaded_filename (?rec # rs) = map generated_filename (fi # rest)
        \<and> map uploaded_original_filename (?rec # rs) = map original_filename (fi # rest)
        \<and> map target_folder_id (?rec # rs) =
            map (\<lambda>u. folder_id (determine_target_folder (generated_filename u))) (fi # rest)
        \<and> (\<forall>r\<in>set (?rec # rs). success r \<longleftrightarrow> error_detail r = None)"
    using step rs ok by simp
  then show ?case by blast
qed

lemma upload_files_to_teams_records:
  "\<exists>rs. fst (upload_files_to_teams srv (Inr token) team ups w) = (Some rs, None)
        \<and> length rs = length ups
        \<and> map uploaded_filename rs = map generated_filename ups
        \<and> map uploaded_original_filename rs = map original_filename ups
        \<and> map target_folder_id rs =
            map (\<lambda>u. folder_id (determine_target_folder (generated_filename u))) ups
        \<and> (\<forall>r\<in>set rs. success r \<longleftrightarrow> error_detail r = None)"
proof -
  from upload_loop_records [of srv team ups w "[]"] obtain rs where
    rs: "fst (upload_loop srv team ups w []) = [] @ rs"
      "length rs = length ups"
      "map uploaded_filename rs = map generated_filename ups"
      "map uploaded_original_filename rs = map original_filename ups"
      "map target_folder_id rs =
         map (\<lambda>u. folder_id (determine_target_folder (generated_filename u))) ups"
      "\<forall>r\<in>set rs. success r \<longleftrightarrow> error_detail r = None"
    by blast
  from rs(1) have "fst (upload_files_to_teams srv (Inr token) team ups w) = (Some rs, None)"
    by (auto simp: upload_files_to_teams_def split: prod.splits)
  with rs show ?thesis by blast
qed


lemma answers_each_answers: "answers_each text i = answers text"
  by (rule ext) (simp add: answers_each_def answers_def)

lemma processed_example:
  assumes "pdf \<noteq> []"
  shows "\<not> isl (fst (process_echeque renders_nonempty loads_responses
                       (answers response_without_next_step) pdf ''key'' one_row_table))"
proof -
  have s: "strip response_without_next_step = response_without_next_step"
    by (rule strip_id) (simp_all add: response_without_next_step_def is_space_def quoted_def)
  have 1: "call_gemini_api (answers response_without_next_step) ''key'' =
       Inr response_without_next_step"
    by (simp add: call_answers s)
  have 2: "clean_response response_without_next_step = response_without_next_step"
    by (simp add: clean_response_def s) (simp add: response_without_next_step_def)
  have 3: "all_fields_in required_fields (JObject fields_without_next_step) = Inr True"
    by (simp add: all_fields_in_object required_fields_def fields_without_next_step_def)
  have 4: "map_of fields_without_next_step ''payee'' = Some (PStr ''AAM Advisory'')"
    "map_of fields_without_next_step ''payer'' = Some (PStr ''WEALTH MANAGEMENT CUBE LIMITED'')"
    by (simp_all add: fields_without_next_step_def)
  from name_document_str [OF 4, of pdf one_row_table]
  have 5: "\<not> isl (fst (name_document fields_without_next_step pdf one_row_table))"
    by auto
  show ?thesis
    using assms 1 2 3 5
    by (simp add: process_echeque_def renders_nonempty_def process_response_def
        loads_responses_def)
qed

lemma empty_example:
  "fst (process_echeque renders_nonempty loads model [] key df) =
     Inl (Message ''Uploaded PDF is empty.'')"
  by (simp add: process_echeque_def renders_nonempty_def)

section \<open>The transfer strategy of a delivery\<close>

lemma upload_after_probe:
  assumes "srv (remote w) (GetSite team) =
             (\<lparr>status_code = 200, json_body = SiteInfo (Some site_url) (Some site_id)\<rparr>, st1)"
    and "site_url \<noteq> []" and "site_id \<noteq> []"
    and "srv st1 (GetDrives site_id) =
           (\<lparr>status_code = 200, json_body = DriveList (drive # drives)\<rparr>, st2)"
    and "srv st2 (ProbeByName drive folder (teams_sanitize_filename name)) = (check, st3)"
    and "status_code check = 200 \<longrightarrow> (\<exists>items. json_body check = ItemList items)"
  shows "upload_with_sharepoint_api srv team file_data name folder w =
     transfer srv drive folder (teams_sanitize_filename name)
       (if status_code check = 200
        then (case json_body check of
                ItemList (item # rest) \<Rightarrow> if item = [] then None else Some item
              | _ \<Rightarrow> None)
        else None)
       file_data
       \<lparr>remote = st3,
        sent = sent w @ [GetSite team, GetDrives site_id,
                         ProbeByName drive folder (teams_sanitize_filename name)]\<rparr>"
proof -
  let ?n = "teams_sanitize_filename name"
  let ?w1 = "\<lparr>remote = st1, sent = sent w @ [GetSite team]\<rparr>"
  let ?w2 = "\<lparr>remote = st2, sent = sent w @ [GetSite team, GetDrives site_id]\<rparr>"
  let ?w3 = "\<lparr>remote = st3, sent = sent w @ [GetSite team, GetDrives site_id,
      ProbeByName drive folder ?n]\<rparr>"
  have s1: "send srv (GetSite team) w =
      (\<lparr>status_code = 200, json_body = SiteInfo (Some site_url) (Some site_id)\<rparr>, ?w1)"
    using assms(1) by (simp add: send_def)
  have s2: "send srv (GetDrives site_id) ?w1 =
      (\<lparr>status_code = 200, json_body = DriveList (drive # drives)\<rparr>, ?w2)"
    using assms(4) by (simp add: send_def)
  have s3: "send srv (ProbeByName drive folder ?n) ?w2 = (check, ?w3)"
    using assms(5) by (simp add: send_def)
  note up = upload_reaches_transfer [OF s1 assms(2,3) s2 s3, of file_data]
  show ?thesis
  proof (cases "status_code check = 200")
    case False
    with up show ?thesis by simp
  next
    case True
    with assms(6) obtain items where i: "json_body check = ItemList items" by blast
    with up True show ?thesis
      by (cases items) (simp_all add: truthy_id_def)
  qed
qed

text \<open>
  Claim C2 (transfer strategy by size). A delivery looks up the site and the drive and
  then probes the folder for the sanitized name. When the probe is answered with 200 and
  a list of items whose first item has an id, that id is the existing item; when the
  list is empty, the id is empty, or the probe is answered with another status, there is
  none. What is sent after the probe depends on the size of the payload only. A payload
  of less than 4 MiB is sent in one request: to the content of the existing item when the
  probe found one, and by folder and name otherwise. A payload of 4 MiB or more opens an
  upload session, on the existing item or by folder and name, declaring \<open>replace\<close>, and
  is then sent as chunk requests that are an initial part of the list of its 1 MiB
  ranges, each with its \<open>start-end/total\<close> descriptor and exactly the bytes of its range;
  the whole list is sent, and the delivery succeeds, when the store answers 202 to every
  chunk but the last and 201 to the last. The ranges start at byte 0, each starts where
  the one before it ended, all but the last have 1 MiB, the last ends with the payload,
  and together they are the payload. A payload of 5 MiB has five ranges of 1 MiB.
\<close>

theorem transfer_strategy:
  assumes "srv (remote w) (GetSite team) =
             (\<lparr>status_code = 200, json_body = SiteInfo (Some site_url) (Some site_id)\<rparr>, st1)"
    and "site_url \<noteq> []" and "site_id \<noteq> []"
    and "srv st1 (GetDrives site_id) =
           (\<lparr>status_code = 200, json_body = DriveList (drive # drives)\<rparr>, st2)"
    and "srv st2 (ProbeByName drive folder (teams_sanitize_filename name)) = (check, st3)"
    and "status_code check = 200 \<longrightarrow> (\<exists>items. json_body check = ItemList items)"
  shows
  "(let run = upload_with_sharepoint_api srv team file_data name folder w;
        safe_name = teams_sanitize_filename name;
        lookups = [GetSite team, GetDrives site_id, ProbeByName drive folder safe_name];
        found = (if status_code check = 200
                 then (case json_body check of
                         ItemList (item # rest) \<Rightarrow> if item = [] then None else Some item
                       | _ \<Rightarrow> None)
                 else None)
    in (length file_data < 4 * 1024 * 1024 \<longrightarrow>
          sent (snd run) =
            sent w @ lookups @
              [case found of Some item \<Rightarrow> PutContentById drive item file_data
               | None \<Rightarrow> PutContentByPath drive folder safe_name file_data])
       \<and> (4 * 1024 * 1024 \<le> length file_data \<longrightarrow>
            (\<exists>url n. sent (snd run) =
               sent w @ lookups @
                 (case found of Some item \<Rightarrow> CreateSessionById drive item ''replace''
                  | None \<Rightarrow> CreateSessionByPath drive folder safe_name ''replace'')
                 # map (chunk_request url file_data)
                     (take n (content_ranges (length file_data)))))
       \<and> (4 * 1024 * 1024 \<le> length file_data
            \<and> srv st3 (case found of Some item \<Rightarrow> CreateSessionById drive item ''replace''
                        | None \<Rightarrow> CreateSessionByPath drive folder safe_name ''replace'') =
                (\<lparr>status_code = 200, json_body = UploadSession (Some upload_url)\<rparr>, st4)
            \<and> upload_url \<noteq> []
            \<and> (\<forall>st a b d.
                  status_code (fst (srv st (PutChunk upload_url a b (length file_data) d))) =
                    (if b + 1 < length file_data then 202 else 201)) \<longrightarrow>
            fst run = Inr ()
            \<and> sent (snd run) =
                sent w @ lookups @
                  (case found of Some item \<Rightarrow> CreateSessionById drive item ''replace''
                   | None \<Rightarrow> CreateSessionByPath drive folder safe_name ''replace'')
                  # map (chunk_request upload_url file_data)
                      (content_ranges (length file_data))))
   \<and> chunk_request upload_url file_data (a, b) =
       PutChunk upload_url a b (length file_data) (take (b + 1 - a) (drop a file_data))
   \<and> (file_data \<noteq> [] \<longrightarrow>
        content_ranges (length file_data) \<noteq> []
        \<and> fst (hd (content_ranges (length file_data))) = 0
        \<and> snd (last (content_ranges (length file_data))) = length file_data - 1)
   \<and> (\<forall>i. Suc i < length (content_ranges (length file_data)) \<longrightarrow>
          fst (content_ranges (length file_data) ! Suc i) =
            snd (content_ranges (length file_data) ! i) + 1
          \<and> snd (content_ranges (length file_data) ! i) + 1
              - fst (content_ranges (length file_data) ! i) = 1024 * 1024)
   \<and> (\<forall>i. i < length (content_ranges (length file_data)) \<longrightarrow>
          fst (content_ranges (length file_data) ! i) \<le> snd (content_ranges (length file_data) ! i)
          \<and> snd (content_ranges (length file_data) ! i) + 1
              - fst (content_ranges (length file_data) ! i) \<le> 1024 * 1024)
   \<and> concat (map (\<lambda>r. take (snd r + 1 - fst r) (drop (fst r) file_data))
               (content_ranges (length file_data))) = file_data
   \<and> content_ranges (5 * 1024 * 1024) =
       [(0, 1048575), (1048576, 2097151), (2097152, 3145727), (3145728, 4194303),
        (4194304, 5242879)]"
proof -
  let ?n = "teams_sanitize_filename name"
  let ?lookups = "[GetSite team, GetDrives site_id, ProbeByName drive folder ?n]"
  let ?found = "if status_code check = 200
                 then (case json_body check of
                         ItemList (item # rest) \<Rightarrow> if item = [] then None else Some item
                       | _ \<Rightarrow> None)
                 else None"
  let ?w3 = "\<lparr>remote = st3, sent = sent w @ ?lookups\<rparr>"
  let ?run = "upload_with_sharepoint_api srv team file_data name folder w"
  let ?session = "case ?found of Some item \<Rightarrow> CreateSessionById drive item ''replace''
                   | None \<Rightarrow> CreateSessionByPath drive folder ?n ''replace''"
  have run: "?run = transfer srv drive folder ?n ?found file_data ?w3"
    by (rule upload_after_probe [OF assms])
  have sr: "session_request drive folder ?n ?found = ?session"
    by (cases ?found) simp_all
  have cr: "content_request drive folder ?n ?found file_data =
      (case ?found of Some item \<Rightarrow> PutContentById drive item file_data
       | None \<Rightarrow> PutContentByPath drive folder ?n file_data)"
    by (cases ?found) simp_all
  have c1: "length file_data < 4 * 1024 * 1024 \<longrightarrow>
          sent (snd ?run) =
            sent w @ ?lookups @
              [case ?found of Some item \<Rightarrow> PutContentById drive item file_data
               | None \<Rightarrow> PutContentByPath drive folder ?n file_data]"
  proof
    assume "length file_data < 4 * 1024 * 1024"
    then have "length file_data < small_file_limit" by (simp add: limit_value)
    from transfer_small_sent [OF this, of srv drive folder ?n ?found ?w3]
    show "sent (snd ?run) =
            sent w @ ?lookups @
              [case ?found of Some item \<Rightarrow> PutContentById drive item file_data
               | None \<Rightarrow> PutContentByPath drive folder ?n file_data]"
      unfolding run cr by simp
  qed
  have c2: "4 * 1024 * 1024 \<le> length file_data \<longrightarrow>
            (\<exists>url n. sent (snd ?run) =
               sent w @ ?lookups @ ?session
                 # map (chunk_request url file_data)
                     (take n (content_ranges (length file_data))))"
  proof
    assume "4 * 1024 * 1024 \<le> length file_data"
    then have "\<not> length file_data < small_file_limit" by (simp add: limit_value)
    from transfer_large_sent [OF this, of srv drive folder ?n ?found ?w3]
    show "\<exists>url n. sent (snd ?run) =
               sent w @ ?lookups @ ?session
                 # map (chunk_request url file_data)
                     (take n (content_ranges (length file_data)))"
      unfolding run sr by simp
  qed
  have c3: "4 * 1024 * 1024 \<le> length file_data
            \<and> srv st3 ?session =
                (\<lparr>status_code = 200, json_body = UploadSession (Some upload_url)\<rparr>, st4)
            \<and> upload_url \<noteq> []
            \<and> (\<forall>st a b d.
                  status_code (fst (srv st (PutChunk upload_url a b (length file_data) d))) =
                    (if b + 1 < length file_data then 202 else 201)) \<longrightarrow>
            fst ?run = Inr ()
            \<and> sent (snd ?run) =
                sent w @ ?lookups @ ?session
                  # map (chunk_request upload_url file_data)
                      (content_ranges (length file_data))"
  proof
    assume h: "4 * 1024 * 1024 \<le> length file_data
            \<and> srv st3 ?session =
                (\<lparr>status_code = 200, json_body = UploadSession (Some upload_url)\<rparr>, st4)
            \<and> upload_url \<noteq> []
            \<and> (\<forall>st a b d.
                  status_code (fst (srv st (PutChunk upload_url a b (length file_data) d))) =
                    (if b + 1 < length file_data then 202 else 201))"
    then have big: "\<not> length file_data < small_file_limit" by (simp add: limit_value)
    from h have s: "srv (remote ?w3) (session_request drive folder ?n ?found) =
        (\<lparr>status_code = 200, json_body = UploadSession (Some upload_url)\<rparr>, st4)"
      unfolding sr by simp
    from h have u: "upload_url \<noteq> []" by blast
    from h have a: "\<forall>st a b d.
        status_code (fst (srv st (PutChunk upload_url a b (length file_data) d))) =
          (if b + 1 < length file_data then 202 else 201)"
      by blast
    from transfer_large_accepted [OF big s u a]
    show "fst ?run = Inr ()
            \<and> sent (snd ?run) =
                sent w @ ?lookups @ ?session
                  # map (chunk_request upload_url file_data)
                      (content_ranges (length file_data))"
      unfolding run sr by simp
  qed
  have c4: "chunk_request upload_url file_data (a, b) =
       PutChunk upload_url a b (length file_data) (take (b + 1 - a) (drop a file_data))"
    by (simp add: chunk_request_def)
  have c5: "file_data \<noteq> [] \<longrightarrow>
        content_ranges (length file_data) \<noteq> []
        \<and> fst (hd (content_ranges (length file_data))) = 0
        \<and> snd (last (content_ranges (length file_data))) = length file_data - 1"
    by (simp add: content_ranges_first content_ranges_last)
  have c6: "\<forall>i. Suc i < length (content_ranges (length file_data)) \<longrightarrow>
          fst (content_ranges (length file_data) ! Suc i) =
            snd (content_ranges (length file_data) ! i) + 1
          \<and> snd (content_ranges (length file_data) ! i) + 1
              - fst (content_ranges (length file_data) ! i) = 1024 * 1024"
  proof (intro allI impI)
    fix i assume i: "Suc i < length (content_ranges (length file_data))"
    from content_ranges_contiguous [OF i]
    show "fst (content_ranges (length file_data) ! Suc i) =
            snd (content_ranges (length file_data) ! i) + 1
          \<and> snd (content_ranges (length file_data) ! i) + 1
              - fst (content_ranges (length file_data) ! i) = 1024 * 1024"
      by (simp add: limit_value)
  qed
  have c7: "\<forall>i. i < length (content_ranges (length file_data)) \<longrightarrow>
          fst (content_ranges (length file_data) ! i) \<le> snd (content_ranges (length file_data) ! i)
          \<and> snd (content_ranges (length file_data) ! i) + 1
              - fst (content_ranges (length file_data) ! i) \<le> 1024 * 1024"
  proof (intro allI impI)
    fix i assume i: "i < length (content_ranges (length file_data))"
    from content_ranges_sizes [OF i]
    show "fst (content_ranges (length file_data) ! i) \<le> snd (content_ranges (length file_data) ! i)
          \<and> snd (content_ranges (length file_data) ! i) + 1
              - fst (content_ranges (length file_data) ! i) \<le> 1024 * 1024"
      by (simp add: limit_value)
  qed
  have c8: "concat (map (\<lambda>r. take (snd r + 1 - fst r) (drop (fst r) file_data))
               (content_ranges (length file_data))) = file_data"
    by (rule content_ranges_cover)
  note c9 = five_mib_ranges
  show ?thesis
    unfolding Let_def
    by (rule conjI [OF conjI [OF c1 conjI [OF c2 c3]]
          conjI [OF c4 conjI [OF c5 conjI [OF c6 conjI [OF c7 conjI [OF c8 c9]]]]]])
qed


theorem transfer_strategy_witness:
  "length ''%PDF'' < 4 * 1024 * 1024
   \<and> finding_server () (ProbeByName ''drive-1'' ''folder'' (teams_sanitize_filename ''a.pdf'')) =
       (\<lparr>status_code = 200, json_body = ItemList [''item-7'']\<rparr>, ())
   \<and> sent (snd (upload_with_sharepoint_api finding_server ''team'' ''%PDF'' ''a.pdf'' ''folder''
                  no_requests)) =
       [GetSite ''team'', GetDrives ''site-1'', ProbeByName ''drive-1'' ''folder'' ''a.pdf'',
        PutContentById ''drive-1'' ''item-7'' ''%PDF'']
   \<and> accepting_server () (ProbeByName ''drive-1'' ''folder'' (teams_sanitize_filename ''a.pdf'')) =
       (\<lparr>status_code = 200, json_body = ItemList []\<rparr>, ())
   \<and> sent (snd (upload_with_sharepoint_api accepting_server ''team'' ''%PDF'' ''a.pdf'' ''folder''
                  no_requests)) =
       [GetSite ''team'', GetDrives ''site-1'', ProbeByName ''drive-1'' ''folder'' ''a.pdf'',
        PutContentByPath ''drive-1'' ''folder'' ''a.pdf'' ''%PDF'']
   \<and> 4 * 1024 * 1024 \<le> length (replicate (5 * 1024 * 1024) (CHR ''x''))
   \<and> fst (upload_with_sharepoint_api accepting_server ''team''
            (replicate (5 * 1024 * 1024) (CHR ''x'')) ''a.pdf'' ''folder'' no_requests) = Inr ()
   \<and> sent (snd (upload_with_sharepoint_api accepting_server ''team''
                  (replicate (5 * 1024 * 1024) (CHR ''x'')) ''a.pdf'' ''folder'' no_requests)) =
       [GetSite ''team'', GetDrives ''site-1'', ProbeByName ''drive-1'' ''folder'' ''a.pdf'',
        CreateSessionByPath ''drive-1'' ''folder'' ''a.pdf'' ''replace'',
        PutChunk ''https://upload/1'' 0 1048575 5242880 (replicate 1048576 (CHR ''x'')),
        PutChunk ''https://upload/1'' 1048576 2097151 5242880 (replicate 1048576 (CHR ''x'')),
        PutChunk ''https://upload/1'' 2097152 3145727 5242880 (replicate 1048576 (CHR ''x'')),
        PutChunk ''https://upload/1'' 3145728 4194303 5242880 (replicate 1048576 (CHR ''x'')),
        PutChunk ''https://upload/1'' 4194304 5242879 5242880 (replicate 1048576 (CHR ''x''))]
   \<and> sent (snd (upload_with_sharepoint_api finding_server ''team''
                  (replicate (5 * 1024 * 1024) (CHR ''x'')) ''a.pdf'' ''folder'' no_requests)) =
       [GetSite ''team'', GetDrives ''site-1'', ProbeByName ''drive-1'' ''folder'' ''a.pdf'',
        CreateSessionById ''drive-1'' ''item-7'' ''replace'',
        PutChunk ''https://upload/1'' 0 1048575 5242880 (replicate 1048576 (CHR ''x'')),
        PutChunk ''https://upload/1'' 1048576 2097151 5242880 (replicate 1048576 (CHR ''x'')),
        PutChunk ''https://upload/1'' 2097152 3145727 5242880 (replicate 1048576 (CHR ''x'')),
        PutChunk ''https://upload/1'' 3145728 4194303 5242880 (replicate 1048576 (CHR ''x'')),
        PutChunk ''https://upload/1'' 4194304 5242879 5242880 (replicate 1048576 (CHR ''x''))]"
proof -
  let ?big = "replicate (5 * 1024 * 1024) (CHR ''x'')"
  let ?n = "teams_sanitize_filename ''a.pdf''"
  let ?site = "''https://contoso.sharepoint.com/sites/finance''"
  have n: "?n = ''a.pdf''"
    by (simp add: teams_sanitize_filename_def re_sub_class_def sharepoint_invalid_chars_def
        strip_def is_space_def)
  have len: "length ?big = 5 * 1024 * 1024" by simp
  have r: "content_ranges (5 * 1024 * 1024) =
       [(0, 1048575), (1048576, 2097151), (2097152, 3145727), (3145728, 4194303),
        (4194304, 5242879)]"
    by (rule five_mib_ranges)
  have u1: "?site \<noteq> []" and u2: "''site-1'' \<noteq> []" and u3: "''https://upload/1'' \<noteq> []"
    by simp_all
  have small: "length ''%PDF'' < 4 * 1024 * 1024" by simp
  have large: "4 * 1024 * 1024 \<le> length ?big" by simp
  \<comment> \<open>the store that finds the item\<close>
  have f1: "finding_server (remote no_requests) (GetSite ''team'') =
      (\<lparr>status_code = 200, json_body = SiteInfo (Some ?site) (Some ''site-1'')\<rparr>, ())"
    by (simp add: finding_server_def accepting_server_def)
  have f2: "finding_server () (GetDrives ''site-1'') =
      (\<lparr>status_code = 200, json_body = DriveList (''drive-1'' # [])\<rparr>, ())"
    by (simp add: finding_server_def accepting_server_def)
  have f3: "finding_server () (ProbeByName ''drive-1'' ''folder'' ?n) =
      (\<lparr>status_code = 200, json_body = ItemList [''item-7'']\<rparr>, ())"
    by (simp add: finding_server_def)
  have f4: "status_code \<lparr>status_code = 200, json_body = ItemList [''item-7'']\<rparr> = 200 \<longrightarrow>
      (\<exists>items. json_body \<lparr>status_code = 200, json_body = ItemList [''item-7'']\<rparr> =
         ItemList items)"
    by simp
  have found: "(if status_code \<lparr>status_code = 200, json_body = ItemList [''item-7'']\<rparr> = 200
                 then (case json_body \<lparr>status_code = 200, json_body = ItemList [''item-7'']\<rparr> of
                         ItemList (item # rest) \<Rightarrow> if item = [] then None else Some item
                       | _ \<Rightarrow> None)
                 else None) = Some ''item-7''"
    by simp
  have f5: "finding_server () (CreateSessionById ''drive-1'' ''item-7'' ''replace'') =
      (\<lparr>status_code = 200, json_body = UploadSession (Some ''https://upload/1'')\<rparr>, ())"
    by (simp add: finding_server_def accepting_server_def)
  have f6: "\<forall>st a b d. status_code (fst (finding_server st
        (PutChunk ''https://upload/1'' a b (length ?big) d))) =
      (if b + 1 < length ?big then 202 else 201)"
    by (simp add: finding_server_def accepting_server_def)
  \<comment> \<open>the store that finds nothing\<close>
  have a1: "accepting_server (remote no_requests) (GetSite ''team'') =
      (\<lparr>status_code = 200, json_body = SiteInfo (Some ?site) (Some ''site-1'')\<rparr>, ())"
    by (simp add: accepting_server_def)
  have a2: "accepting_server () (GetDrives ''site-1'') =
      (\<lparr>status_code = 200, json_body = DriveList (''drive-1'' # [])\<rparr>, ())"
    by (simp add: accepting_server_def)
  have a3: "accepting_server () (ProbeByName ''drive-1'' ''folder'' ?n) =
      (\<lparr>status_code = 200, json_body = ItemList []\<rparr>, ())"
    by (simp add: accepting_server_def)
  have a4: "status_code \<lparr>status_code = 200, json_body = ItemList []\<rparr> = 200 \<longrightarrow>
      (\<exists>items. json_body \<lparr>status_code = 200, json_body = ItemList []\<rparr> = ItemList items)"
    by simp
  have none: "(if status_code \<lparr>status_code = 200, json_body = ItemList []\<rparr> = 200
                 then (case json_body \<lparr>status_code = 200, json_body = ItemList []\<rparr> of
                         ItemList (item # rest) \<Rightarrow> if item = [] then None else Some item
                       | _ \<Rightarrow> None)
                 else None) = None"
    by simp
  have a5: "accepting_server () (CreateSessionByPath ''drive-1'' ''folder'' ?n ''replace'') =
      (\<lparr>status_code = 200, json_body = UploadSession (Some ''https://upload/1'')\<rparr>, ())"
    by (simp add: accepting_server_def)
  have a6: "\<forall>st a b d. status_code (fst (accepting_server st
        (PutChunk ''https://upload/1'' a b (length ?big) d))) =
      (if b + 1 < length ?big then 202 else 201)"
    by (simp add: accepting_server_def)
  \<comment> \<open>a small payload, the item found\<close>
  note t1 = transfer_strategy [where file_data = "''%PDF''", OF f1 u1 u2 f2 f3 f4,
      unfolded Let_def found option.case, THEN conjunct1, THEN conjunct1]
  from t1 small have s1: "sent (snd (upload_with_sharepoint_api finding_server ''team'' ''%PDF''
      ''a.pdf'' ''folder'' no_requests)) =
       [GetSite ''team'', GetDrives ''site-1'', ProbeByName ''drive-1'' ''folder'' ''a.pdf'',
        PutContentById ''drive-1'' ''item-7'' ''%PDF'']"
    by (simp add: n no_requests_def)
  \<comment> \<open>a small payload, no item found\<close>
  note t2 = transfer_strategy [where file_data = "''%PDF''", OF a1 u1 u2 a2 a3 a4,
      unfolded Let_def none option.case, THEN conjunct1, THEN conjunct1]
  from t2 small have s2: "sent (snd (upload_with_sharepoint_api accepting_server ''team'' ''%PDF''
      ''a.pdf'' ''folder'' no_requests)) =
       [GetSite ''team'', GetDrives ''site-1'', ProbeByName ''drive-1'' ''folder'' ''a.pdf'',
        PutContentByPath ''drive-1'' ''folder'' ''a.pdf'' ''%PDF'']"
    by (simp add: n no_requests_def)
  \<comment> \<open>a payload of 5 MiB, no item found\<close>
  note t3 = transfer_strategy [where file_data = ?big and upload_url = "''https://upload/1''"
      and ?st4.0 = "()", OF a1 u1 u2 a2 a3 a4,
      unfolded Let_def none option.case, THEN conjunct1, THEN conjunct2, THEN conjunct2]
  from t3 large a5 u3 a6
  have ok3: "fst (upload_with_sharepoint_api accepting_server ''team'' ?big ''a.pdf'' ''folder''
      no_requests) = Inr ()"
    and tr3: "sent (snd (upload_with_sharepoint_api accepting_server ''team'' ?big ''a.pdf''
        ''folder'' no_requests)) =
      sent no_requests @ [GetSite ''team'', GetDrives ''site-1'',
                          ProbeByName ''drive-1'' ''folder'' ?n] @
        CreateSessionByPath ''drive-1'' ''folder'' ?n ''replace''
        # map (chunk_request ''https://upload/1'' ?big) (content_ranges (length ?big))"
    by blast+
  have s3: "sent (snd (upload_with_sharepoint_api accepting_server ''team'' ?big ''a.pdf''
        ''folder'' no_requests)) =
       [GetSite ''team'', GetDrives ''site-1'', ProbeByName ''drive-1'' ''folder'' ''a.pdf'',
        CreateSessionByPath ''drive-1'' ''folder'' ''a.pdf'' ''replace'',
        PutChunk ''https://upload/1'' 0 1048575 5242880 (replicate 1048576 (CHR ''x'')),
        PutChunk ''https://upload/1'' 1048576 2097151 5242880 (replicate 1048576 (CHR ''x'')),
        PutChunk ''https://upload/1'' 2097152 3145727 5242880 (replicate 1048576 (CHR ''x'')),
        PutChunk ''https://upload/1'' 3145728 4194303 5242880 (replicate 1048576 (CHR ''x'')),
        PutChunk ''https://upload/1'' 4194304 5242879 5242880 (replicate 1048576 (CHR ''x''))]"
    unfolding tr3 len r n by (simp add: no_requests_def chunk_request_def)
  \<comment> \<open>a payload of 5 MiB, the item found\<close>
  note t4 = transfer_strategy [where file_data = ?big and upload_url = "''https://upload/1''"
      and ?st4.0 = "()", OF f1 u1 u2 f2 f3 f4,
      unfolded Let_def found option.case, THEN conjunct1, THEN conjunct2, THEN conjunct2]
  from t4 large f5 u3 f6
  have tr4: "sent (snd (upload_with_sharepoint_api finding_server ''team'' ?big ''a.pdf''
        ''folder'' no_requests)) =
      sent no_requests @ [GetSite ''team'', GetDrives ''site-1'',
                          ProbeByName ''drive-1'' ''folder'' ?n] @
        CreateSessionById ''drive-1'' ''item-7'' ''replace''
        # map (chunk_request ''https://upload/1'' ?big) (content_ranges (length ?big))"
    by blast
  have s4: "sent (snd (upload_with_sharepoint_api finding_server ''team'' ?big ''a.pdf''
        ''folder'' no_requests)) =
       [GetSite ''team'', GetDrives ''site-1'', ProbeByName ''drive-1'' ''folder'' ''a.pdf'',
        CreateSessionById ''drive-1'' ''item-7'' ''replace'',
        PutChunk ''https://upload/1'' 0 1048575 5242880 (replicate 1048576 (CHR ''x'')),
        PutChunk ''https://upload/1'' 1048576 2097151 5242880 (replicate 1048576 (CHR ''x'')),
        PutChunk ''https://upload/1'' 2097152 3145727 5242880 (replicate 1048576 (CHR ''x'')),
        PutChunk ''https://upload/1'' 3145728 4194303 5242880 (replicate 1048576 (CHR ''x'')),
        PutChunk ''https://upload/1'' 4194304 5242879 5242880 (replicate 1048576 (CHR ''x''))]"
    unfolding tr4 len r n by (simp add: no_requests_def chunk_request_def)
  from small f3 s1 a3 s2 large ok3 s3 s4 show ?thesis by blast
qed

section \<open>The uploads of a batch\<close>

lemma upload_loop_step:
  "upload_loop srv team (fi # rest) w acc =
     upload_loop srv team rest (snd (delivery srv team fi w))
       (acc @ [upload_record fi (fst (delivery srv team fi w))])"
proof -
  obtain r w1 where d: "delivery srv team fi w = (r, w1)"
    by (cases "delivery srv team fi w")
  have s: "(case r of Inr u \<Rightarrow> True | Inl e \<Rightarrow> False) = (r = Inr ())"
    by (cases r) simp_all
  from d have u: "upload_file srv team
      (folder_id (determine_target_folder (generated_filename fi))) (pdf_data fi)
      (generated_filename fi) w = (r, w1)"
    by (simp add: delivery_def upload_file_def)
  show ?thesis
    using u by (simp add: Let_def d upload_record_def s)
qed

lemma world_before_0: "world_before srv team ups w 0 = w"
  by (simp add: world_before_def)

lemma world_before_Cons:
  "world_before srv team (fi # rest) w (Suc i) =
     world_before srv team rest (snd (delivery srv team fi w)) i"
  by (simp add: world_before_def)

lemma world_before_Suc:
  "i < length ups \<Longrightarrow>
   world_before srv team ups w (Suc i) =
     snd (delivery srv team (ups ! i) (world_before srv team ups w i))"
  by (simp add: world_before_def take_Suc_conv_app_nth)

lemma upload_loop_outcomes:
  "upload_loop srv team ups w acc =
     (acc @ map (\<lambda>i. upload_record (ups ! i)
                       (fst (delivery srv team (ups ! i) (world_before srv team ups w i))))
              [0 ..< length ups],
      world_before srv team ups w (length ups))"
proof (induction ups arbitrary: w acc)
  case Nil
  then show ?case by (simp add: world_before_def)
next
  case (Cons fi rest)
  let ?w1 = "snd (delivery srv team fi w)"
  let ?f = "\<lambda>i. upload_record ((fi # rest) ! i)
       (fst (delivery srv team ((fi # rest) ! i) (world_before srv team (fi # rest) w i)))"
  let ?g = "\<lambda>i. upload_record (rest ! i)
       (fst (delivery srv team (rest ! i) (world_before srv team rest ?w1 i)))"
  have up: "[0 ..< length (fi # rest)] = 0 # map Suc [0 ..< length rest]"
    by (simp add: upt_conv_Cons map_Suc_upt del: upt_Suc)
  have m: "map ?f [0 ..< length (fi # rest)] =
      upload_record fi (fst (delivery srv team fi w)) # map ?g [0 ..< length rest]"
    unfolding up by (simp add: world_before_0 world_before_Cons del: upt_Suc)
  have e: "world_before srv team (fi # rest) w (length (fi # rest)) =
      world_before srv team rest ?w1 (length rest)"
    by (simp add: world_before_Cons)
  show ?case
    unfolding upload_loop_step Cons.IH m e by simp
qed

lemma delivery_starts:
  "\<exists>more. sent (snd (delivery srv team fi w)) = sent w @ GetSite team # more"
proof -
  from upload_trace [of srv team "pdf_data fi" "generated_filename fi"
      "folder_id (determine_target_folder (generated_filename fi))" w]
  show ?thesis unfolding delivery_def by auto
qed


text \<open>
  Claim C9 (batch failure isolation). \<open>process_echeques\<close> returns, in the order of the
  input, one success record for every document that \<open>process_echeque\<close> processed and one
  failure record, with the document's file name and its error, for every document on
  which it failed: what is recorded for a document depends on that document's own outcome
  only, and the two lists together have one record for each input document. The upload
  loop of \<open>upload_files_to_teams\<close>, which is entered once a token is there, uploads every
  file, in the order of the input, whatever happened to the files before it: the upload
  of file \<open>i\<close> starts from the store as the upload of file \<open>i - 1\<close> left it and sends at
  least its site lookup, and the batch ends in the store as the last upload left it. The
  loop returns one record for each file, in the order of the input, and the record of
  file \<open>i\<close> has the name of that file, success exactly when the upload of that file
  succeeded, and otherwise the error of that upload. Without a token the function returns
  the token error before the loop.
\<close>

theorem batch_failure_isolation:
  "(let out = document_outcome pdf_to_image loads model key
                (case loaded of Some df \<Rightarrow> df | None \<Rightarrow> empty_dataframe);
        batch = fst (process_echeques pdf_to_image loads model loaded files key)
    in fst batch = success_records out (enumerate 0 files)
       \<and> snd batch = failure_records out (enumerate 0 files)
       \<and> length (fst batch) + length (snd batch) = length files
       \<and> map original_filename (fst batch) =
           map (\<lambda>d. filename (snd d)) (filter (\<lambda>d. \<not> isl (out d)) (enumerate 0 files))
       \<and> map failed_filename (snd batch) =
           map (\<lambda>d. filename (snd d)) (filter (\<lambda>d. isl (out d)) (enumerate 0 files))
       \<and> map (\<lambda>f. Inl (error f)) (snd batch) =
           map out (filter (\<lambda>d. isl (out d)) (enumerate 0 files)))
   \<and> (let before = world_before srv team ups w;
           upload = (\<lambda>i. delivery srv team (ups ! i) (before i));
           batch = upload_files_to_teams srv (Inr token) team ups w
       in (\<exists>rs. fst batch = (Some rs, None)
             \<and> length rs = length ups
             \<and> (\<forall>i<length ups.
                   uploaded_filename (rs ! i) = generated_filename (ups ! i)
                   \<and> uploaded_original_filename (rs ! i) = original_filename (ups ! i)
                   \<and> target_folder_id (rs ! i) =
                       folder_id (determine_target_folder (generated_filename (ups ! i)))
                   \<and> success (rs ! i) = (fst (upload i) = Inr ())
                   \<and> error_detail (rs ! i) =
                       (case fst (upload i) of Inl e \<Rightarrow> Some e | Inr u \<Rightarrow> None)))
          \<and> snd batch = before (length ups)
          \<and> before 0 = w
          \<and> (\<forall>i<length ups.
                before (Suc i) = snd (upload i)
                \<and> (\<exists>more. sent (before (Suc i)) = sent (before i) @ GetSite team # more)))
   \<and> upload_files_to_teams srv (Inl error_text) team ups w = ((None, Some error_text), w)"
proof -
  let ?df = "case loaded of Some df \<Rightarrow> df | None \<Rightarrow> empty_dataframe"
  let ?out = "document_outcome pdf_to_image loads model key ?df"
  let ?batch = "fst (process_echeques pdf_to_image loads model loaded files key)"
  have b: "?batch = (success_records ?out (enumerate 0 files),
                     failure_records ?out (enumerate 0 files))"
    using process_loop_records [of ?df ?df pdf_to_image loads model key 0 files "[]" "[]"]
    by (simp add: process_echeques_def)
  have l: "length (fst ?batch) + length (snd ?batch) = length files"
    unfolding b using records_length [of ?out "enumerate 0 files"] by simp
  have p: "fst ?batch = success_records ?out (enumerate 0 files)
       \<and> snd ?batch = failure_records ?out (enumerate 0 files)
       \<and> length (fst ?batch) + length (snd ?batch) = length files
       \<and> map original_filename (fst ?batch) =
           map (\<lambda>d. filename (snd d)) (filter (\<lambda>d. \<not> isl (?out d)) (enumerate 0 files))
       \<and> map failed_filename (snd ?batch) =
           map (\<lambda>d. filename (snd d)) (filter (\<lambda>d. isl (?out d)) (enumerate 0 files))
       \<and> map (\<lambda>f. Inl (error f)) (snd ?batch) =
           map ?out (filter (\<lambda>d. isl (?out d)) (enumerate 0 files))"
    using l unfolding b fst_conv snd_conv
    by (simp only: success_records_names failure_records_names failure_records_errors
        simp_thms)
  let ?before = "world_before srv team ups w"
  let ?upload = "\<lambda>i. delivery srv team (ups ! i) (?before i)"
  let ?ub = "upload_files_to_teams srv (Inr token) team ups w"
  let ?rs = "map (\<lambda>i. upload_record (ups ! i) (fst (?upload i))) [0 ..< length ups]"
  have ub: "?ub = ((Some ?rs, None), ?before (length ups))"
    by (simp add: upload_files_to_teams_def upload_loop_outcomes)
  have r: "\<forall>i<length ups.
                   uploaded_filename (?rs ! i) = generated_filename (ups ! i)
                   \<and> uploaded_original_filename (?rs ! i) = original_filename (ups ! i)
                   \<and> target_folder_id (?rs ! i) =
                       folder_id (determine_target_folder (generated_filename (ups ! i)))
                   \<and> success (?rs ! i) = (fst (?upload i) = Inr ())
                   \<and> error_detail (?rs ! i) =
                       (case fst (?upload i) of Inl e \<Rightarrow> Some e | Inr u \<Rightarrow> None)"
    by (simp add: upload_record_def)
  have u1: "\<exists>rs. fst ?ub = (Some rs, None)
             \<and> length rs = length ups
             \<and> (\<forall>i<length ups.
                   uploaded_filename (rs ! i) = generated_filename (ups ! i)
                   \<and> uploaded_original_filename (rs ! i) = original_filename (ups ! i)
                   \<and> target_folder_id (rs ! i) =
                       folder_id (determine_target_folder (generated_filename (ups ! i)))
                   \<and> success (rs ! i) = (fst (?upload i) = Inr ())
                   \<and> error_detail (rs ! i) =
                       (case fst (?upload i) of Inl e \<Rightarrow> Some e | Inr u \<Rightarrow> None))"
  proof (intro exI conjI)
    show "fst ?ub = (Some ?rs, None)" by (simp add: ub)
    show "length ?rs = length ups" by simp
    show "\<forall>i<length ups.
                   uploaded_filename (?rs ! i) = generated_filename (ups ! i)
                   \<and> uploaded_original_filename (?rs ! i) = original_filename (ups ! i)
                   \<and> target_folder_id (?rs ! i) =
                       folder_id (determine_target_folder (generated_filename (ups ! i)))
                   \<and> success (?rs ! i) = (fst (?upload i) = Inr ())
                   \<and> error_detail (?rs ! i) =
                       (case fst (?upload i) of Inl e \<Rightarrow> Some e | Inr u \<Rightarrow> None)"
      by (rule r)
  qed
  have u2: "snd ?ub = ?before (length ups)" by (simp add: ub)
  have u3: "?before 0 = w" by (rule world_before_0)
  have u4: "\<forall>i<length ups.
                ?before (Suc i) = snd (?upload i)
                \<and> (\<exists>more. sent (?before (Suc i)) = sent (?before i) @ GetSite team # more)"
  proof (intro allI impI)
    fix i assume i: "i < length ups"
    have s: "?before (Suc i) = snd (?upload i)" by (rule world_before_Suc [OF i])
    from delivery_starts [of srv team "ups ! i" "?before i"]
    show "?before (Suc i) = snd (?upload i)
                \<and> (\<exists>more. sent (?before (Suc i)) = sent (?before i) @ GetSite team # more)"
      unfolding s by simp
  qed
  have t: "upload_files_to_teams srv (Inl error_text) team ups w = ((None, Some error_text), w)"
    by (simp add: upload_files_to_teams_def)
  show ?thesis unfolding Let_def
    by (rule conjI [OF p conjI [OF conjI [OF u1 conjI [OF u2 conjI [OF u3 u4]]] t]])
qed


lemma delivery_refused_first:
  "delivery failing_first_server team fi \<lparr>remote = False, sent = s\<rparr> =
     (Inl (SiteError 503), \<lparr>remote = True, sent = s @ [GetSite team]\<rparr>)"
  by (simp add: delivery_def upload_with_sharepoint_api_def send_def failing_first_server_def)

lemma delivery_accepted_later:
  "length (pdf_data fi) < small_file_limit \<Longrightarrow>
   fst (delivery failing_first_server team fi \<lparr>remote = True, sent = s\<rparr>) = Inr ()"
  by (simp add: delivery_def upload_with_sharepoint_api_def send_def failing_first_server_def
      accepting_server_def transfer_def truthy_id_def Let_def)

lemma two_records: "length rs = 2 \<Longrightarrow> rs = [rs ! 0, rs ! Suc 0]"
  by (cases rs; cases "tl rs") auto

theorem batch_failure_isolation_witness:
  "map original_filename
     (fst (fst (process_echeques renders_nonempty loads_responses
                  (answers_each response_without_next_step) (Some one_row_table)
                  three_files ''key''))) = [''a.pdf'', ''c.pdf'']
   \<and> map failed_filename
       (snd (fst (process_echeques renders_nonempty loads_responses
                    (answers_each response_without_next_step) (Some one_row_table)
                    three_files ''key''))) = [''b.pdf'']
   \<and> map (\<lambda>f. Inl (error f))
       (snd (fst (process_echeques renders_nonempty loads_responses
                    (answers_each response_without_next_step) (Some one_row_table)
                    three_files ''key''))) =
       [Inl (Message ''Uploaded PDF is empty.'') :: echeque_error + echeque_result]
   \<and> (\<exists>rs. fst (upload_files_to_teams failing_first_server (Inr ''token'') ''team'' two_uploads
                  \<lparr>remote = False, sent = []\<rparr>) = (Some rs, None)
          \<and> map uploaded_filename rs =
              [''000495 WMC-AAM Advisory.pdf'', ''HKD 100671 Cheung Wilma Veronica.pdf'']
          \<and> map success rs = [False, True]
          \<and> map error_detail rs = [Some (SiteError 503), None])"
proof -
  let ?out = "document_outcome renders_nonempty loads_responses
      (answers_each response_without_next_step) ''key'' one_row_table"
  let ?a = "\<lparr>filename = ''a.pdf'', content = ''%PDF-a'', email_subject = None,
      email_date = None\<rparr>"
  let ?b = "\<lparr>filename = ''b.pdf'', content = [], email_subject = None, email_date = None\<rparr>"
  let ?c = "\<lparr>filename = ''c.pdf'', content = ''%PDF-c'', email_subject = Some ''cheque'',
      email_date = None\<rparr>"
  let ?w = "\<lparr>remote = False, sent = []\<rparr> :: bool world"
  let ?before = "world_before failing_first_server ''team'' two_uploads ?w"
  let ?upload = "\<lambda>i. delivery failing_first_server ''team'' (two_uploads ! i) (?before i)"
  have e: "enumerate 0 three_files = [(0, ?a), (1, ?b), (2, ?c)]"
    by (simp add: three_files_def)
  have oa: "\<not> isl (?out (0, ?a))" and oc: "\<not> isl (?out (2, ?c))"
    using processed_example [of "''%PDF-a''"] processed_example [of "''%PDF-c''"]
    by (simp_all add: document_outcome_def answers_each_answers)
  have ob: "?out (1, ?b) = Inl (Message ''Uploaded PDF is empty.'')"
    by (simp add: document_outcome_def empty_example)
  note t = batch_failure_isolation [where pdf_to_image = renders_nonempty
      and loads = loads_responses and model = "answers_each response_without_next_step"
      and key = "''key''" and loaded = "Some one_row_table" and files = three_files
      and srv = failing_first_server and token = "''token''" and team = "''team''"
      and ups = two_uploads and w = ?w and error_text = "''no token''",
      unfolded Let_def option.case]
  from t have n: "map original_filename
     (fst (fst (process_echeques renders_nonempty loads_responses
                  (answers_each response_without_next_step) (Some one_row_table)
                  three_files ''key''))) =
     map (\<lambda>d. filename (snd d)) (filter (\<lambda>d. \<not> isl (?out d)) (enumerate 0 three_files))"
    and f: "map failed_filename
       (snd (fst (process_echeques renders_nonempty loads_responses
                    (answers_each response_without_next_step) (Some one_row_table)
                    three_files ''key''))) =
     map (\<lambda>d. filename (snd d)) (filter (\<lambda>d. isl (?out d)) (enumerate 0 three_files))"
    and g: "map (\<lambda>f. Inl (error f))
       (snd (fst (process_echeques renders_nonempty loads_responses
                    (answers_each response_without_next_step) (Some one_row_table)
                    three_files ''key''))) =
     map ?out (filter (\<lambda>d. isl (?out d)) (enumerate 0 three_files))"
    by blast+
  note up = t [THEN conjunct2, THEN conjunct1]
  have l2: "length two_uploads = 2" by (simp add: two_uploads_def)
  from up have b0: "?before 0 = ?w"
    and chain: "\<forall>i<length two_uploads. ?before (Suc i) = snd (?upload i)
        \<and> (\<exists>more. sent (?before (Suc i)) = sent (?before i) @ GetSite ''team'' # more)"
    by blast+
  have u0: "?upload 0 = (Inl (SiteError 503), \<lparr>remote = True, sent = [GetSite ''team'']\<rparr>)"
    unfolding b0 by (simp add: delivery_refused_first)
  from chain l2 have "?before (Suc 0) = snd (?upload 0)" by simp
  then have b1: "?before (Suc 0) = \<lparr>remote = True, sent = [GetSite ''team'']\<rparr>"
    unfolding u0 by simp
  have u1: "fst (?upload (Suc 0)) = Inr ()"
    unfolding b1 by (rule delivery_accepted_later) (simp add: two_uploads_def small_file_limit_def)
  from up obtain rs where rs: "fst (upload_files_to_teams failing_first_server (Inr ''token'')
        ''team'' two_uploads ?w) = (Some rs, None)"
    "length rs = length two_uploads"
    and pt: "\<forall>i<length two_uploads.
        uploaded_filename (rs ! i) = generated_filename (two_uploads ! i)
        \<and> uploaded_original_filename (rs ! i) = original_filename (two_uploads ! i)
        \<and> target_folder_id (rs ! i) =
            folder_id (determine_target_folder (generated_filename (two_uploads ! i)))
        \<and> success (rs ! i) = (fst (?upload i) = Inr ())
        \<and> error_detail (rs ! i) =
            (case fst (?upload i) of Inl e \<Rightarrow> Some e | Inr u \<Rightarrow> None)"
    by blast
  have two: "rs = [rs ! 0, rs ! Suc 0]" by (rule two_records) (simp add: rs(2) l2)
  from pt l2 have p0: "uploaded_filename (rs ! 0) = generated_filename (two_uploads ! 0)"
    "success (rs ! 0) = (fst (?upload 0) = Inr ())"
    "error_detail (rs ! 0) = (case fst (?upload 0) of Inl e \<Rightarrow> Some e | Inr u \<Rightarrow> None)"
    by simp_all
  from pt l2 have p1: "uploaded_filename (rs ! Suc 0) = generated_filename (two_uploads ! Suc 0)"
    "success (rs ! Suc 0) = (fst (?upload (Suc 0)) = Inr ())"
    "error_detail (rs ! Suc 0) = (case fst (?upload (Suc 0)) of Inl e \<Rightarrow> Some e | Inr u \<Rightarrow> None)"
    by simp_all
  have names: "map uploaded_filename rs =
      [''000495 WMC-AAM Advisory.pdf'', ''HKD 100671 Cheung Wilma Veronica.pdf'']"
    by (subst two) (simp add: p0(1) p1(1) two_uploads_def)
  have succ: "map success rs = [False, True]"
    by (subst two) (simp add: p0(2) p1(2) u0 u1)
  have errs: "map error_detail rs = [Some (SiteError 503), None]"
    by (subst two) (simp add: p0(3) p1(3) u0 u1)
  have u: "\<exists>rs. fst (upload_files_to_teams failing_first_server (Inr ''token'') ''team''
         two_uploads ?w) = (Some rs, None)
          \<and> map uploaded_filename rs =
              [''000495 WMC-AAM Advisory.pdf'', ''HKD 100671 Cheung Wilma Veronica.pdf'']
          \<and> map success rs = [False, True]
          \<and> map error_detail rs = [Some (SiteError 503), None]"
    by (rule exI [of _ rs]) (rule conjI [OF rs(1) conjI [OF names conjI [OF succ errs]]])
  have n': "map (\<lambda>d. filename (snd d)) (filter (\<lambda>d. \<not> isl (?out d)) (enumerate 0 three_files))
      = [''a.pdf'', ''c.pdf'']"
    unfolding e using oa oc ob by simp
  have f': "map (\<lambda>d. filename (snd d)) (filter (\<lambda>d. isl (?out d)) (enumerate 0 three_files))
      = [''b.pdf'']"
    unfolding e using oa oc ob by simp
  have g': "map ?out (filter (\<lambda>d. isl (?out d)) (enumerate 0 three_files)) =
      [Inl (Message ''Uploaded PDF is empty.'')]"
    unfolding e using oa oc ob by simp
  from n n' f f' g g' u show ?thesis by (simp only:)
qed

section \<open>Properties of a delivery to the remote store\<close>

lemma at_path_content [simp]: "at_path f n (x\<lparr>item_content := d\<rparr>) = at_path f n x"
  by (simp add: at_path_def)













lemma put_by_id_ids [simp]: "map item_id (put_by_id i d xs) = map item_id xs"
  by (induction xs) (simp_all add: put_by_id_def)

lemma put_by_id_paths [simp]:
  "map (\<lambda>x. (item_parent x, item_name x)) (put_by_id i d xs) =
   map (\<lambda>x. (item_parent x, item_name x)) xs"
  by (induction xs) (simp_all add: put_by_id_def)






























end
